(* ===== verification/Prelude.thy ===== *)
theory Prelude
  imports Main "HOL-Library.Word" "HOL-Library.Monad_Syntax"
begin

text \<open>
  Shared vocabulary of the development: the fixed-width integers of
  \<^verbatim>\<open>lwip/include/arch/cc.h\<close>, the little-endian view of byte buffers, slices and
  overwrites of buffers, and the lemma collections the component theories draw on.

  Aborts. A failed \<^verbatim>\<open>LWIP_ASSERT\<close> (which calls \<^verbatim>\<open>abort()\<close> in this port), a null
  dereference and an access outside an allocated block end the program; an operation that can
  do so returns an option and these outcomes are \<open>None\<close>. An error that the code returns to its
  caller is a value of the result instead.
\<close>

unbundle bit_operations_syntax

named_theorems word_nat \<open>turn word expressions into arithmetic on natural numbers\<close>
named_theorems buf_simps \<open>reads and writes of byte buffers\<close>

type_synonym u8 = "8 word"
type_synonym u16 = "16 word"
type_synonym u32 = "32 word"
type_synonym bytes = "u8 list"

text \<open>The platforms the program is compiled for, as its preprocessor conditions tell them apart.\<close>

datatype platform = Windows | Apple | Linux

subsection \<open>Bounds of machine words\<close>

lemma unat_u8_lt: "unat (x :: u8) < 256"
  using unsigned_less [of x, where 'a = nat] by simp

lemma unat_u16_lt: "unat (x :: u16) < 65536"
  using unsigned_less [of x, where 'a = nat] by simp

lemma unat_u32_lt: "unat (x :: u32) < 4294967296"
  using unsigned_less [of x, where 'a = nat] by simp

lemma unat_u8_le: "unat (x :: u8) \<le> 255"
  using unat_u8_lt [of x] by linarith

lemma unat_u16_le: "unat (x :: u16) \<le> 65535"
  using unat_u16_lt [of x] by linarith

lemma unat_ucast_u8_u16 [word_nat]: "unat (ucast (x :: u8) :: u16) = unat x"
  by (simp add: unsigned_ucast_eq take_bit_nat_eq_self_iff less_trans [OF unat_u8_lt])

lemma unat_ucast_u8_u32 [word_nat]: "unat (ucast (x :: u8) :: u32) = unat x"
  by (simp add: unsigned_ucast_eq take_bit_nat_eq_self_iff less_trans [OF unat_u8_lt])

lemma unat_ucast_u16_u32 [word_nat]: "unat (ucast (x :: u16) :: u32) = unat x"
  by (simp add: unsigned_ucast_eq take_bit_nat_eq_self_iff less_trans [OF unat_u16_lt])

lemma unat_add_u32: "unat (a :: u32) + unat b < 4294967296 \<Longrightarrow> unat (a + b) = unat a + unat b"
  by (simp add: unat_word_ariths)

lemma unat_add_u16: "unat (a :: u16) + unat b < 65536 \<Longrightarrow> unat (a + b) = unat a + unat b"
  by (simp add: unat_word_ariths)

lemma unat_sub_le: "unat b \<le> unat a \<Longrightarrow> unat (a - b :: 'a :: len word) = unat a - unat b"
  by (simp add: unat_sub word_le_nat_alt)

subsection \<open>Little-endian views\<close>

text \<open>The value the processor reads from two consecutive bytes.\<close>

definition le16 :: "u8 \<Rightarrow> u8 \<Rightarrow> u16" where
  "le16 b0 b1 = ucast b0 OR push_bit 8 (ucast b1)"

definition lo8 :: "u16 \<Rightarrow> u8" where
  "lo8 w = ucast w"

definition hi8 :: "u16 \<Rightarrow> u8" where
  "hi8 w = ucast (drop_bit 8 w)"

definition le32 :: "u8 \<Rightarrow> u8 \<Rightarrow> u8 \<Rightarrow> u8 \<Rightarrow> u32" where
  "le32 b0 b1 b2 b3 =
     ucast b0 OR push_bit 8 (ucast b1) OR push_bit 16 (ucast b2) OR push_bit 24 (ucast b3)"

definition byte_of32 :: "nat \<Rightarrow> u32 \<Rightarrow> u8" where
  "byte_of32 i w = ucast (drop_bit (8 * i) w)"

definition bytes_of32 :: "u32 \<Rightarrow> bytes" where
  "bytes_of32 w = [byte_of32 0 w, byte_of32 1 w, byte_of32 2 w, byte_of32 3 w]"

lemma u8_bit_ge: "8 \<le> n \<Longrightarrow> \<not> bit (a :: u8) n"
  by (auto dest: bit_imp_le_length)

lemma lo8_le16 [simp, buf_simps]: "lo8 (le16 a b) = a"
  by (rule bit_word_eqI) (auto simp: lo8_def le16_def bit_simps u8_bit_ge)

lemma hi8_le16 [simp, buf_simps]: "hi8 (le16 a b) = b"
  by (rule bit_word_eqI) (auto simp: hi8_def le16_def bit_simps u8_bit_ge)

lemma le16_lo8_hi8 [simp, buf_simps]: "le16 (lo8 w) (hi8 w) = w"
  by (rule bit_word_eqI) (auto simp: hi8_def lo8_def le16_def bit_simps)

lemma le16_inject: "le16 a b = le16 c d \<longleftrightarrow> a = c \<and> b = d"
  by (metis lo8_le16 hi8_le16)

lemma le32_byte_of32 [simp, buf_simps]:
  "le32 (byte_of32 0 w) (byte_of32 1 w) (byte_of32 2 w) (byte_of32 3 w) = w"
proof (rule bit_word_eqI)
  fix n assume n: "n < LENGTH(32)"
  then consider "n < 8" | "8 \<le> n" "n < 16" | "16 \<le> n" "n < 24" | "24 \<le> n" "n < 32" by force
  then show "bit (le32 (byte_of32 0 w) (byte_of32 1 w) (byte_of32 2 w) (byte_of32 3 w)) n = bit w n"
    by cases (auto simp: byte_of32_def le32_def bit_simps)
qed

lemma le32_byte_of32_Suc [simp, buf_simps]:
  "le32 (byte_of32 0 w) (byte_of32 (Suc 0) w) (byte_of32 2 w) (byte_of32 3 w) = w"
  using le32_byte_of32 [of w] by simp

lemma byte_of32_le32 [simp, buf_simps]:
  "byte_of32 0 (le32 a b c d) = a"
  "byte_of32 (Suc 0) (le32 a b c d) = b"
  "byte_of32 1 (le32 a b c d) = b"
  "byte_of32 2 (le32 a b c d) = c"
  "byte_of32 3 (le32 a b c d) = d"
  by (rule bit_word_eqI; auto simp: byte_of32_def le32_def bit_simps u8_bit_ge)+

lemma unat_le16 [word_nat]: "unat (le16 a b) = unat a + 256 * unat b"
proof -
  have "ucast a + push_bit 8 (ucast b) = le16 a b"
    unfolding le16_def by (rule disjunctive_add) (auto simp: bit_simps u8_bit_ge)
  then have "le16 a b = ucast a + 256 * ucast b" by (simp add: push_bit_eq_mult mult.commute)
  moreover have "unat a + 256 * unat b < 65536"
    using unat_u8_lt [of a] unat_u8_lt [of b] by linarith
  ultimately show ?thesis
    by (simp add: unat_word_ariths word_nat)
qed

lemma unat_le32 [word_nat]:
  "unat (le32 a b c d) = unat a + 256 * unat b + 65536 * unat c + 16777216 * unat d"
proof -
  have "(ucast a :: u32) OR push_bit 8 (ucast b) = ucast a + push_bit 8 (ucast b)"
    by (rule disjunctive_add [symmetric]) (auto simp: bit_simps u8_bit_ge)
  moreover have "(ucast a :: u32) OR push_bit 8 (ucast b) OR push_bit 16 (ucast c) =
      (ucast a OR push_bit 8 (ucast b)) + push_bit 16 (ucast c)"
    unfolding or.assoc [symmetric]
    by (rule disjunctive_add [symmetric]) (auto simp: bit_simps u8_bit_ge)
  moreover have "le32 a b c d =
      (ucast a OR push_bit 8 (ucast b) OR push_bit 16 (ucast c)) + push_bit 24 (ucast d)"
    unfolding le32_def or.assoc [symmetric]
    by (rule disjunctive_add [symmetric]) (auto simp: bit_simps u8_bit_ge)
  ultimately have "le32 a b c d = ucast a + 256 * ucast b + 65536 * ucast c + 16777216 * ucast d"
    by (simp add: push_bit_eq_mult mult.commute)
  moreover have "unat a + 256 * unat b + 65536 * unat c + 16777216 * unat d < 4294967296"
    using unat_u8_lt [of a] unat_u8_lt [of b] unat_u8_lt [of c] unat_u8_lt [of d] by linarith
  ultimately show ?thesis
    by (simp add: unat_word_ariths word_nat)
qed

lemma length_bytes_of32 [simp]: "length (bytes_of32 w) = 4"
  by (simp add: bytes_of32_def)

subsection \<open>Slices and overwrites of buffers\<close>

definition slice :: "nat \<Rightarrow> nat \<Rightarrow> 'a list \<Rightarrow> 'a list" where
  "slice off n xs = take n (drop off xs)"

text \<open>\<^verbatim>\<open>memcpy(xs + off, ys, length ys)\<close>, where the destination range lies inside the block.\<close>

definition overwrite :: "nat \<Rightarrow> 'a list \<Rightarrow> 'a list \<Rightarrow> 'a list" where
  "overwrite off ys xs = take off xs @ ys @ drop (off + length ys) xs"

lemma length_slice [simp, buf_simps]: "off + n \<le> length xs \<Longrightarrow> length (slice off n xs) = n"
  by (simp add: slice_def)

lemma slice_0_all [simp]: "slice 0 (length xs) xs = xs"
  by (simp add: slice_def)

lemma slice_zero [simp]: "slice off 0 xs = []"
  by (simp add: slice_def)

lemma slice_append_split:
  "slice off (m + n) xs = slice off m xs @ slice (off + m) n xs"
  by (simp add: slice_def take_add add.commute)

lemma length_overwrite [simp, buf_simps]:
  "off + length ys \<le> length xs \<Longrightarrow> length (overwrite off ys xs) = length xs"
  by (simp add: overwrite_def)

lemma overwrite_Nil [simp]: "overwrite off [] xs = xs"
  by (simp add: overwrite_def)

lemma slice_overwrite_same [simp, buf_simps]:
  "off + length ys \<le> length xs \<Longrightarrow> slice off (length ys) (overwrite off ys xs) = ys"
  by (simp add: slice_def overwrite_def)

lemma slice_overwrite_before:
  "a + n \<le> off \<Longrightarrow> off + length ys \<le> length xs \<Longrightarrow> slice a n (overwrite off ys xs) = slice a n xs"
  by (simp add: slice_def overwrite_def take_drop min_def)

lemma slice_overwrite_after:
  "off + length ys \<le> a \<Longrightarrow> off + length ys \<le> length xs \<Longrightarrow>
   slice a n (overwrite off ys xs) = slice a n xs"
  by (simp add: slice_def overwrite_def)

lemma slice_overwrite_inside:
  assumes "off \<le> a" and "a + n \<le> off + length ys" and "off + length ys \<le> length xs"
  shows "slice a n (overwrite off ys xs) = slice (a - off) n ys"
  using assms by (simp add: slice_def overwrite_def)

lemma overwrite_snoc:
  "off + length ys < length xs \<Longrightarrow> (overwrite off ys xs)[off + length ys := c] = overwrite off (ys @ [c]) xs"
  by (simp add: overwrite_def list_update_append min_def Cons_nth_drop_Suc [symmetric])

lemma overwrite_Cons:
  "off < length xs \<Longrightarrow> overwrite (Suc off) ys (xs[off := c]) = overwrite off (c # ys) xs"
  by (simp add: overwrite_def take_Suc_conv_app_nth)

lemma overwrite_append:
  "off + length ys + length zs \<le> length xs \<Longrightarrow>
   overwrite (off + length ys) zs (overwrite off ys xs) = overwrite off (ys @ zs) xs"
  by (cases ys) (auto simp: overwrite_def min_def ac_simps)

lemma nth_overwrite:
  "off + length ys \<le> length xs \<Longrightarrow> i < length xs \<Longrightarrow>
   overwrite off ys xs ! i = (if off \<le> i \<and> i < off + length ys then ys ! (i - off) else xs ! i)"
  by (auto simp: overwrite_def nth_append min_def)

subsection \<open>Decimal notation\<close>

definition digit_char :: "nat \<Rightarrow> char" where
  "digit_char d = char_of (48 + d)"

fun dec_string :: "nat \<Rightarrow> string" where
  "dec_string n = (if n < 10 then [digit_char n] else dec_string (n div 10) @ [digit_char (n mod 10)])"

declare dec_string.simps [simp del]

lemma of_char_digit_char [simp]: "d < 10 \<Longrightarrow> (of_char (digit_char d) :: nat) = 48 + d"
  by (simp add: digit_char_def of_char_of)

lemma digit_char_0: "digit_char 0 = CHR ''0''"
  by code_simp

lemma dec_string_not_Nil [simp]: "dec_string n \<noteq> []"
  by (subst dec_string.simps) simp

lemma dec_string_small: "n < 10 \<Longrightarrow> dec_string n = [digit_char n]"
  by (subst dec_string.simps) simp

lemma dec_string_step: "10 \<le> n \<Longrightarrow> dec_string n = dec_string (n div 10) @ [digit_char (n mod 10)]"
  by (subst dec_string.simps) simp

lemma set_dec_string: "set (dec_string n) \<subseteq> digit_char ` {..<10}"
proof (induction n rule: dec_string.induct)
  case (1 n)
  then show ?case
    by (cases "n < 10") (auto simp: dec_string_small dec_string_step)
qed

lemma digit_char_inj: "d < 10 \<Longrightarrow> e < 10 \<Longrightarrow> digit_char d = digit_char e \<longleftrightarrow> d = e"
  by (metis of_char_digit_char add_left_imp_eq)

lemma digit_char_neq:
  "d < 10 \<Longrightarrow> digit_char d \<noteq> CHR ''.''" "d < 10 \<Longrightarrow> digit_char d \<noteq> CHR ''-''"
  by (auto dest: arg_cong [where f = "of_char :: char \<Rightarrow> nat"])

lemma dec_string_length_le: "n < 10 ^ k \<Longrightarrow> 0 < k \<Longrightarrow> length (dec_string n) \<le> k"
proof (induction n arbitrary: k rule: dec_string.induct)
  case (1 n)
  show ?case
  proof (cases "n < 10")
    case True then show ?thesis using 1 by (simp add: dec_string_small)
  next
    case False
    then obtain k' where k: "k = Suc k'" "0 < k'" using 1 by (cases k; cases "k - 1") auto
    then have "n div 10 < 10 ^ k'" using 1 by (simp add: less_mult_imp_div_less mult.commute)
    then show ?thesis using 1 False k by (simp add: dec_string_step)
  qed
qed

lemma dec_string_length_gt: "10 ^ k \<le> n \<Longrightarrow> 0 < n \<Longrightarrow> k < length (dec_string n)"
proof (induction n arbitrary: k rule: dec_string.induct)
  case (1 n)
  show ?case
  proof (cases "n < 10")
    case True
    then have "(10 :: nat) ^ k < 10 ^ 1" using 1 by simp
    then have "k = 0" by (simp only: power_strict_increasing_iff)
    then show ?thesis by simp
  next
    case False
    show ?thesis
    proof (cases k)
      case (Suc k')
      then have "10 ^ k' \<le> n div 10" using "1.prems" 
        by (simp add: less_eq_div_iff_mult_less_eq mult.commute)
      then show ?thesis using "1.IH" False Suc by (simp add: dec_string_step [of n])
    qed simp
  qed
qed

end
