(* ===== verification/Lwip_Def.thy ===== *)
theory Lwip_Def
  imports Prelude
begin

text \<open>
  The utilities of \<^verbatim>\<open>lwip/core/def.c\<close> and \<^verbatim>\<open>lwip/include/lwip/def.h\<close>: byte order
  conversion (the port is little-endian), the bounded substring search, the two caseless
  comparisons and the integer printer. A C string is the list of its characters before the
  terminating zero; reading the zero is \<open>char0\<close> of the empty list.
\<close>

subsection \<open>Error values\<close>

text \<open>\<^verbatim>\<open>err_enum_t\<close> of \<^verbatim>\<open>lwip/include/lwip/err.h\<close>.\<close>

datatype err_t = ERR_OK | ERR_MEM | ERR_BUF | ERR_TIMEOUT | ERR_RTE | ERR_INPROGRESS | ERR_VAL
  | ERR_WOULDBLOCK | ERR_USE | ERR_ALREADY | ERR_ISCONN | ERR_CONN | ERR_IF | ERR_ABRT | ERR_RST
  | ERR_CLSD | ERR_ARG

subsection \<open>Byte order\<close>

definition PP_HTONS :: "u16 \<Rightarrow> u16" where
  "PP_HTONS x = push_bit 8 (x AND 0x00ff) OR drop_bit 8 (x AND 0xff00)"

definition PP_HTONL :: "u32 \<Rightarrow> u32" where
  "PP_HTONL x = push_bit 24 (x AND 0x000000ff) OR push_bit 8 (x AND 0x0000ff00) OR
                drop_bit 8 (x AND 0x00ff0000) OR drop_bit 24 (x AND 0xff000000)"

definition lwip_htons :: "u16 \<Rightarrow> u16" where
  "lwip_htons n = PP_HTONS n"

definition lwip_htonl :: "u32 \<Rightarrow> u32" where
  "lwip_htonl n = PP_HTONL n"

abbreviation lwip_ntohs :: "u16 \<Rightarrow> u16" where
  "lwip_ntohs \<equiv> lwip_htons"

abbreviation lwip_ntohl :: "u32 \<Rightarrow> u32" where
  "lwip_ntohl \<equiv> lwip_htonl"

definition LWIP_MAKEU32 :: "u32 \<Rightarrow> u32 \<Rightarrow> u32 \<Rightarrow> u32 \<Rightarrow> u32" where
  "LWIP_MAKEU32 a b c d =
     push_bit 24 (a AND 0xff) OR push_bit 16 (b AND 0xff) OR push_bit 8 (c AND 0xff) OR (d AND 0xff)"

subsection \<open>Strings\<close>

definition char0 :: "bytes \<Rightarrow> u8" where
  "char0 s = (case s of [] \<Rightarrow> 0 | c # _ \<Rightarrow> c)"

text \<open>The search loop of \<^verbatim>\<open>lwip_strnstr\<close>: \<open>pos\<close> is \<^verbatim>\<open>p - buffer\<close>, \<open>rest\<close> the string at
  \<^verbatim>\<open>p\<close>; \<^verbatim>\<open>strncmp(p, token, tokenlen) == 0\<close> says that the token is a prefix there.\<close>

fun strnstr_loop :: "bytes \<Rightarrow> nat \<Rightarrow> nat \<Rightarrow> bytes \<Rightarrow> nat option" where
  "strnstr_loop token n pos [] = None"
| "strnstr_loop token n pos (c # rest) =
     (if pos + length token \<le> n then
        (if c = char0 token \<and> take (length token) (c # rest) = token then Some pos
         else strnstr_loop token n (Suc pos) rest)
      else None)"

definition lwip_strnstr :: "bytes \<Rightarrow> bytes \<Rightarrow> nat \<Rightarrow> nat option" where
  "lwip_strnstr buffer token n =
     (if length token = 0 then Some 0 else strnstr_loop token n 0 buffer)"

text \<open>The comparison both caseless loops make at one position: whether they go on.\<close>

definition char_ieq :: "u8 \<Rightarrow> u8 \<Rightarrow> bool" where
  "char_ieq c1 c2 =
     (if c1 \<noteq> c2 then
        (let c1_upc = c1 OR 0x20 in
         if 0x61 \<le> c1_upc \<and> c1_upc \<le> 0x7a then c1_upc = c2 OR 0x20 else False)
      else True)"

fun lwip_stricmp :: "bytes \<Rightarrow> bytes \<Rightarrow> int" where
  "lwip_stricmp str1 str2 =
     (let c1 = char0 str1; c2 = char0 str2 in
      if \<not> char_ieq c1 c2 then 1
      else case str1 of [] \<Rightarrow> 0 | x # xs \<Rightarrow> (if c1 \<noteq> 0 then lwip_stricmp xs (tl str2) else 0))"

text \<open>\<^verbatim>\<open>len\<close> is decremented before it is tested, so a call with zero wraps to the largest
  \<^verbatim>\<open>size_t\<close> and compares the whole strings.\<close>

fun lwip_strnicmp :: "bytes \<Rightarrow> bytes \<Rightarrow> 64 word \<Rightarrow> int" where
  "lwip_strnicmp str1 str2 len =
     (let c1 = char0 str1; c2 = char0 str2 in
      if \<not> char_ieq c1 c2 then 1
      else case str1 of [] \<Rightarrow> 0
           | x # xs \<Rightarrow> (if len - 1 \<noteq> 0 \<and> c1 \<noteq> 0 then lwip_strnicmp xs (tl str2) (len - 1) else 0))"

declare lwip_stricmp.simps [simp del] lwip_strnicmp.simps [simp del]

subsection \<open>Printing integers\<close>

text \<open>The loop of \<^verbatim>\<open>lwip_itoa\<close>: \<open>room\<close> is \<^verbatim>\<open>tmp - res\<close>, \<open>acc\<close> the digits written so far.\<close>

fun itoa_loop :: "nat \<Rightarrow> nat \<Rightarrow> string \<Rightarrow> nat \<times> string" where
  "itoa_loop n room acc =
     (if n \<noteq> 0 \<and> 0 < room then itoa_loop (n div 10) (room - 1) (digit_char (n mod 10) # acc)
      else (n, acc))"

declare itoa_loop.simps [simp del]

text \<open>The string left in the buffer; \<open>None\<close> when nothing is written. \<open>number\<close> is taken above
  \<^verbatim>\<open>INT_MIN\<close>, whose negation overflows.\<close>

definition lwip_itoa :: "nat \<Rightarrow> int \<Rightarrow> string option" where
  "lwip_itoa bufsize number =
     (if bufsize < 2 then (if bufsize = 1 then Some [] else None)
      else
        (let sign = (if number < 0 then ''-'' else []);
             (n, digits) = itoa_loop (nat \<bar>number\<bar>) (bufsize - 1 - length sign) []
         in if n \<noteq> 0 then Some []
            else if digits = [] then Some (sign @ ''0'')
            else Some (sign @ digits)))"

subsection \<open>Byte order: lemmas\<close>

lemma mask_bytes16: "(0x00ff :: u16) = mask 8" "(0xff00 :: u16) = push_bit 8 (mask 8)"
  by (simp_all add: mask_eq_exp_minus_1 push_bit_eq_mult)

lemma mask_bytes32:
  "(0xff :: u32) = mask 8" "(0xff00 :: u32) = push_bit 8 (mask 8)"
  "(0xff0000 :: u32) = push_bit 16 (mask 8)" "(0xff000000 :: u32) = push_bit 24 (mask 8)"
  by (simp_all add: mask_eq_exp_minus_1 push_bit_eq_mult)

lemma lwip_htons_le16: "lwip_htons (le16 a b) = le16 b a"
proof (rule bit_word_eqI)
  fix n assume "n < LENGTH(16)"
  then consider "n < 8" | "8 \<le> n" "n < 16" by force
  then show "bit (lwip_htons (le16 a b)) n = bit (le16 b a) n"
    by cases (simp_all add: lwip_htons_def PP_HTONS_def le16_def mask_bytes16 bit_simps u8_bit_ge
      less_diff_conv2)
qed

lemma lwip_htons_bytes: "lwip_htons w = le16 (hi8 w) (lo8 w)"
  by (metis lwip_htons_le16 le16_lo8_hi8)

lemma lwip_htons_htons [simp]: "lwip_htons (lwip_htons n) = n"
  by (simp add: lwip_htons_bytes)

lemma lwip_htonl_le32: "lwip_htonl (le32 a b c d) = le32 d c b a"
proof (rule bit_word_eqI)
  fix n assume "n < LENGTH(32)"
  then consider "n < 8" | "8 \<le> n" "n < 16" | "16 \<le> n" "n < 24" | "24 \<le> n" "n < 32" by force
  then show "bit (lwip_htonl (le32 a b c d)) n = bit (le32 d c b a) n"
    by cases (simp_all add: lwip_htonl_def PP_HTONL_def le32_def mask_bytes32 bit_simps u8_bit_ge
      less_diff_conv2)
qed

lemma lwip_htonl_bytes:
  "lwip_htonl w = le32 (byte_of32 3 w) (byte_of32 2 w) (byte_of32 1 w) (byte_of32 0 w)"
  by (metis lwip_htonl_le32 le32_byte_of32)

lemma lwip_htonl_htonl [simp]: "lwip_htonl (lwip_htonl n) = n"
  by (simp add: lwip_htonl_bytes)

subsection \<open>Strings: lemmas\<close>

text \<open>Where a token occurs in a string, read from a position.\<close>

definition occurs_at :: "bytes \<Rightarrow> bytes \<Rightarrow> nat \<Rightarrow> bool" where
  "occurs_at token s i \<longleftrightarrow> i + length token \<le> length s \<and> slice i (length token) s = token"

lemma occurs_at_Cons_Suc [simp]: "occurs_at token (c # s) (Suc i) = occurs_at token s i"
  by (simp add: occurs_at_def slice_def)

lemma take_eq_imp_le: "take (length xs) ys = xs \<Longrightarrow> length xs \<le> length ys"
  by (metis length_take min.cobounded1)

lemma occurs_at_Cons_0:
  assumes "token \<noteq> []"
  shows "occurs_at token (c # s) 0 \<longleftrightarrow> c = char0 token \<and> take (length token) (c # s) = token"
  using assms by (cases token) (auto simp: occurs_at_def slice_def char0_def dest: take_eq_imp_le)

lemma strnstr_loop_Some:
  assumes "token \<noteq> []"
  shows "strnstr_loop token n pos s = Some r \<longleftrightarrow>
    pos \<le> r \<and> r + length token \<le> n \<and> occurs_at token s (r - pos) \<and>
    (\<forall>j < r - pos. \<not> occurs_at token s j)"
  using assms
proof (induction token n pos s rule: strnstr_loop.induct)
  case (1 token n pos)
  then show ?case by (simp add: occurs_at_def)
next
  case (2 token n pos c rest)
  note at0 = occurs_at_Cons_0 [OF "2.prems", of c rest]
  show ?case
  proof (cases "pos + length token \<le> n \<and> \<not> occurs_at token (c # rest) 0")
    case True
    then have "strnstr_loop token n pos (c # rest) = strnstr_loop token n (Suc pos) rest"
      using at0 by (simp only: strnstr_loop.simps if_True) auto
    also have "\<dots> = Some r \<longleftrightarrow> Suc pos \<le> r \<and> r + length token \<le> n \<and>
        occurs_at token rest (r - Suc pos) \<and> (\<forall>j < r - Suc pos. \<not> occurs_at token rest j)"
      using 2 True at0 by simp
    also have "\<dots> \<longleftrightarrow> pos \<le> r \<and> r + length token \<le> n \<and> occurs_at token (c # rest) (r - pos) \<and>
        (\<forall>j < r - pos. \<not> occurs_at token (c # rest) j)"
      using True by (cases "r \<le> pos") (auto simp: Suc_diff_Suc [symmetric] less_Suc_eq_0_disj not_le)
    finally show ?thesis .
  next
    case False
    then show ?thesis using at0 by (cases "r = pos") (auto intro!: exI [of _ "0 :: nat"])
  qed
qed

lemma char_ieq_refl [simp]: "char_ieq c c"
  by (simp add: char_ieq_def)

lemma char_ieq_zero: "char_ieq c 0 \<longleftrightarrow> c = 0" "char_ieq 0 c \<longleftrightarrow> c = 0"
  by (auto simp: char_ieq_def Let_def)

text \<open>The caseless comparison reports equality exactly of strings of the same length whose
  characters agree pairwise; it never reads past the end of the shorter string.\<close>

lemma lwip_stricmp_eq_0:
  assumes "0 \<notin> set s" and "0 \<notin> set t"
  shows "lwip_stricmp s t = 0 \<longleftrightarrow> list_all2 char_ieq s t"
  using assms
proof (induction s arbitrary: t)
  case Nil
  then show ?case
    by (cases t) (auto simp: lwip_stricmp.simps [of "[]"] char0_def char_ieq_zero)
next
  case (Cons c s)
  then show ?case
    by (cases t) (auto simp: lwip_stricmp.simps [of "c # s"] char0_def char_ieq_zero Let_def)
qed

lemma lwip_strnicmp_eq_0:
  assumes "0 \<notin> set s" and "0 \<notin> set t" and "n \<noteq> 0"
  shows "lwip_strnicmp s t n = 0 \<longleftrightarrow> list_all2 char_ieq (take (unat n) s) (take (unat n) t)"
  using assms
proof (induction s arbitrary: t n)
  case Nil
  then show ?case
    by (cases t) (auto simp: lwip_strnicmp.simps [of "[]"] char0_def char_ieq_zero unat_eq_zero)
next
  case (Cons c s)
  define m where "m = unat (n - 1)"
  have m: "unat n = Suc m" "unat (n - 1) = m"
    using Cons.prems(3) unat_minus_one [of n] unat_eq_zero [of n] by (simp_all add: m_def)
  then have "n - 1 = 0 \<longleftrightarrow> m = 0"
    using unat_eq_zero [of "n - 1"] by simp
  then show ?case
    using Cons.prems Cons.IH [of "tl t" "n - 1"] m
    by (cases t; cases m) (auto simp: lwip_strnicmp.simps [of "c # s"] char0_def char_ieq_zero Let_def)
qed

subsection \<open>Printing integers: lemmas\<close>

lemma itoa_loop_dec:
  "0 < n \<Longrightarrow> itoa_loop n room acc =
     (if length (dec_string n) \<le> room then (0, dec_string n @ acc)
      else (n div 10 ^ room, drop (length (dec_string n) - room) (dec_string n) @ acc))"
proof (induction n room acc rule: itoa_loop.induct)
  case (1 n room acc)
  show ?case
  proof (cases "n < 10")
    case True
    then show ?thesis
      using \<open>0 < n\<close>
      by (cases room) (auto simp: itoa_loop.simps [of n] itoa_loop.simps [of 0] dec_string_small)
  next
    case False
    then show ?thesis
      using 1 by (cases room) (auto simp: itoa_loop.simps [of n] dec_string_step [of n] Suc_diff_le div_mult2_eq)
  qed
qed

lemma lwip_itoa_fits:
  assumes "2 \<le> bufsize"
    and "length (dec_string (nat \<bar>number\<bar>)) + (if number < 0 then 1 else 0) < bufsize"
  shows "lwip_itoa bufsize number =
    Some ((if number < 0 then ''-'' else []) @ dec_string (nat \<bar>number\<bar>))"
proof (cases "number = 0")
  case True
  then show ?thesis
    using assms by (simp add: lwip_itoa_def itoa_loop.simps [of 0] dec_string_small digit_char_0)
next
  case False
  then show ?thesis
    using assms itoa_loop_dec [of "nat \<bar>number\<bar>"] by (auto simp: lwip_itoa_def Let_def)
qed

lemma lwip_itoa_too_small:
  assumes "2 \<le> bufsize"
    and "bufsize \<le> length (dec_string (nat \<bar>number\<bar>)) + (if number < 0 then 1 else 0)"
  shows "lwip_itoa bufsize number = Some []"
proof -
  define room where "room = bufsize - 1 - (if number < 0 then 1 else 0)"
  have nz: "number \<noteq> 0"
    using assms by (auto simp: dec_string_small)
  then have n: "0 < nat \<bar>number\<bar>" by simp
  have long: "\<not> length (dec_string (nat \<bar>number\<bar>)) \<le> room"
    using assms by (auto simp: room_def split: if_splits)
  then have "nat \<bar>number\<bar> div 10 ^ room \<noteq> 0"
    using dec_string_length_le [of "nat \<bar>number\<bar>" room] assms nz
    by (cases "room = 0") (auto simp: div_eq_0_iff n)
  then show ?thesis
    using assms itoa_loop_dec [OF n, of room "[]"] long
    by (auto simp: lwip_itoa_def room_def Let_def split: if_splits)
qed

subsection \<open>Properties\<close>

text \<open>\<^verbatim>\<open>lwip_strnstr\<close> finds the first occurrence of the token that ends within the first \<open>n\<close> characters,
  and a null pointer exactly when there is none.\<close>

theorem lwip_strnstr_first:
  assumes "token \<noteq> []"
  shows "lwip_strnstr buffer token n = Some r \<longleftrightarrow>
    r + length token \<le> n \<and> occurs_at token buffer r \<and> (\<forall>j < r. \<not> occurs_at token buffer j)"
  using strnstr_loop_Some [OF assms, of n 0 buffer r] assms by (simp add: lwip_strnstr_def)

theorem lwip_strnstr_first_witness:
  "lwip_strnstr [104, 101, 108, 108, 111] [108, 111] 5 = Some 3"
  using lwip_strnstr_first [of "[108, 111]" "[104, 101, 108, 108, 111]" 5 3]
  by (auto simp: occurs_at_def slice_def less_Suc_eq numeral_3_eq_3)

text \<open>\<^verbatim>\<open>lwip_itoa\<close> leaves the signed decimal representation of the number in the buffer when it fits
  with its terminator, and the empty string when it does not; it never leaves a truncated number.\<close>

theorem lwip_itoa_decimal:
  assumes "2 \<le> bufsize"
  shows "lwip_itoa bufsize number =
    Some (let s = (if number < 0 then ''-'' else []) @ dec_string (nat \<bar>number\<bar>)
          in if length s + 1 \<le> bufsize then s else [])"
  using lwip_itoa_fits [OF assms, of number] lwip_itoa_too_small [OF assms, of number]
  by (cases "length (dec_string (nat \<bar>number\<bar>)) + (if number < 0 then 1 else 0) < bufsize")
     (auto simp: Let_def split: if_splits)

theorem lwip_itoa_decimal_witness: "lwip_itoa 4 (- 42) = Some ''-42'' \<and> lwip_itoa 3 (- 42) = Some []"
proof -
  have "dec_string 42 = ''42''" by code_simp
  then show ?thesis using lwip_itoa_decimal [of 4 "- 42"] lwip_itoa_decimal [of 3 "- 42"] by simp
qed

end
