(* ===== verification/Inet_Chksum.thy ===== *)
theory Inet_Chksum
  imports Lwip_Def
begin

text \<open>
  The Internet checksum of \<^verbatim>\<open>lwip/core/inet_chksum.c\<close>: the three selectable versions of
  \<^verbatim>\<open>lwip_standard_chksum\<close>, the checksum of a buffer, of a chain of buffers and of a chain with
  the IPv4 pseudo header. The specification is RFC 1071's ones' complement sum of 16-bit words.

  A buffer is the list of its bytes together with the parity (or, for version 3, the low two bits)
  of its address; a chain is the list of its buffers in order. The macro \<^verbatim>\<open>LWIP_CHKSUM\<close> that
  selects the version is a parameter of the functions that call it; the build uses version 2.
\<close>

subsection \<open>Arithmetic macros\<close>

definition FOLD_U32T :: "u32 \<Rightarrow> u32" where
  "FOLD_U32T u = drop_bit 16 u + (u AND 0x0000ffff)"

definition SWAP_BYTES_IN_WORD :: "u32 \<Rightarrow> u32" where
  "SWAP_BYTES_IN_WORD w = push_bit 8 (w AND 0xff) OR drop_bit 8 (w AND 0xff00)"

subsection \<open>The three versions of the buffer sum\<close>

text \<open>Version 1: big-endian words, one octet at a time.\<close>

fun chksum1_loop :: "u32 \<Rightarrow> bytes \<Rightarrow> u32" where
  "chksum1_loop acc (a # b # rest) = chksum1_loop (acc + ucast (le16 b a)) rest"
| "chksum1_loop acc [a] = acc + ucast (le16 0 a)"
| "chksum1_loop acc [] = acc"

definition lwip_standard_chksum1 :: "bytes \<Rightarrow> u16" where
  "lwip_standard_chksum1 data =
     (let acc = chksum1_loop 0 data;
          acc = drop_bit 16 acc + (acc AND 0x0000ffff);
          acc = (if acc AND 0xffff0000 \<noteq> 0 then drop_bit 16 acc + (acc AND 0x0000ffff) else acc)
      in lwip_htons (ucast acc))"

text \<open>Version 2: native words from the first even address. The loop returns the sum and the
  bytes it left, at most one.\<close>

fun chksum_words :: "u32 \<Rightarrow> bytes \<Rightarrow> u32 \<times> bytes" where
  "chksum_words acc (a # b # rest) = chksum_words (acc + ucast (le16 a b)) rest"
| "chksum_words acc rest = (acc, rest)"

definition lwip_standard_chksum :: "bool \<Rightarrow> bytes \<Rightarrow> u16" where
  "lwip_standard_chksum odd_addr data =
     (let (t, pb) = (case data of [] \<Rightarrow> (0, data)
                     | b # rest \<Rightarrow> if odd_addr then (le16 0 b, rest) else (0, data));
          (sum, ps) = chksum_words 0 pb;
          t = (case ps of [] \<Rightarrow> t | b # _ \<Rightarrow> le16 b (hi8 t));
          sum = sum + ucast t;
          sum = FOLD_U32T sum;
          sum = FOLD_U32T sum;
          sum = (if odd_addr then SWAP_BYTES_IN_WORD sum else sum)
      in ucast sum)"

text \<open>Version 3: native 32-bit words with the carry added back, unrolled twice.\<close>

definition add_carry :: "u32 \<Rightarrow> u32 \<Rightarrow> u32" where
  "add_carry acc x = (let tmp = acc + x in if tmp < acc then tmp + 1 else tmp)"

fun chksum3_loop :: "u32 \<Rightarrow> bytes \<Rightarrow> u32 \<times> bytes" where
  "chksum3_loop acc (a # b # c # d # e # f # g # h # rest) =
     chksum3_loop (add_carry (add_carry acc (le32 a b c d)) (le32 e f g h)) rest"
| "chksum3_loop acc rest = (acc, rest)"

definition lwip_standard_chksum3 :: "nat \<Rightarrow> bytes \<Rightarrow> u16" where
  "lwip_standard_chksum3 addr data =
     (let odd_addr = odd addr;
          (t, pb, addr) = (case data of [] \<Rightarrow> (0, data, addr)
                     | b # rest \<Rightarrow> if odd_addr then (le16 0 b, rest, Suc addr) else (0, data, addr));
          (sum, ps) = (case pb of a # b # rest \<Rightarrow>
                         if addr mod 4 \<noteq> 0 then (0 + ucast (le16 a b), rest) else (0, pb)
                       | _ \<Rightarrow> (0, pb));
          (sum, pl) = chksum3_loop sum ps;
          sum = FOLD_U32T sum;
          (sum, ps) = chksum_words sum pl;
          t = (case ps of [] \<Rightarrow> t | b # _ \<Rightarrow> le16 b (hi8 t));
          sum = sum + ucast t;
          sum = FOLD_U32T sum;
          sum = FOLD_U32T sum;
          sum = (if odd_addr then SWAP_BYTES_IN_WORD sum else sum)
      in ucast sum)"

subsection \<open>Buffers and chains\<close>

definition inet_chksum :: "(bool \<Rightarrow> bytes \<Rightarrow> u16) \<Rightarrow> bool \<Rightarrow> bytes \<Rightarrow> u16" where
  "inet_chksum LWIP_CHKSUM odd_addr data = NOT (LWIP_CHKSUM odd_addr data)"

type_synonym chain = "(bool \<times> bytes) list"

definition chain_bytes :: "chain \<Rightarrow> bytes" where
  "chain_bytes c = concat (map snd c)"

text \<open>The loop over the chain that all chain checksums share.\<close>

fun chksum_chain :: "(bool \<Rightarrow> bytes \<Rightarrow> u16) \<Rightarrow> u32 \<Rightarrow> bool \<Rightarrow> chain \<Rightarrow> u32 \<times> bool" where
  "chksum_chain LWIP_CHKSUM acc swapped [] = (acc, swapped)"
| "chksum_chain LWIP_CHKSUM acc swapped ((odd_addr, payload) # q) =
     (let acc = FOLD_U32T (acc + ucast (LWIP_CHKSUM odd_addr payload))
      in if length payload mod 2 \<noteq> 0
         then chksum_chain LWIP_CHKSUM (SWAP_BYTES_IN_WORD acc) (\<not> swapped) q
         else chksum_chain LWIP_CHKSUM acc swapped q)"

definition inet_chksum_pbuf :: "(bool \<Rightarrow> bytes \<Rightarrow> u16) \<Rightarrow> chain \<Rightarrow> u16" where
  "inet_chksum_pbuf LWIP_CHKSUM p =
     (let (acc, swapped) = chksum_chain LWIP_CHKSUM 0 False p;
          acc = (if swapped then SWAP_BYTES_IN_WORD acc else acc)
      in ucast (NOT (acc AND 0xffff)))"

definition inet_cksum_pseudo_base ::
  "(bool \<Rightarrow> bytes \<Rightarrow> u16) \<Rightarrow> chain \<Rightarrow> u8 \<Rightarrow> u16 \<Rightarrow> u32 \<Rightarrow> u16" where
  "inet_cksum_pseudo_base LWIP_CHKSUM p proto proto_len acc =
     (let (acc, swapped) = chksum_chain LWIP_CHKSUM acc False p;
          acc = (if swapped then SWAP_BYTES_IN_WORD acc else acc);
          acc = acc + ucast (lwip_htons (ucast proto));
          acc = acc + ucast (lwip_htons proto_len);
          acc = FOLD_U32T acc;
          acc = FOLD_U32T acc
      in ucast (NOT (acc AND 0xffff)))"

definition pseudo_acc :: "u32 \<Rightarrow> u32 \<Rightarrow> u32" where
  "pseudo_acc src dest =
     (let acc = src AND 0xffff;
          acc = acc + (drop_bit 16 src AND 0xffff);
          acc = acc + (dest AND 0xffff);
          acc = acc + (drop_bit 16 dest AND 0xffff)
      in FOLD_U32T (FOLD_U32T acc))"

definition inet_chksum_pseudo ::
  "(bool \<Rightarrow> bytes \<Rightarrow> u16) \<Rightarrow> chain \<Rightarrow> u8 \<Rightarrow> u16 \<Rightarrow> u32 \<Rightarrow> u32 \<Rightarrow> u16" where
  "inet_chksum_pseudo LWIP_CHKSUM p proto proto_len src dest =
     inet_cksum_pseudo_base LWIP_CHKSUM p proto proto_len (pseudo_acc src dest)"

definition ip_chksum_pseudo ::
  "(bool \<Rightarrow> bytes \<Rightarrow> u16) \<Rightarrow> chain \<Rightarrow> u8 \<Rightarrow> u16 \<Rightarrow> u32 \<Rightarrow> u32 \<Rightarrow> u16" where
  "ip_chksum_pseudo LWIP_CHKSUM p proto proto_len src dest =
     inet_chksum_pseudo LWIP_CHKSUM p proto proto_len src dest"

text \<open>The partial variants sum the first \<^verbatim>\<open>chksum_len\<close> bytes of the chain; the assertion in the
  loop aborts when \<^verbatim>\<open>0x7fff\<close> or more bytes remain after a buffer.\<close>

fun chksum_chain_partial ::
  "(bool \<Rightarrow> bytes \<Rightarrow> u16) \<Rightarrow> u32 \<Rightarrow> bool \<Rightarrow> u16 \<Rightarrow> chain \<Rightarrow> (u32 \<times> bool) option" where
  "chksum_chain_partial LWIP_CHKSUM acc swapped chksum_len [] = Some (acc, swapped)"
| "chksum_chain_partial LWIP_CHKSUM acc swapped chksum_len ((odd_addr, payload) # q) =
     (if chksum_len = 0 then Some (acc, swapped)
      else
        (let chklen = min (length payload) (unat chksum_len);
             acc = acc + ucast (LWIP_CHKSUM odd_addr (take chklen payload));
             chksum_len = chksum_len - of_nat chklen
         in if \<not> chksum_len < 0x7fff then None
            else
              (let acc = FOLD_U32T acc
               in if length payload mod 2 \<noteq> 0
                  then chksum_chain_partial LWIP_CHKSUM (SWAP_BYTES_IN_WORD acc) (\<not> swapped) chksum_len q
                  else chksum_chain_partial LWIP_CHKSUM acc swapped chksum_len q)))"

definition inet_cksum_pseudo_partial_base ::
  "(bool \<Rightarrow> bytes \<Rightarrow> u16) \<Rightarrow> chain \<Rightarrow> u8 \<Rightarrow> u16 \<Rightarrow> u16 \<Rightarrow> u32 \<Rightarrow> u16 option" where
  "inet_cksum_pseudo_partial_base LWIP_CHKSUM p proto proto_len chksum_len acc =
     do {
       (acc, swapped) \<leftarrow> chksum_chain_partial LWIP_CHKSUM acc False chksum_len p;
       let acc = (if swapped then SWAP_BYTES_IN_WORD acc else acc);
       let acc = acc + ucast (lwip_htons (ucast proto));
       let acc = acc + ucast (lwip_htons proto_len);
       let acc = FOLD_U32T acc;
       let acc = FOLD_U32T acc;
       Some (ucast (NOT (acc AND 0xffff)))
     }"

definition inet_chksum_pseudo_partial ::
  "(bool \<Rightarrow> bytes \<Rightarrow> u16) \<Rightarrow> chain \<Rightarrow> u8 \<Rightarrow> u16 \<Rightarrow> u16 \<Rightarrow> u32 \<Rightarrow> u32 \<Rightarrow> u16 option" where
  "inet_chksum_pseudo_partial LWIP_CHKSUM p proto proto_len chksum_len src dest =
     inet_cksum_pseudo_partial_base LWIP_CHKSUM p proto proto_len chksum_len (pseudo_acc src dest)"

definition ip_chksum_pseudo_partial ::
  "(bool \<Rightarrow> bytes \<Rightarrow> u16) \<Rightarrow> chain \<Rightarrow> u8 \<Rightarrow> u16 \<Rightarrow> u16 \<Rightarrow> u32 \<Rightarrow> u32 \<Rightarrow> u16 option" where
  "ip_chksum_pseudo_partial LWIP_CHKSUM p proto proto_len chksum_len src dest =
     inet_chksum_pseudo_partial LWIP_CHKSUM p proto proto_len chksum_len src dest"

subsection \<open>Specification: the ones' complement sum\<close>

text \<open>\<open>ocsum\<close> adds the little-endian words of a byte sequence, a last odd byte padded with zero;
  \<open>fold16\<close> is the representative in \<open>0..65535\<close> that end-around carries reach.\<close>

fun ocsum :: "bytes \<Rightarrow> nat" where
  "ocsum [] = 0"
| "ocsum [a] = unat a"
| "ocsum (a # b # rest) = unat a + 256 * unat b + ocsum rest"

definition fold16 :: "nat \<Rightarrow> nat" where
  "fold16 n = (if n = 0 then 0 else (n - 1) mod 65535 + 1)"

subsection \<open>Ones' complement arithmetic\<close>

text \<open>Numbers with the same end-around-carry representative.\<close>

definition oceq :: "nat \<Rightarrow> nat \<Rightarrow> bool" where
  "oceq a b \<longleftrightarrow> a mod 65535 = b mod 65535 \<and> (a = 0 \<longleftrightarrow> b = 0)"

lemma oceq_refl [simp]: "oceq a a"
  by (simp add: oceq_def)

lemma oceq_sym: "oceq a b \<Longrightarrow> oceq b a"
  by (simp add: oceq_def)

lemma oceq_trans [trans]: "oceq a b \<Longrightarrow> oceq b c \<Longrightarrow> oceq a c"
  by (simp add: oceq_def)

lemma oceq_add: "oceq a b \<Longrightarrow> oceq c d \<Longrightarrow> oceq (a + c) (b + d)"
  unfolding oceq_def by (metis mod_add_cong add_is_0)

lemma oceq_mult: "oceq a b \<Longrightarrow> oceq (k * a) (k * b)"
  unfolding oceq_def by (metis mod_mult_cong mult_is_0)

lemma oceq_65536: "oceq (65536 * a) a"
proof -
  have "65536 * a = a + 65535 * a" by simp
  then show ?thesis by (simp only: oceq_def mod_mult_self2) simp
qed

lemma oceq_fold: "oceq (n div 65536 + n mod 65536) n"
proof -
  have "oceq (n div 65536 + n mod 65536) (65536 * (n div 65536) + n mod 65536)"
    by (intro oceq_add oceq_refl oceq_sym [OF oceq_65536])
  then show ?thesis by simp
qed

lemma oceq_swap: "oceq (256 * (n mod 256) + n div 256) (256 * n)"
proof -
  have "oceq (256 * (n mod 256) + n div 256) (256 * (n mod 256) + 65536 * (n div 256))"
    by (intro oceq_add oceq_refl oceq_sym [OF oceq_65536])
  also have "256 * (n mod 256) + 65536 * (n div 256) = 256 * n"
    using mult_div_mod_eq [of 256 n] by linarith
  finally show ?thesis .
qed

lemma fold16_le: "fold16 n \<le> 65535"
  by (simp add: fold16_def Suc_le_eq)

lemma oceq_fold16: "oceq (fold16 n) n"
  by (cases n) (auto simp: oceq_def fold16_def mod_Suc_eq)

lemma fold16_unique:
  assumes "oceq r n" and "r \<le> 65535"
  shows "r = fold16 n"
proof -
  have "oceq r (fold16 n)"
    using assms(1) oceq_fold16 oceq_sym oceq_trans by blast
  then have c: "r mod 65535 = fold16 n mod 65535" "r = 0 \<longleftrightarrow> fold16 n = 0"
    by (auto simp: oceq_def)
  show ?thesis
    using c assms(2) fold16_le [of n] by (cases "r = 65535"; cases "fold16 n = 65535") auto
qed
lemma fold16_cong: "oceq a b \<Longrightarrow> fold16 a = fold16 b"
  using fold16_unique[of "fold16 a" b] fold16_le oceq_fold16 oceq_trans by blast

lemma and_ffff: "unat (u AND 0xffff :: u32) = unat u mod 65536"
proof -
  have "u AND 0xffff = take_bit 16 u" by (simp add: take_bit_eq_mask mask_eq_exp_minus_1)
  then show ?thesis by (simp only: unsigned_take_bit_eq) (simp add: take_bit_eq_mod)
qed
lemma unat_FOLD: "unat (FOLD_U32T u) = unat u div 65536 + unat u mod 65536"
proof -
  have "take_bit 32 (unat u) = unat u"
    by (simp add: take_bit_nat_eq_self_iff unat_u32_lt)
  then have "unat (drop_bit 16 u) = unat u div 65536"
    by (simp only: unsigned_drop_bit_eq) (simp add: drop_bit_eq_div)
  moreover have "unat u div 65536 + unat u mod 65536 < 4294967296"
    using unat_u32_lt [of u] mod_less_divisor [of 65536 "unat u"] by linarith
  ultimately show ?thesis by (simp add: FOLD_U32T_def unat_word_ariths and_ffff)
qed


lemma SWAP_le16: "SWAP_BYTES_IN_WORD (ucast (le16 a b)) = ucast (le16 b a)"
proof (rule bit_word_eqI)
  fix n assume "n < LENGTH(32)"
  then consider "n < 8" | "8 \<le> n" "n < 16" | "16 \<le> n" "n < 32" by force
  then show "bit (SWAP_BYTES_IN_WORD (ucast (le16 a b))) n = bit (ucast (le16 b a) :: u32) n"
    by cases (auto simp add: SWAP_BYTES_IN_WORD_def le16_def mask_bytes32 bit_simps u8_bit_ge less_diff_conv2)
qed
lemma u32_small_cases: 
  assumes "unat (w :: u32) \<le> 65535" obtains a b where "w = ucast (le16 a b)" "unat w = unat a + 256 * unat b"
proof -
  define v :: u16 where "v = ucast w"
  have "unat v = unat w" using assms
    unfolding v_def by (simp add: unsigned_ucast_eq take_bit_nat_eq_self_iff)
  then have "unat (ucast v :: u32) = unat w" by (simp add: word_nat)
  then have "w = ucast v" by (simp add: word_unat_eq_iff)
  moreover have "v = le16 (lo8 v) (hi8 v)" by simp
  ultimately show thesis using that [of "lo8 v" "hi8 v"] unat_le16[of "lo8 v" "hi8 v"] \<open>unat v = unat w\<close> by simp
qed
lemma unat_SWAP:
  assumes "unat w \<le> 65535"
  shows "unat (SWAP_BYTES_IN_WORD w) = 256 * (unat w mod 256) + unat w div 256"
  using assms
proof (cases rule: u32_small_cases)
  case (1 a b)
  then show ?thesis
    using unat_u8_lt [of a] by (simp add: SWAP_le16 word_nat)
qed
lemma chksum_words_ocsum:
  assumes "chksum_words s xs = (s', r)" and "unat s + 65535 * (length xs div 2) < 4294967296"
  shows "unat s' + ocsum r = unat s + ocsum xs \<and> length r = length xs mod 2"
  using assms
proof (induction s xs arbitrary: s' r rule: chksum_words.induct)
  case (1 s a b rest)
  have "unat (s + ucast (le16 a b)) = unat s + (unat a + 256 * unat b)"
    using "1.prems"(2) unat_u16_le [of "le16 a b"] by (subst unat_add_u32) (auto simp: word_nat)
  moreover have "unat a + 256 * unat b \<le> 65535"
    using unat_u16_le [of "le16 a b"] by (simp add: word_nat)
  ultimately show ?case using 1 by simp
qed auto

lemma fold2: 
  fixes u :: u32
  shows "unat (FOLD_U32T (FOLD_U32T u)) = fold16 (unat u)"
proof (rule fold16_unique)
  show "oceq (unat (FOLD_U32T (FOLD_U32T u))) (unat u)"
    unfolding unat_FOLD by (rule oceq_trans [OF oceq_fold oceq_fold])
  have "unat u div 65536 \<le> 65535" using unat_u32_lt [of u] by linarith
  moreover have "x \<le> 131070 \<Longrightarrow> x div 65536 + x mod 65536 \<le> 65535" for x :: nat
    by (cases "x < 65536") (auto simp: mod_if div_if)
  ultimately show "unat (FOLD_U32T (FOLD_U32T u)) \<le> 65535"
    unfolding unat_FOLD using mod_less_divisor [of 65536 "unat u"] by auto
qed

lemma ocsum_zero_hd: "oceq (256 * unat b + ocsum xs) (256 * ocsum (b # xs))"
proof (induction xs arbitrary: b rule: ocsum.induct)
  case 1
  then show ?case by simp
next
  case (2 a)
  have "oceq (256 * unat b + unat a) (256 * unat b + 65536 * unat a)"
    by (intro oceq_add oceq_refl oceq_sym [OF oceq_65536])
  then show ?case by (simp add: distrib_left add.assoc)
next
  case (3 a c rest)
  have "oceq (256 * unat b + (unat a + (256 * unat c + ocsum rest))) (256 * unat b + (65536 * unat a + 256 * ocsum (c # rest)))"
    by (intro oceq_add oceq_refl oceq_sym [OF oceq_65536] 3)
  then show ?case by (simp add: distrib_left add.assoc)
qed
lemma ocsum_append_even: "even (length xs) \<Longrightarrow> ocsum (xs @ ys) = ocsum xs + ocsum ys"
  by (induction xs rule: ocsum.induct) auto

lemma ocsum_Cons_256: "oceq (ocsum (b # xs)) (unat b + 256 * ocsum xs)"
proof -
  have "oceq (ocsum (b # xs)) (256 * (256 * ocsum (b # xs)))"
    using oceq_sym [OF oceq_65536, of "ocsum (b # xs)"] by simp
  also have "oceq \<dots> (256 * (256 * unat b + ocsum xs))" by (intro oceq_mult oceq_sym [OF ocsum_zero_hd])
  also have "\<dots> = 65536 * unat b + 256 * ocsum xs" by simp
  also have "oceq \<dots> (unat b + 256 * ocsum xs)" by (intro oceq_add oceq_refl oceq_65536)
  finally show ?thesis .
qed

lemma ocsum_append_odd: "odd (length xs) \<Longrightarrow> oceq (ocsum (xs @ ys)) (ocsum xs + 256 * ocsum ys)"
proof (induction xs rule: ocsum.induct)
  case (2 a)
  then show ?case by (simp add: ocsum_Cons_256)
next
  case (3 a b rest)
  then have "oceq (unat a + 256 * unat b + ocsum (rest @ ys))
      (unat a + 256 * unat b + (ocsum rest + 256 * ocsum ys))"
    by (intro oceq_add oceq_refl) simp
  then show ?case by (simp add: add.assoc)
qed simp

subsection \<open>The versions meet the specification\<close>

lemma ocsum_le: "ocsum xs \<le> 65535 * (length xs div 2) + 255 * (length xs mod 2)"
proof (induction xs rule: ocsum.induct)
  case (3 a b rest)
  then show ?case using unat_u8_le [of a] unat_u8_le [of b] by simp
qed (simp_all add: unat_u8_le)

text \<open>What version 2 and version 3 do once the words are added: the leftover byte, the head byte,
  two folds and the swap.\<close>

lemma chksum_finish:
  assumes "length ps \<le> 1" and "unat acc + ocsum ps + 256 * unat b < 4294967296"
  shows "unat (FOLD_U32T (FOLD_U32T (acc + ucast (case ps of [] \<Rightarrow> le16 0 b | c # _ \<Rightarrow> le16 c b))))
       = fold16 (unat acc + ocsum ps + 256 * unat b)"
proof -
  have "unat (case ps of [] \<Rightarrow> le16 0 b | c # _ \<Rightarrow> le16 c b) = ocsum ps + 256 * unat b"
    using assms(1) by (cases ps) (auto simp: word_nat)
  then show ?thesis
    using assms(2) by (simp add: fold2 unat_add_u32 word_nat add.assoc)
qed

lemma ucast_swap_fold:
  assumes "unat u = fold16 (256 * n)"
  shows "unat (ucast (SWAP_BYTES_IN_WORD u) :: u16) = fold16 n"
proof -
  have le: "unat u \<le> 65535" using assms fold16_le by simp
  then have le': "unat (SWAP_BYTES_IN_WORD u) \<le> 65535"
    by (subst unat_SWAP) linarith+
  have "oceq (unat (SWAP_BYTES_IN_WORD u)) (256 * unat u)"
    using le by (simp add: unat_SWAP oceq_swap)
  also have "oceq \<dots> (256 * (256 * n))"
    unfolding assms by (intro oceq_mult oceq_fold16)
  also have "256 * (256 * n) = 65536 * n" by simp
  also have "oceq \<dots> n" by (rule oceq_65536)
  finally have "unat (SWAP_BYTES_IN_WORD u) = fold16 n"
    using le' by (rule fold16_unique)
  then show ?thesis
    using le' by (simp add: unsigned_ucast_eq take_bit_nat_eq_self_iff)
qed

lemma ucast_fold:
  assumes "unat u = fold16 n" shows "unat (ucast (u :: u32) :: u16) = fold16 n"
  using assms fold16_le [of n] by (simp add: unsigned_ucast_eq take_bit_nat_eq_self_iff)

lemma lwip_standard_chksum_spec:
  assumes "length data \<le> 0x20000"
  shows "unat (lwip_standard_chksum odd_addr data) = fold16 (ocsum data)"
proof (cases "odd_addr \<and> data \<noteq> []")
  case False
  obtain s ps where w: "chksum_words 0 data = (s, ps)" by fastforce
  have c: "unat s + ocsum ps = ocsum data \<and> length ps = length data mod 2"
    using chksum_words_ocsum [OF w] assms by simp
  have "ocsum data < 4294967296"
    using ocsum_le [of data] assms by linarith
  with c have *: "unat (FOLD_U32T (FOLD_U32T (s + ucast (case ps of [] \<Rightarrow> le16 0 0 | c # _ \<Rightarrow> le16 c 0))))
      = fold16 (ocsum data)"
    using chksum_finish [of ps s 0] by simp
  have z: "le16 0 0 = 0" "hi8 0 = 0" by (simp_all add: le16_def hi8_def)
  show ?thesis
  proof (cases data)
    case Nil
    then show ?thesis by (simp add: lwip_standard_chksum_def FOLD_U32T_def SWAP_BYTES_IN_WORD_def fold16_def)
  next
    case (Cons b rest)
    with False have "\<not> odd_addr" by simp
    with Cons w have "lwip_standard_chksum odd_addr data =
        ucast (FOLD_U32T (FOLD_U32T (s + ucast (case ps of [] \<Rightarrow> le16 0 0 | c # _ \<Rightarrow> le16 c 0))))"
      by (cases ps) (simp_all add: lwip_standard_chksum_def z)
    with ucast_fold [OF *] show ?thesis by simp
  qed
next
  case True
  then obtain b rest where d: "data = b # rest" by (cases data) auto
  obtain s ps where w: "chksum_words 0 rest = (s, ps)" by fastforce
  have c: "unat s + ocsum ps = ocsum rest \<and> length ps = length rest mod 2"
    using chksum_words_ocsum [OF w] assms d by simp
  have "length rest \<le> 131071" using assms d by simp
  then have "ocsum rest + 256 * unat b < 4294967296"
    using ocsum_le [of rest] unat_u8_le [of b] by linarith
  with c have "unat (FOLD_U32T (FOLD_U32T (s + ucast (case ps of [] \<Rightarrow> le16 0 b | c # _ \<Rightarrow> le16 c b))))
      = fold16 (ocsum rest + 256 * unat b)"
    using chksum_finish [of ps s b] by simp
  also have "\<dots> = fold16 (256 * ocsum data)"
    unfolding d by (intro fold16_cong) (metis ocsum_zero_hd add.commute)
  finally have "unat (ucast (SWAP_BYTES_IN_WORD (FOLD_U32T (FOLD_U32T
      (s + ucast (case ps of [] \<Rightarrow> le16 0 b | c # _ \<Rightarrow> le16 c b))))) :: u16) = fold16 (ocsum data)"
    by (rule ucast_swap_fold)
  then show ?thesis
    using True d w by (cases ps) (simp_all add: lwip_standard_chksum_def)
qed


subsection \<open>Versions 1 and 3\<close>

lemma chksum1_loop_ocsum:
  assumes "unat acc + 65535 * ((length xs + 1) div 2) < 4294967296"
  shows "\<exists>n. unat (chksum1_loop acc xs) = unat acc + n \<and> oceq (256 * n) (ocsum xs)"
  using assms
proof (induction acc xs rule: chksum1_loop.induct)
  case (1 acc a b rest)
  have w: "unat (acc + ucast (le16 b a)) = unat acc + (unat b + 256 * unat a)"
    using "1.prems" unat_u16_le [of "le16 b a"] by (subst unat_add_u32) (auto simp: word_nat)
  have "unat b + 256 * unat a \<le> 65535"
    using unat_u16_le [of "le16 b a"] by (simp add: word_nat)
  with 1 w obtain n where n: "unat (chksum1_loop (acc + ucast (le16 b a)) rest) =
      unat acc + (unat b + 256 * unat a) + n" "oceq (256 * n) (ocsum rest)"
    by auto
  have "oceq (65536 * unat a + 256 * unat b + 256 * n) (unat a + 256 * unat b + ocsum rest)"
    by (intro oceq_add oceq_65536 oceq_refl n(2))
  then show ?case using n(1) by (intro exI [of _ "unat b + 256 * unat a + n"]) (simp add: distrib_left add_ac)
next
  case (2 acc a)
  have "unat (acc + ucast (le16 0 a)) = unat acc + 256 * unat a"
    using "2.prems" unat_u16_le [of "le16 0 a"] by (subst unat_add_u32) (auto simp: word_nat)
  then show ?case using oceq_65536 [of "unat a"] by (intro exI [of _ "256 * unat a"]) simp
qed simp

lemma lwip_htons_fold:
  assumes "unat u = fold16 n" "oceq (256 * n) m"
  shows "unat (lwip_htons (ucast (u :: u32))) = fold16 m"
proof -
  define v :: u16 where "v = ucast u"
  have v: "unat v = fold16 n" unfolding v_def by (rule ucast_fold [OF assms(1)])
  have lh: "unat v = unat (lo8 v) + 256 * unat (hi8 v)" using unat_le16 [of "lo8 v" "hi8 v"] by simp
  have "oceq (unat (lwip_htons v)) (256 * unat v)"
    unfolding lwip_htons_bytes lh unat_le16 using oceq_add [OF oceq_sym [OF oceq_65536], of "256 * unat (lo8 v)" "256 * unat (lo8 v)" "unat (hi8 v)"] by (simp add: distrib_left add_ac)
  also have "oceq \<dots> (256 * n)" unfolding v by (intro oceq_mult oceq_fold16)
  also note assms(2)
  finally show ?thesis using unat_u16_le unfolding v_def by (rule fold16_unique)
qed

lemma fold_if: "(if u AND 0xffff0000 \<noteq> 0 then drop_bit 16 u + (u AND 0xffff) else u) = FOLD_U32T u"
proof (cases "u AND 0xffff0000 = 0")
  case True
  have m: "(0xffff0000 :: u32) = push_bit 16 (mask 16)" "(0xffff :: u32) = mask 16"
    by (simp_all add: mask_eq_exp_minus_1 push_bit_eq_mult)
  have hi: "\<not> bit u n" if "16 \<le> n" for n
  proof (cases "n < 32")
    case True
    have "\<not> bit (u AND 0xffff0000) n" using \<open>u AND 0xffff0000 = 0\<close> by simp
    with True that show ?thesis
      unfolding m by (simp add: bit_simps less_diff_conv2)
  qed (auto dest: bit_imp_le_length)
  have "drop_bit 16 u = 0" "u AND 0xffff = u"
    unfolding m by (rule bit_word_eqI, auto simp: bit_simps hi intro: ccontr)+
  with True show ?thesis by (simp add: FOLD_U32T_def)
qed (simp add: FOLD_U32T_def)

lemma lwip_standard_chksum1_spec:
  assumes "length data \<le> 0x20000"
  shows "unat (lwip_standard_chksum1 data) = fold16 (ocsum data)"
proof -
  obtain n where n: "unat (chksum1_loop 0 data) = n" "oceq (256 * n) (ocsum data)"
    using chksum1_loop_ocsum [of 0 data] assms by auto
  have "lwip_standard_chksum1 data = lwip_htons (ucast (FOLD_U32T (FOLD_U32T (chksum1_loop 0 data))))"
    by (simp only: lwip_standard_chksum1_def Let_def fold_if) (simp add: FOLD_U32T_def)
  moreover have "unat (FOLD_U32T (FOLD_U32T (chksum1_loop 0 data))) = fold16 n"
    by (simp add: fold2 n(1))
  ultimately show ?thesis using lwip_htons_fold n(2) by simp
qed

lemma add_carry_oceq: "oceq (unat (add_carry s x)) (unat s + unat x)"
proof (cases "unat s + unat x < 4294967296")
  case True
  then have "unat (s + x) = unat s + unat x" by (rule unat_add_u32)
  then show ?thesis by (simp add: add_carry_def word_less_nat_alt)
next
  case False
  then have u: "unat (s + x) + 4294967296 = unat s + unat x"
    using unat_u32_lt [of s] unat_u32_lt [of x] by (simp add: unat_word_ariths le_mod_geq)
  then have lt: "unat (s + x) < unat s" using unat_u32_lt [of x] by linarith
  have "unat (s + x + 1) = unat (s + x) + 1"
    using u unat_u32_lt [of s] unat_u32_lt [of x] by (subst unat_add_u32) auto
  then have "unat (add_carry s x) + 65535 * 65537 = unat s + unat x"
    using u lt by (simp add: add_carry_def word_less_nat_alt)
  moreover have "unat (add_carry s x) \<noteq> 0"
    using \<open>unat (s + x + 1) = unat (s + x) + 1\<close> lt by (simp add: add_carry_def word_less_nat_alt)
  ultimately show ?thesis
    unfolding oceq_def by (metis mod_mult_self2 add_is_0 mult.commute)
qed

lemma chksum3_loop_ocsum:
  "chksum3_loop s xs = (s', r) \<Longrightarrow> oceq (unat s' + ocsum r) (unat s + ocsum xs) \<and> length r < 8"
proof (induction s xs arbitrary: s' r rule: chksum3_loop.induct)
  case (1 s a b c d e f g h rest)
  have w: "oceq (unat (le32 a b c d)) (unat a + 256 * unat b + (unat c + 256 * unat d))" for a b c d
    using oceq_add [OF oceq_refl oceq_65536 , of "unat a + 256 * unat b" "unat c + 256 * unat d"]
    by (simp add: unat_le32 distrib_left add.assoc)
  let ?s = "add_carry (add_carry s (le32 a b c d)) (le32 e f g h)"
  have "oceq (unat ?s) (unat (add_carry s (le32 a b c d)) + unat (le32 e f g h))" by (rule add_carry_oceq)
  also have "oceq \<dots> ((unat s + unat (le32 a b c d)) + unat (le32 e f g h))" by (intro oceq_add oceq_refl add_carry_oceq)
  also have "oceq \<dots> (unat s + (unat a + 256 * unat b + (unat c + 256 * unat d)) + (unat e + 256 * unat f + (unat g + 256 * unat h)))"
    by (intro oceq_add oceq_refl w)
  finally have "oceq (unat ?s + ocsum rest) (unat s + ocsum (a # b # c # d # e # f # g # h # rest))"
    using oceq_add [OF _ oceq_refl, of _ _ "ocsum rest"] by (fastforce simp: add_ac)
  then show ?case using 1 oceq_trans by auto
qed auto

text \<open>Everything version 3 does after the head byte, for head byte \<open>b\<close> (zero if there is none).\<close>

definition chksum3_tail :: "u8 \<Rightarrow> bytes \<Rightarrow> nat \<Rightarrow> u32" where
  "chksum3_tail b pb addr =
    (let (s, ps) = (case pb of a # b # rest \<Rightarrow>
                      if addr mod 4 \<noteq> 0 then (0 + ucast (le16 a b), rest) else (0, pb)
                    | _ \<Rightarrow> (0, pb));
         (s, pl) = chksum3_loop s ps;
         (s, ps) = chksum_words (FOLD_U32T s) pl
     in FOLD_U32T (FOLD_U32T (s + ucast (case ps of [] \<Rightarrow> le16 0 b | c # _ \<Rightarrow> le16 c b))))"

lemma chksum3_tail_spec: "unat (chksum3_tail b pb addr) = fold16 (ocsum pb + 256 * unat b)"
proof -
  obtain s0 ps0 where h: "(case pb of a # b # rest \<Rightarrow>
        if addr mod 4 \<noteq> 0 then (0 + ucast (le16 a b) :: u32, rest) else (0, pb) | _ \<Rightarrow> (0, pb)) = (s0, ps0)"
    by fastforce
  then have s0: "unat s0 + ocsum ps0 = ocsum pb"
    by (auto simp: word_nat split: list.splits if_splits)
  obtain s1 pl where l: "chksum3_loop s0 ps0 = (s1, pl)" by fastforce
  have s1: "oceq (unat s1 + ocsum pl) (ocsum pb)" "length pl < 8"
    using chksum3_loop_ocsum [OF l] s0 by auto
  obtain s2 ps where w: "chksum_words (FOLD_U32T s1) pl = (s2, ps)" by fastforce
  have f: "unat (FOLD_U32T s1) \<le> 131070"
    using unat_u32_lt [of s1] mod_less_divisor [of 65536 "unat s1"] unfolding unat_FOLD by linarith
  have len: "length pl div 2 \<le> 3" "length pl mod 2 \<le> 1" using s1(2) by auto
  have s2: "unat s2 + ocsum ps = unat (FOLD_U32T s1) + ocsum pl \<and> length ps = length pl mod 2"
    using chksum_words_ocsum [OF w] f len by linarith
  have "ocsum pl \<le> 65535 * 3 + 255" using ocsum_le [of pl] len by linarith
  then have b: "unat s2 + ocsum ps + 256 * unat b < 4294967296"
    using s2 f unat_u8_le [of b] by linarith
  have "oceq (unat (FOLD_U32T s1) + ocsum pl) (unat s1 + ocsum pl)"
    unfolding unat_FOLD by (intro oceq_add oceq_fold oceq_refl)
  also note s1(1)
  finally have "oceq (unat s2 + ocsum ps) (ocsum pb)" using s2 by simp
  then have "fold16 (unat s2 + ocsum ps + 256 * unat b) = fold16 (ocsum pb + 256 * unat b)"
    by (intro fold16_cong oceq_add oceq_refl)
  then show ?thesis
    using chksum_finish [OF _ b] s2 by (simp add: chksum3_tail_def h l w)
qed

lemma lwip_standard_chksum3_spec:
  "unat (lwip_standard_chksum3 addr data) = fold16 (ocsum data)"
proof (cases "odd addr \<and> data \<noteq> []")
  case True
  then obtain b rest where d: "data = b # rest" by (cases data) auto
  have "unat (chksum3_tail b rest (Suc addr)) = fold16 (256 * ocsum data)"
    unfolding chksum3_tail_spec d by (intro fold16_cong) (metis ocsum_zero_hd add.commute)
  moreover have "lwip_standard_chksum3 addr data = ucast (SWAP_BYTES_IN_WORD (chksum3_tail b rest (Suc addr)))"
    using True unfolding d lwip_standard_chksum3_def chksum3_tail_def
    by (auto simp: Let_def split: prod.splits list.splits)
  ultimately show ?thesis using ucast_swap_fold by simp
next
  case False
  have z: "le16 0 0 = 0" "hi8 0 = 0" by (simp_all add: le16_def hi8_def)
  have "lwip_standard_chksum3 addr data =
      ucast (if odd addr then SWAP_BYTES_IN_WORD (chksum3_tail 0 data addr) else chksum3_tail 0 data addr)"
    using False unfolding lwip_standard_chksum3_def chksum3_tail_def
    by (auto simp: Let_def z split: prod.splits list.splits)
  moreover have "unat (chksum3_tail 0 data addr) = fold16 (ocsum data)"
    using chksum3_tail_spec [of 0] by simp
  ultimately show ?thesis
    using ucast_fold ucast_swap_fold False by (cases "odd addr") (auto simp: fold16_def)
qed

subsection \<open>Chains, for every correct version\<close>

text \<open>What the chain functions rely on: \<^verbatim>\<open>LWIP_CHKSUM\<close> returns the folded sum of any buffer a pbuf
  can hold. The running sum of a chain stands for the sum \<open>m\<close> it was started with plus the sum of
  the bytes \<open>bs\<close> seen so far, times 256 while an odd number of bytes has been seen.\<close>

definition swap_scale :: "bool \<Rightarrow> nat \<Rightarrow> nat" where
  "swap_scale swapped n = (if swapped then 256 * n else n)"

definition chain_inv :: "nat \<Rightarrow> u32 \<Rightarrow> bool \<Rightarrow> bytes \<Rightarrow> bool" where
  "chain_inv m acc swapped bs \<longleftrightarrow> unat acc \<le> 65535 \<and> swapped = odd (length bs) \<and>
     oceq (unat acc) (swap_scale swapped (m + ocsum bs))"

definition short_bufs :: "chain \<Rightarrow> bool" where
  "short_bufs c \<longleftrightarrow> (\<forall>(a, d) \<in> set c. length d \<le> 65535)"

lemma swap_scale_256: "oceq (256 * swap_scale sw n) (swap_scale (\<not> sw) n)"
  using oceq_65536 [of n] by (simp add: swap_scale_def)

lemma swap_scale_add:
  assumes "sw = odd (length bs)"
  shows "oceq (swap_scale sw (m + ocsum bs) + ocsum d) (swap_scale sw (m + ocsum (bs @ d)))"
proof (cases sw)
  case True
  have "oceq (256 * (m + ocsum bs) + ocsum d) (256 * (m + ocsum bs) + 65536 * ocsum d)"
    by (intro oceq_add oceq_refl oceq_sym [OF oceq_65536])
  also have "256 * (m + ocsum bs) + 65536 * ocsum d = 256 * (m + (ocsum bs + 256 * ocsum d))"
    by simp
  also have "oceq \<dots> (256 * (m + ocsum (bs @ d)))"
    using True assms by (intro oceq_mult oceq_add oceq_refl oceq_sym [OF ocsum_append_odd]) simp
  finally show ?thesis using True by (simp add: swap_scale_def)
next
  case False
  then show ?thesis using assms by (simp add: swap_scale_def ocsum_append_even add.assoc)
qed

lemma SWAP_oceq:
  assumes "unat w \<le> 65535"
  shows "oceq (unat (SWAP_BYTES_IN_WORD w)) (256 * unat w)" "unat (SWAP_BYTES_IN_WORD w) \<le> 65535"
proof -
  show "oceq (unat (SWAP_BYTES_IN_WORD w)) (256 * unat w)"
    using assms by (simp add: unat_SWAP oceq_swap)
  have "256 * (unat w mod 256) + unat w div 256 \<le> 65535"
    using assms mod_less_divisor [of 256 "unat w"] by linarith
  then show "unat (SWAP_BYTES_IN_WORD w) \<le> 65535"
    using assms by (simp add: unat_SWAP)
qed

text \<open>Swapping toggles the scale, and undoing the last swap leaves the folded sum.\<close>

lemma swap_toggle:
  assumes "unat acc \<le> 65535" and "oceq (unat acc) (swap_scale sw n)"
  shows "oceq (unat (SWAP_BYTES_IN_WORD acc)) (swap_scale (\<not> sw) n)"
  by (rule oceq_trans [OF SWAP_oceq(1) [OF assms(1)]
        oceq_trans [OF oceq_mult [OF assms(2)] swap_scale_256]])

lemma unswap:
  assumes "unat acc \<le> 65535" and "oceq (unat acc) (swap_scale sw n)"
  shows "unat (if sw then SWAP_BYTES_IN_WORD acc else acc) = fold16 n"
  using fold16_unique [of "unat (SWAP_BYTES_IN_WORD acc)" n] fold16_unique [of "unat acc" n]
    swap_toggle [OF assms] SWAP_oceq(2) [OF assms(1)] assms
  by (cases sw) (simp_all add: swap_scale_def)

lemma FOLD_le: "unat u \<le> 131070 \<Longrightarrow> unat (FOLD_U32T u) \<le> 65535"
  unfolding unat_FOLD by (cases "unat u < 65536") (auto simp: mod_if div_if)

locale chksum_algorithm =
  fixes LWIP_CHKSUM :: "bool \<Rightarrow> bytes \<Rightarrow> u16"
  assumes chksum_sum: "length data \<le> 65535 \<Longrightarrow> unat (LWIP_CHKSUM odd_addr data) = fold16 (ocsum data)"
begin

lemma chain_inv_fold:
  assumes "chain_inv m acc swapped bs" and "length d \<le> 65535"
  shows "unat (FOLD_U32T (acc + ucast (LWIP_CHKSUM a d))) \<le> 65535"
    and "oceq (unat (FOLD_U32T (acc + ucast (LWIP_CHKSUM a d)))) (swap_scale swapped (m + ocsum (bs @ d)))"
proof -
  have u: "unat (acc + ucast (LWIP_CHKSUM a d)) = unat acc + fold16 (ocsum d)"
    using assms chksum_sum [of d a] fold16_le [of "ocsum d"]
    by (subst unat_add_u32) (auto simp: word_nat chain_inv_def)
  then show "unat (FOLD_U32T (acc + ucast (LWIP_CHKSUM a d))) \<le> 65535"
    using assms fold16_le [of "ocsum d"] by (intro FOLD_le) (simp add: chain_inv_def)
  have "oceq (unat (FOLD_U32T (acc + ucast (LWIP_CHKSUM a d)))) (unat acc + fold16 (ocsum d))"
    unfolding unat_FOLD u by (rule oceq_fold)
  also have "oceq \<dots> (swap_scale swapped (m + ocsum bs) + ocsum d)"
    using assms(1) unfolding chain_inv_def by (intro oceq_add oceq_fold16) (elim conjE)
  also have "oceq \<dots> (swap_scale swapped (m + ocsum (bs @ d)))"
    using assms by (intro swap_scale_add) (simp add: chain_inv_def)
  finally show "oceq (unat (FOLD_U32T (acc + ucast (LWIP_CHKSUM a d))))
    (swap_scale swapped (m + ocsum (bs @ d)))" .
qed

lemma chain_inv_step:
  assumes "chain_inv m acc swapped bs" and "length d \<le> 65535"
    and "acc1 = FOLD_U32T (acc + ucast (LWIP_CHKSUM a d))"
  shows "even (length d) \<Longrightarrow> chain_inv m acc1 swapped (bs @ d)"
    and "odd (length d) \<Longrightarrow> chain_inv m (SWAP_BYTES_IN_WORD acc1) (\<not> swapped) (bs @ d)"
proof -
  note f = chain_inv_fold [OF assms(1,2), of a, folded assms(3)]
  show "even (length d) \<Longrightarrow> chain_inv m acc1 swapped (bs @ d)"
    using assms(1) f by (simp add: chain_inv_def)
  show "odd (length d) \<Longrightarrow> chain_inv m (SWAP_BYTES_IN_WORD acc1) (\<not> swapped) (bs @ d)"
    using assms(1) SWAP_oceq(2) [OF f(1)] swap_toggle [OF f] by (auto simp: chain_inv_def)
qed

lemma chksum_chain_inv:
  "chain_inv m acc swapped bs \<Longrightarrow> short_bufs c \<Longrightarrow>
   chksum_chain LWIP_CHKSUM acc swapped c = (acc', swapped') \<Longrightarrow>
   chain_inv m acc' swapped' (bs @ chain_bytes c)"
proof (induction c arbitrary: acc swapped bs)
  case Nil
  then show ?case by (simp add: chain_bytes_def)
next
  case (Cons x c)
  obtain a d where x: "x = (a, d)" by (cases x)
  have d: "length d \<le> 65535" "short_bufs c"
    using Cons.prems(2) x by (auto simp: short_bufs_def)
  note st = chain_inv_step [OF Cons.prems(1) d(1) refl, of a]
  show ?case
  proof (cases "even (length d)")
    case True
    then show ?thesis
      using Cons.IH [OF st(1) d(2)] Cons.prems(3) x by (simp add: Let_def chain_bytes_def)
  next
    case False
    then show ?thesis
      using Cons.IH [OF st(2) d(2)] Cons.prems(3) x
      by (simp add: Let_def chain_bytes_def odd_iff_mod_2_eq_one)
  qed
qed

lemma chain_inv_unswap:
  "chain_inv m acc swapped bs \<Longrightarrow>
   unat (if swapped then SWAP_BYTES_IN_WORD acc else acc) = fold16 (m + ocsum bs)"
  unfolding chain_inv_def by (elim conjE) (rule unswap)

end

subsection \<open>Pseudo header and verification\<close>

definition pseudo_header :: "u32 \<Rightarrow> u32 \<Rightarrow> u8 \<Rightarrow> u16 \<Rightarrow> bytes" where
  "pseudo_header src dest proto len =
     bytes_of32 src @ bytes_of32 dest @ [0, proto, hi8 len, lo8 len]"

lemma unat_NOT_u16 [word_nat]: "unat (NOT (w :: u16)) = 65535 - unat w"
proof -
  have "NOT w = - 1 - w" by (simp add: not_eq_complement)
  also have "unat (- 1 - w) = unat (- 1 :: u16) - unat w"
    using unat_u16_le [of w]
    by (intro unat_sub_le) (simp add: unsigned_minus_1_eq_mask mask_eq_exp_minus_1)
  finally show ?thesis by (simp add: unsigned_minus_1_eq_mask mask_eq_exp_minus_1)
qed

lemma low16_mask: "(0xffff :: u32) = mask 16"
  by (simp add: mask_eq_exp_minus_1)

lemma unat_not_low16:
  "unat (u :: u32) \<le> 65535 \<Longrightarrow> unat (ucast (NOT (u AND 0xffff)) :: u16) = 65535 - unat u"
proof -
  assume le: "unat u \<le> 65535"
  have "(ucast (NOT (u AND 0xffff)) :: u16) = NOT (ucast u)"
    unfolding low16_mask by (rule bit_word_eqI) (auto simp: bit_simps)
  moreover have "take_bit 16 (unat u) = unat u"
    using le by (simp add: take_bit_nat_eq_self_iff)
  ultimately show ?thesis by (simp only: unat_NOT_u16 unsigned_ucast_eq) simp
qed

lemma u32_halves:
  "a AND 0xffff = ucast (le16 (byte_of32 0 a) (byte_of32 1 a))"
  "drop_bit 16 a AND 0xffff = ucast (le16 (byte_of32 2 a) (byte_of32 3 a))"
proof -
  show "a AND 0xffff = ucast (le16 (byte_of32 0 a) (byte_of32 1 a))"
  proof (rule bit_word_eqI)
    fix n assume "n < LENGTH(32)"
    then consider "n < 8" | "8 \<le> n" "n < 16" | "16 \<le> n" "n < 32" by force
    then show "bit (a AND 0xffff) n = bit (ucast (le16 (byte_of32 0 a) (byte_of32 1 a)) :: u32) n"
      by cases (auto simp: low16_mask le16_def byte_of32_def bit_simps)
  qed
  show "drop_bit 16 a AND 0xffff = ucast (le16 (byte_of32 2 a) (byte_of32 3 a))"
  proof (rule bit_word_eqI)
    fix n assume "n < LENGTH(32)"
    then consider "n < 8" | "8 \<le> n" "n < 16" | "16 \<le> n" "n < 32" by force
    then show "bit (drop_bit 16 a AND 0xffff) n = bit (ucast (le16 (byte_of32 2 a) (byte_of32 3 a)) :: u32) n"
      by cases (auto simp: low16_mask le16_def byte_of32_def bit_simps ac_simps)
  qed
qed

lemma pseudo_acc_spec: "unat (pseudo_acc src dest) = fold16 (ocsum (bytes_of32 src @ bytes_of32 dest))"
proof -
  have le: "unat (ucast (le16 a b) :: u32) \<le> 65535" for a b
    using unat_u16_le [of "le16 a b"] by (simp add: word_nat)
  let ?w = "\<lambda>i j a. ucast (le16 (byte_of32 i a) (byte_of32 j a)) :: u32"
  have "unat (?w 0 1 src + ?w 2 3 src + ?w 0 1 dest + ?w 2 3 dest) =
      unat (?w 0 1 src) + unat (?w 2 3 src) + unat (?w 0 1 dest) + unat (?w 2 3 dest)"
    using le [of "byte_of32 0 src" "byte_of32 1 src"] le [of "byte_of32 2 src" "byte_of32 3 src"]
      le [of "byte_of32 0 dest" "byte_of32 1 dest"] le [of "byte_of32 2 dest" "byte_of32 3 dest"]
    by (simp add: unat_add_u32)
  then show ?thesis
    unfolding pseudo_acc_def Let_def u32_halves(2) fold2
    unfolding u32_halves(1) by (simp add: bytes_of32_def word_nat add.assoc)
qed

lemma fold16_verify: "fold16 (n + (65535 - fold16 n)) = 65535"
proof -
  have "oceq (n + (65535 - fold16 n)) (fold16 n + (65535 - fold16 n))"
    by (intro oceq_add oceq_refl oceq_sym [OF oceq_fold16])
  then have "oceq 65535 (n + (65535 - fold16 n))" using fold16_le [of n] oceq_sym by simp
  then have "65535 = fold16 (n + (65535 - fold16 n))"
    by (rule fold16_unique) simp
  then show ?thesis by simp
qed


lemma htons_proto: "lwip_htons (ucast (proto :: u8)) = le16 0 proto"
proof -
  have "ucast proto = le16 proto 0" by (simp add: le16_def)
  then show ?thesis by (simp add: lwip_htons_le16)
qed

text \<open>The pseudo header's last two words added to a folded sum, folded twice and inverted.\<close>

lemma pseudo_finish:
  assumes "unat acc = fold16 (ocsum (bytes_of32 src @ bytes_of32 dest) + ocsum bs)"
  shows "unat (ucast (NOT (FOLD_U32T (FOLD_U32T
      (acc + ucast (lwip_htons (ucast proto)) + ucast (lwip_htons len))) AND 0xffff)) :: u16) =
    65535 - fold16 (ocsum (pseudo_header src dest proto len @ bs))"
proof -
  let ?m = "ocsum (bytes_of32 src @ bytes_of32 dest)"
  let ?t = "256 * unat proto + (unat (hi8 len) + 256 * unat (lo8 len))"
  have le: "unat acc \<le> 65535" "unat (hi8 len) \<le> 255" "unat (lo8 len) \<le> 255" "unat proto \<le> 255"
    using assms fold16_le by (simp_all add: unat_u8_le)
  have "unat (acc + ucast (lwip_htons (ucast proto)) + ucast (lwip_htons len)) = unat acc + ?t"
    unfolding htons_proto lwip_htons_bytes [of len] using le by (simp add: unat_add_u32 word_nat)
  then have u: "unat (FOLD_U32T (FOLD_U32T (acc + ucast (lwip_htons (ucast proto)) + ucast (lwip_htons len))))
      = fold16 (unat acc + ?t)" by (simp only: fold2)
  have "oceq (unat acc + ?t) (?m + ocsum bs + ?t)"
    unfolding assms by (intro oceq_add oceq_fold16 oceq_refl)
  then have "fold16 (unat acc + ?t) = fold16 (ocsum (pseudo_header src dest proto len @ bs))"
    by (simp add: fold16_cong pseudo_header_def ocsum_append_even bytes_of32_def add_ac)
  with u show ?thesis
    using fold16_le by (subst unat_not_low16) simp_all
qed

context chksum_algorithm
begin

lemma inet_chksum_spec:
  "length data \<le> 65535 \<Longrightarrow> unat (inet_chksum LWIP_CHKSUM a data) = 65535 - fold16 (ocsum data)"
  by (simp add: inet_chksum_def unat_NOT_u16 chksum_sum)

lemma inet_chksum_pbuf_spec:
  assumes "short_bufs p"
  shows "unat (inet_chksum_pbuf LWIP_CHKSUM p) = 65535 - fold16 (ocsum (chain_bytes p))"
proof -
  obtain acc sw where c: "chksum_chain LWIP_CHKSUM 0 False p = (acc, sw)" by fastforce
  have "chain_inv 0 0 False []" by (simp add: chain_inv_def swap_scale_def)
  from chksum_chain_inv [OF this assms c]
  have u: "unat (if sw then SWAP_BYTES_IN_WORD acc else acc) = fold16 (ocsum (chain_bytes p))"
    using chain_inv_unswap by fastforce
  have "inet_chksum_pbuf LWIP_CHKSUM p =
      ucast (NOT ((if sw then SWAP_BYTES_IN_WORD acc else acc) AND 0xffff))"
    by (simp only: inet_chksum_pbuf_def c Let_def prod.case)
  then show ?thesis
    using u fold16_le by (simp only: unat_not_low16)
qed

lemma inet_chksum_pseudo_spec:
  assumes "short_bufs p"
  shows "unat (inet_chksum_pseudo LWIP_CHKSUM p proto len src dest) =
    65535 - fold16 (ocsum (pseudo_header src dest proto len @ chain_bytes p))"
proof -
  let ?m = "ocsum (bytes_of32 src @ bytes_of32 dest)"
  obtain acc sw where c: "chksum_chain LWIP_CHKSUM (pseudo_acc src dest) False p = (acc, sw)" by fastforce
  have "chain_inv ?m (pseudo_acc src dest) False []"
    by (simp add: chain_inv_def swap_scale_def pseudo_acc_spec fold16_le oceq_fold16)
  from chksum_chain_inv [OF this assms c]
  have "unat (if sw then SWAP_BYTES_IN_WORD acc else acc) = fold16 (?m + ocsum (chain_bytes p))"
    using chain_inv_unswap by fastforce
  from pseudo_finish [OF this, of proto len] show ?thesis
    by (simp only: inet_chksum_pseudo_def inet_cksum_pseudo_base_def c Let_def prod.case)
qed

text \<open>The partial chain sum covers the first \<open>chksum_len\<close> bytes.\<close>

lemma chksum_chain_partial_inv:
  "chain_inv m acc swapped bs \<Longrightarrow> short_bufs c \<Longrightarrow>
   chksum_chain_partial LWIP_CHKSUM acc swapped n c = Some (acc', swapped') \<Longrightarrow>
   unat (if swapped' then SWAP_BYTES_IN_WORD acc' else acc') =
     fold16 (m + ocsum (bs @ take (unat n) (chain_bytes c)))"
proof (induction c arbitrary: acc swapped bs n)
  case Nil
  then show ?case using chain_inv_unswap [OF Nil.prems(1)] by (auto simp: chain_bytes_def split: if_splits)
next
  case (Cons x c)
  obtain a d where x: "x = (a, d)" by (cases x)
  have d: "length d \<le> 65535" "short_bufs c"
    using Cons.prems(2) x by (auto simp: short_bufs_def)
  have bytes: "chain_bytes (x # c) = d @ chain_bytes c" by (simp add: chain_bytes_def x)
  show ?case
  proof (cases "n = 0")
    case True
    then show ?thesis using Cons.prems x chain_inv_unswap by auto
  next
    case n0: False
    let ?k = "min (length d) (unat n)"
    let ?acc = "FOLD_U32T (acc + ucast (LWIP_CHKSUM a (take ?k d)))"
    have n': "unat (n - of_nat ?k) = unat n - ?k"
      using unat_u16_lt [of n] by (subst unat_sub_le) (auto simp: unat_of_nat)
    have rest: "(if odd (length d) then chksum_chain_partial LWIP_CHKSUM (SWAP_BYTES_IN_WORD ?acc) (\<not> swapped) (n - of_nat ?k) c
         else chksum_chain_partial LWIP_CHKSUM ?acc swapped (n - of_nat ?k) c) = Some (acc', swapped')"
      using Cons.prems(3) n0 x by (simp add: Let_def odd_iff_mod_2_eq_one split: if_splits)
    show ?thesis
    proof (cases "length d \<le> unat n")
      case True
      note st = chain_inv_step [OF Cons.prems(1) d(1) refl, of a]
      show ?thesis
        using rest True n' Cons.IH [OF st(1) d(2)] Cons.IH [OF st(2) d(2)] bytes
        by (cases "odd (length d)") simp_all
    next
      case False
      have f: "unat ?acc \<le> 65535" "oceq (unat ?acc) (swap_scale swapped (m + ocsum (bs @ take (unat n) d)))"
        using chain_inv_fold [OF Cons.prems(1), of "take (unat n) d" a] d False by simp_all
      have z: "n - of_nat ?k = 0" using n' False by (simp add: unat_eq_zero [symmetric] del: unat_eq_zero)
      have e: "chksum_chain_partial LWIP_CHKSUM u b 0 c = Some (u, b)" for u b
        by (cases c) auto
      show ?thesis
        using rest False unswap [OF f] unswap [OF SWAP_oceq(2) [OF f(1)] swap_toggle [OF f]] bytes
        unfolding z e by (cases "odd (length d)") auto
    qed
  qed
qed

lemma inet_chksum_pseudo_partial_spec:
  assumes "short_bufs p"
    and "inet_chksum_pseudo_partial LWIP_CHKSUM p proto len chksum_len src dest = Some c"
  shows "unat c = 65535 -
    fold16 (ocsum (pseudo_header src dest proto len @ take (unat chksum_len) (chain_bytes p)))"
proof -
  let ?m = "ocsum (bytes_of32 src @ bytes_of32 dest)"
  have i: "chain_inv ?m (pseudo_acc src dest) False []"
    by (simp add: chain_inv_def swap_scale_def pseudo_acc_spec fold16_le oceq_fold16)
  from assms(2) obtain acc sw
    where c: "chksum_chain_partial LWIP_CHKSUM (pseudo_acc src dest) False chksum_len p = Some (acc, sw)"
      and e: "c = ucast (NOT (FOLD_U32T (FOLD_U32T ((if sw then SWAP_BYTES_IN_WORD acc else acc)
                + ucast (lwip_htons (ucast proto)) + ucast (lwip_htons len))) AND 0xffff))"
    unfolding inet_chksum_pseudo_partial_def inet_cksum_pseudo_partial_base_def
    by (cases "chksum_chain_partial LWIP_CHKSUM (pseudo_acc src dest) False chksum_len p")
       (auto simp only: Let_def bind.bind_lunit bind.bind_lzero prod.case option.inject split: prod.splits)
  from pseudo_finish [OF chksum_chain_partial_inv [OF i assms(1) c, unfolded append_Nil], of proto len] show ?thesis
    by (simp only: e)
qed

text \<open>A checksum computed over a zeroed field and stored there makes the whole check to zero.\<close>

lemma inet_chksum_verifies_law:
  assumes "even (length h)" and "length h + 2 + length t \<le> 65535"
    and c: "c = inet_chksum LWIP_CHKSUM a (h @ [0, 0] @ t)"
  shows "inet_chksum LWIP_CHKSUM a' (h @ [lo8 c, hi8 c] @ t) = 0"
proof -
  have "unat c = 65535 - fold16 (ocsum h + ocsum t)"
    using assms by (simp add: inet_chksum_spec ocsum_append_even)
  then have "ocsum (h @ [lo8 c, hi8 c] @ t) = (ocsum h + ocsum t) + (65535 - fold16 (ocsum h + ocsum t))"
    using assms(1) unat_le16 [of "lo8 c" "hi8 c"] by (simp add: ocsum_append_even)
  then have "unat (inet_chksum LWIP_CHKSUM a' (h @ [lo8 c, hi8 c] @ t)) = 0"
    using assms(2) by (simp only: inet_chksum_spec fold16_verify length_append list.size)
  then show ?thesis by (simp add: unat_eq_zero)
qed

end

subsection \<open>The three algorithms satisfy the interface\<close>

interpretation chksum_v1: chksum_algorithm "\<lambda>_. lwip_standard_chksum1"
  by unfold_locales (simp add: lwip_standard_chksum1_spec)

interpretation chksum_v2: chksum_algorithm lwip_standard_chksum
  by unfold_locales (simp add: lwip_standard_chksum_spec)

interpretation chksum_v3: chksum_algorithm "\<lambda>odd_addr. lwip_standard_chksum3 (if odd_addr then 1 else 0)"
  by unfold_locales (simp add: lwip_standard_chksum3_spec)

subsection \<open>Properties\<close>

text \<open>C24: the three checksum algorithms of \<^verbatim>\<open>inet_chksum.c\<close> compute the same 16-bit sum of a buffer,
  whatever the alignment of its address, for every length an IP datagram can have.\<close>

theorem chksum_algorithms_agree:
  assumes "length data \<le> 65535"
  shows "lwip_standard_chksum (odd addr) data = lwip_standard_chksum1 data \<and>
         lwip_standard_chksum3 addr data = lwip_standard_chksum1 data"
  using assms
  by (simp add: word_unat_eq_iff lwip_standard_chksum_spec lwip_standard_chksum1_spec
      lwip_standard_chksum3_spec)

theorem chksum_algorithms_agree_witness:
  "lwip_standard_chksum True [0x45, 0, 0, 0x1c, 0xff] = lwip_standard_chksum1 [0x45, 0, 0, 0x1c, 0xff]"
  using chksum_algorithms_agree [of "[0x45, 0, 0, 0x1c, 0xff]" 1] by simp

text \<open>C25: the checksum of a pbuf chain is the checksum of the bytes it carries: it does not depend
  on how they are cut into buffers, on odd buffer lengths, or on the buffers' addresses.\<close>

theorem inet_chksum_pbuf_bytes:
  assumes "short_bufs p" and "length (chain_bytes p) \<le> 65535"
  shows "inet_chksum_pbuf lwip_standard_chksum p = inet_chksum lwip_standard_chksum odd_addr (chain_bytes p)"
  using chksum_v2.inet_chksum_pbuf_spec [OF assms(1)] chksum_v2.inet_chksum_spec [OF assms(2)]
  by (simp add: word_unat_eq_iff)

theorem inet_chksum_pbuf_bytes_witness:
  "inet_chksum_pbuf lwip_standard_chksum [(False, [1, 2, 3]), (True, [4]), (False, [5, 6])] =
   inet_chksum lwip_standard_chksum False [1, 2, 3, 4, 5, 6]"
  using inet_chksum_pbuf_bytes [of "[(False, [1, 2, 3]), (True, [4]), (False, [5, 6])]" False]
  by (simp add: short_bufs_def chain_bytes_def)

text \<open>C26: the transport checksum \<^verbatim>\<open>ip_chksum_pseudo\<close> is the inverted ones' complement sum (RFC 1071)
  of the pseudo header, in network byte order, followed by the chain's bytes.\<close>

theorem ip_chksum_pseudo_rfc1071:
  assumes "short_bufs p"
  shows "unat (ip_chksum_pseudo lwip_standard_chksum p proto proto_len src dest) =
    65535 - fold16 (ocsum (pseudo_header src dest proto proto_len @ chain_bytes p))"
  using chksum_v2.inet_chksum_pseudo_spec [OF assms] by (simp add: ip_chksum_pseudo_def)

theorem ip_chksum_pseudo_rfc1071_witness:
  "unat (ip_chksum_pseudo lwip_standard_chksum [(False, [1]), (True, [2, 3])] 6 3 0x0100000a 0x0200000a) =
   65535 - fold16 (ocsum (pseudo_header 0x0100000a 0x0200000a 6 3 @ [1, 2, 3]))"
  using ip_chksum_pseudo_rfc1071 [of "[(False, [1]), (True, [2, 3])]" 6 3 "0x0100000a" "0x0200000a"]
  by (simp add: short_bufs_def chain_bytes_def)

text \<open>the partial transport checksum, when it does not abort, covers the pseudo header and
  exactly the first \<^verbatim>\<open>chksum_len\<close> bytes of the chain, also when a buffer is cut at an odd place.\<close>

theorem ip_chksum_pseudo_partial_prefix:
  assumes "short_bufs p"
    and "ip_chksum_pseudo_partial lwip_standard_chksum p proto proto_len chksum_len src dest = Some c"
  shows "unat c = 65535 -
    fold16 (ocsum (pseudo_header src dest proto proto_len @ take (unat chksum_len) (chain_bytes p)))"
  using chksum_v2.inet_chksum_pseudo_partial_spec assms by (simp add: ip_chksum_pseudo_partial_def)

theorem ip_chksum_pseudo_partial_prefix_witness:
  "\<exists>c. ip_chksum_pseudo_partial lwip_standard_chksum [(False, [1, 2, 3]), (True, [4, 5])] 136 5 2 7 9 = Some c \<and>
     unat c = 65535 - fold16 (ocsum (pseudo_header 7 9 136 5 @ [1, 2]))"
  using ip_chksum_pseudo_partial_prefix [of "[(False, [1, 2, 3]), (True, [4, 5])]" 136 5 2 7 9]
  by (simp add: short_bufs_def chain_bytes_def ip_chksum_pseudo_partial_def
      inet_chksum_pseudo_partial_def inet_cksum_pseudo_partial_base_def)

text \<open>A checksum that \<^verbatim>\<open>inet_chksum\<close> computes while its two-byte field is zero, stored into that
  field at an even offset, makes \<^verbatim>\<open>inet_chksum\<close> of the whole buffer zero, which is the receiver's test.\<close>

theorem inet_chksum_verifies:
  assumes "even (length h)" and "length h + 2 + length t \<le> 65535"
    and "c = inet_chksum lwip_standard_chksum a (h @ [0, 0] @ t)"
  shows "inet_chksum lwip_standard_chksum a' (h @ [lo8 c, hi8 c] @ t) = 0"
  by (rule chksum_v2.inet_chksum_verifies_law [OF assms])

theorem inet_chksum_verifies_witness:
  "let c = inet_chksum lwip_standard_chksum False ([0x45, 0] @ [0, 0] @ [9]) in
   inet_chksum lwip_standard_chksum True ([0x45, 0] @ [lo8 c, hi8 c] @ [9]) = 0"
  using inet_chksum_verifies [of "[0x45, 0]" "[9]" _ False True] by simp

end
