(* ===== verification/Ip4_Addr.thy ===== *)
theory Ip4_Addr
  imports Lwip_Def
begin

text \<open>
  IPv4 addresses: \<^verbatim>\<open>lwip/core/ipv4/ip4_addr.c\<close> and the parts of \<^verbatim>\<open>lwip/include/lwip/netif.h\<close> it
  reads. An address is the 32-bit word in network byte order, as \<^verbatim>\<open>ip4_addr_t\<close> holds it. The
  lemmas show that printing and parsing are inverse, that the printer never writes past its
  buffer, and which words are netmasks.
\<close>

subsection \<open>Network interface\<close>

text \<open>The output functions a \<^verbatim>\<open>struct netif\<close> of the program can hold. \<open>loop_first\<close> and \<open>loop_last\<close> are the
  queue of packets sent to the interface itself.\<close>

datatype netif_output_fn = Null_output_ip4 | Loop_output_ipv4 | Netif_output_func

record netif =
  ip_addr :: u32
  netmask :: u32
  gw :: u32
  output_fn :: netif_output_fn
  mtu :: u16
  flags :: u8
  if_name :: "char \<times> char"
  num :: u8
  loop_first :: "nat option"
  loop_last :: "nat option"

definition NETIF_FLAG_UP :: u8 where "NETIF_FLAG_UP = 0x01"
definition NETIF_FLAG_BROADCAST :: u8 where "NETIF_FLAG_BROADCAST = 0x02"
definition NETIF_FLAG_LINK_UP :: u8 where "NETIF_FLAG_LINK_UP = 0x04"

definition IPADDR_ANY :: u32 where "IPADDR_ANY = 0x00000000"
definition IPADDR_NONE :: u32 where "IPADDR_NONE = 0xffffffff"
definition IPADDR_BROADCAST :: u32 where "IPADDR_BROADCAST = 0xffffffff"
definition IP4ADDR_STRLEN_MAX :: nat where "IP4ADDR_STRLEN_MAX = 16"

definition ip4_addr_netcmp :: "u32 \<Rightarrow> u32 \<Rightarrow> u32 \<Rightarrow> bool" where
  "ip4_addr_netcmp addr1 addr2 nm = (addr1 AND nm = addr2 AND nm)"

definition ip4_addr_ismulticast :: "u32 \<Rightarrow> bool" where
  "ip4_addr_ismulticast addr = (addr AND PP_HTONL 0xf0000000 = PP_HTONL 0xe0000000)"

definition ip4_addr_isbroadcast_u32 :: "u32 \<Rightarrow> netif \<Rightarrow> bool" where
  "ip4_addr_isbroadcast_u32 addr netif =
     (if NOT addr = IPADDR_ANY \<or> addr = IPADDR_ANY then True
      else if flags netif AND NETIF_FLAG_BROADCAST = 0 then False
      else if addr = ip_addr netif then False
      else if ip4_addr_netcmp addr (ip_addr netif) (netmask netif) \<and>
              addr AND NOT (netmask netif) = IPADDR_BROADCAST AND NOT (netmask netif)
           then True
      else False)"

subsection \<open>Netmasks\<close>

text \<open>The two loops of \<^verbatim>\<open>ip4_addr_netmask_valid\<close> over the single-bit \<^verbatim>\<open>mask\<close>.\<close>

lemma drop_bit_1_less: "(m :: u32) \<noteq> 0 \<Longrightarrow> unat (drop_bit 1 m) < unat m"
proof -
  assume "m \<noteq> 0"
  then have "0 < unat m" by (simp add: unat_gt_0)
  moreover have "take_bit 32 (unat m) = unat m"
    using unat_u32_lt [of m] by (simp add: take_bit_nat_eq_self_iff)
  ultimately show ?thesis by (simp only: unsigned_drop_bit_eq) (simp add: drop_bit_eq_div)
qed

function netmask_first_zero :: "u32 \<Rightarrow> u32 \<Rightarrow> u32" where
  "netmask_first_zero nm m =
     (if m = 0 then m
      else if nm AND m = 0 then m
      else netmask_first_zero nm (drop_bit 1 m))"
  by auto
termination
  by (relation "measure (\<lambda>(nm, m). unat m)") (simp_all only: in_measure prod.case wf_measure simp_thms drop_bit_1_less)

function netmask_no_one :: "u32 \<Rightarrow> u32 \<Rightarrow> bool" where
  "netmask_no_one nm m =
     (if m = 0 then True
      else if nm AND m \<noteq> 0 then False
      else netmask_no_one nm (drop_bit 1 m))"
  by auto
termination
  by (relation "measure (\<lambda>(nm, m). unat m)") (simp_all only: in_measure prod.case wf_measure simp_thms drop_bit_1_less)

declare netmask_first_zero.simps [simp del] netmask_no_one.simps [simp del]

definition ip4_addr_netmask_valid :: "u32 \<Rightarrow> bool" where
  "ip4_addr_netmask_valid nm =
     (let nm_hostorder = lwip_htonl nm
      in netmask_no_one nm_hostorder (netmask_first_zero nm_hostorder (push_bit 31 1)))"

subsection \<open>Parsing\<close>

definition hd0 :: "string \<Rightarrow> char" where
  "hd0 s = (case s of [] \<Rightarrow> CHR 0x00 | c # _ \<Rightarrow> c)"

definition char_code :: "char \<Rightarrow> nat" where
  "char_code c = of_char c"

definition in_range :: "char \<Rightarrow> char \<Rightarrow> char \<Rightarrow> bool" where
  "in_range c lo hi = (char_code lo \<le> char_code c \<and> char_code c \<le> char_code hi)"

definition lwip_isdigit :: "char \<Rightarrow> bool" where
  "lwip_isdigit c = in_range c CHR ''0'' CHR ''9''"

definition lwip_isxdigit :: "char \<Rightarrow> bool" where
  "lwip_isxdigit c = (lwip_isdigit c \<or> in_range c CHR ''a'' CHR ''f'' \<or> in_range c CHR ''A'' CHR ''F'')"

definition lwip_islower :: "char \<Rightarrow> bool" where
  "lwip_islower c = in_range c CHR ''a'' CHR ''z''"

definition lwip_isspace :: "char \<Rightarrow> bool" where
  "lwip_isspace c = (c = CHR '' '' \<or> c = CHR 0x0C \<or> c = CHR 0x0A \<or> c = CHR 0x0D \<or> c = CHR 0x09 \<or> c = CHR 0x0B)"

text \<open>The inner loop: the digits of one number, in the given base.\<close>

fun aton_digits :: "u32 \<Rightarrow> u32 \<Rightarrow> string \<Rightarrow> u32 \<times> string" where
  "aton_digits base val [] = (val, [])"
| "aton_digits base val (c # cp) =
     (if lwip_isdigit c then aton_digits base (val * base + of_nat (char_code c - char_code CHR ''0'')) cp
      else if base = 16 \<and> lwip_isxdigit c then
        aton_digits base (push_bit 4 val OR
          of_nat (char_code c + 10 - (if lwip_islower c then char_code CHR ''a'' else char_code CHR ''A''))) cp
      else (val, c # cp))"

text \<open>One number with its C-style base prefix.\<close>

definition aton_number :: "string \<Rightarrow> u32 \<times> string" where
  "aton_number cp =
     (if hd0 cp = CHR ''0'' then
        (let cp = tl cp in
         if hd0 cp = CHR ''x'' \<or> hd0 cp = CHR ''X'' then aton_digits 16 0 (tl cp)
         else aton_digits 8 0 cp)
      else aton_digits 10 0 cp)"

text \<open>The outer loop; \<open>parts\<close> is the array filled so far. \<open>None\<close> is the return value 0.\<close>

function aton_parts :: "u32 list \<Rightarrow> string \<Rightarrow> (u32 list \<times> u32 \<times> string) option" where
  "aton_parts parts cp =
     (if \<not> lwip_isdigit (hd0 cp) then None
      else
        (let (val, cp) = aton_number cp in
         if hd0 cp = CHR ''.'' then
           (if 3 \<le> length parts then None else aton_parts (parts @ [val]) (tl cp))
         else Some (parts, val, cp)))"
  by auto
termination
  by (relation "measure (\<lambda>(parts, cp). 4 - length parts)") auto

declare aton_parts.simps [simp del]

fun aton_concoct :: "u32 list \<Rightarrow> u32 \<Rightarrow> u32 option" where
  "aton_concoct [] val = Some val"
| "aton_concoct [p0] val =
     (if val > 0xffffff then None else if p0 > 0xff then None else Some (val OR push_bit 24 p0))"
| "aton_concoct [p0, p1] val =
     (if val > 0xffff then None else if p0 > 0xff \<or> p1 > 0xff then None
      else Some (val OR (push_bit 24 p0 OR push_bit 16 p1)))"
| "aton_concoct [p0, p1, p2] val =
     (if val > 0xff then None else if p0 > 0xff \<or> p1 > 0xff \<or> p2 > 0xff then None
      else Some (val OR (push_bit 24 p0 OR push_bit 16 p1 OR push_bit 8 p2)))"
| "aton_concoct _ val = None"

definition ip4addr_aton :: "string \<Rightarrow> u32 option" where
  "ip4addr_aton cp =
     (case aton_parts [] cp of
        None \<Rightarrow> None
      | Some (parts, val, cp) \<Rightarrow>
          if hd0 cp \<noteq> CHR 0x00 \<and> \<not> lwip_isspace (hd0 cp) then None
          else map_option lwip_htonl (aton_concoct parts val))"

definition ipaddr_addr :: "string \<Rightarrow> u32" where
  "ipaddr_addr cp = (case ip4addr_aton cp of Some val \<Rightarrow> val | None \<Rightarrow> IPADDR_NONE)"

subsection \<open>Printing\<close>

text \<open>The \<^verbatim>\<open>do ... while (*ap)\<close> loop: the digits of one byte, least significant first, as the
  loop leaves them in \<^verbatim>\<open>inv\<close>.\<close>

lemma u8_div_10_less: "(ap :: u8) div 10 \<noteq> 0 \<Longrightarrow> unat (ap div 10) < unat ap"
  by (simp add: unat_div) (metis div_0 div_less_dividend less_numeral_extra(1) not_gr_zero one_less_numeral_iff semiring_norm(76) unat_0 unat_eq_zero)

function ntoa_inv :: "u8 \<Rightarrow> string" where
  "ntoa_inv ap =
     (let rem = ap mod 10; ap = ap div 10
      in char_of (char_code CHR ''0'' + unat rem) # (if ap \<noteq> 0 then ntoa_inv ap else []))"
  by auto
termination
  by (relation "measure unat") (simp_all only: in_measure wf_measure u8_div_10_less not_False_eq_True)

declare ntoa_inv.simps [simp del]

text \<open>Writing one character: \<open>len\<close> counts the characters written, \<^verbatim>\<open>rp = buf + len\<close>.\<close>

definition ntoa_put :: "nat \<Rightarrow> char \<Rightarrow> string \<times> nat \<Rightarrow> (string \<times> nat) option" where
  "ntoa_put buflen c = (\<lambda>(buf, len). if buflen \<le> len then None else Some (buf[len := c], len + 1))"

fun ntoa_puts :: "nat \<Rightarrow> string \<Rightarrow> string \<times> nat \<Rightarrow> (string \<times> nat) option" where
  "ntoa_puts buflen [] s = Some s"
| "ntoa_puts buflen (c # cs) s = Option.bind (ntoa_put buflen c s) (ntoa_puts buflen cs)"

fun ntoa_bytes :: "nat \<Rightarrow> bytes \<Rightarrow> string \<times> nat \<Rightarrow> (string \<times> nat) option" where
  "ntoa_bytes buflen [] s = Some s"
| "ntoa_bytes buflen (ap # aps) s =
     do {
       s \<leftarrow> ntoa_puts buflen (rev (ntoa_inv ap)) s;
       s \<leftarrow> ntoa_put buflen CHR ''.'' s;
       ntoa_bytes buflen aps s
     }"

definition ip4addr_ntoa_r :: "u32 \<Rightarrow> string \<Rightarrow> nat \<Rightarrow> string option" where
  "ip4addr_ntoa_r addr buf buflen =
     do {
       (buf, len) \<leftarrow> ntoa_bytes buflen (bytes_of32 addr) (buf, 0);
       Some (buf[len - 1 := CHR 0x00])
     }"

definition ip4addr_ntoa :: "string \<Rightarrow> u32 \<Rightarrow> string option" where
  "ip4addr_ntoa str addr = ip4addr_ntoa_r addr str IP4ADDR_STRLEN_MAX"

subsection \<open>The printer\<close>

lemma ntoa_inv_dec: "rev (ntoa_inv b) = dec_string (unat b)"
proof (induction b rule: ntoa_inv.induct)
  case (1 b)
  have r: "unat (b mod 10) = unat b mod 10" "unat (b div 10) = unat b div 10"
    by (simp_all add: unat_mod unat_div)
  have z: "b div 10 \<noteq> 0 \<longleftrightarrow> 10 \<le> unat b"
    by (simp add: word_unat_eq_iff r) (simp add: div_greater_zero_iff)
  have c: "char_of (char_code CHR ''0'' + n) = digit_char n" for n
    by (simp add: char_code_def digit_char_def)
  show ?case
    using 1 by (subst ntoa_inv.simps) (simp add: Let_def c z r dec_string_small dec_string_step)
qed

lemma ntoa_inv_length: "length (ntoa_inv b) \<le> 3"
  using dec_string_length_le [of "unat b" 3] unat_u8_lt [of b] ntoa_inv_dec [of b]
  by (simp add: length_rev [of "ntoa_inv b", symmetric] del: length_rev)

lemma ntoa_puts_overwrite:
  "length buf = buflen \<Longrightarrow> len \<le> buflen \<Longrightarrow>
   ntoa_puts buflen s (buf, len) =
     (if len + length s \<le> buflen then Some (overwrite len s buf, len + length s) else None)"
  by (induction s arbitrary: buf len) (auto simp: ntoa_put_def overwrite_Cons not_le)

definition dotted :: "bytes \<Rightarrow> string" where
  "dotted bs = concat (map (\<lambda>b. dec_string (unat b) @ ''.'') bs)"

lemma ntoa_bytes_overwrite:
  "length buf = buflen \<Longrightarrow> len \<le> buflen \<Longrightarrow>
   ntoa_bytes buflen bs (buf, len) =
     (if len + length (dotted bs) \<le> buflen
      then Some (overwrite len (dotted bs) buf, len + length (dotted bs)) else None)"
proof (induction bs arbitrary: buf len)
  case Nil
  then show ?case by (simp add: dotted_def)
next
  case (Cons b bs)
  let ?d = "dec_string (unat b)"
  have d: "dotted (b # bs) = ?d @ ''.'' @ dotted bs" by (simp add: dotted_def)
  show ?case
  proof (cases "len + length ?d < buflen")
    case True
    then have "ntoa_bytes buflen (b # bs) (buf, len) =
        ntoa_bytes buflen bs (overwrite len (?d @ ''.'') buf, len + length ?d + 1)"
      using Cons.prems by (simp add: ntoa_inv_dec ntoa_puts_overwrite ntoa_put_def overwrite_snoc)
    then show ?thesis
      using True Cons.prems Cons.IH [of "overwrite len (?d @ ''.'') buf" "len + length ?d + 1"]
        overwrite_append [of len "?d @ ''.''" "dotted bs" buf]
      by (auto simp: d add.assoc)
  next
    case False
    then show ?thesis
      using Cons.prems by (auto simp: d ntoa_inv_dec ntoa_puts_overwrite ntoa_put_def)
  qed
qed

text \<open>The dotted-decimal form of an address, and the C string a buffer holds.\<close>

definition dotted_quad :: "u32 \<Rightarrow> string" where
  "dotted_quad addr = butlast (dotted (bytes_of32 addr))"

definition c_str :: "string \<Rightarrow> string" where
  "c_str buf = takeWhile (\<lambda>c. c \<noteq> CHR 0x00) buf"

lemma dotted_not_Nil: "bs \<noteq> [] \<Longrightarrow> dotted bs \<noteq> []"
  by (cases bs) (simp_all add: dotted_def)

lemma dotted_last: "bs \<noteq> [] \<Longrightarrow> dotted bs = butlast (dotted bs) @ ''.''"
proof (induction bs)
  case (Cons b bs)
  then show ?case
    by (cases "bs = []") (simp_all add: dotted_def butlast_append)
qed simp

lemma dotted_chars: "c \<in> set (dotted bs) \<Longrightarrow> c \<noteq> CHR 0x00"
proof -
  have "d < 10 \<Longrightarrow> digit_char d \<noteq> CHR 0x00" for d
    by (auto dest: arg_cong [where f = "of_char :: char \<Rightarrow> nat"])
  then have "CHR 0x00 \<notin> set (dec_string n)" for n
    using set_dec_string [of n] by fastforce
  then show "c \<in> set (dotted bs) \<Longrightarrow> c \<noteq> CHR 0x00"
    by (auto simp: dotted_def split: if_splits)
qed

lemma ip4addr_ntoa_r_result:
  assumes "length buf = buflen"
  shows "map_option c_str (ip4addr_ntoa_r addr buf buflen) =
    (if length (dotted_quad addr) < buflen then Some (dotted_quad addr) else None)"
proof -
  let ?s = "dotted (bytes_of32 addr)"
  have ne: "bytes_of32 addr \<noteq> []" by (simp add: bytes_of32_def)
  have s: "?s = dotted_quad addr @ ''.''" using dotted_last [OF ne] by (simp add: dotted_quad_def)
  have "c_str ((overwrite 0 ?s buf)[length ?s - 1 := CHR 0x00]) = dotted_quad addr"
    if "length ?s \<le> buflen"
  proof -
    have "(overwrite 0 ?s buf)[length ?s - 1 := CHR 0x00] = dotted_quad addr @ CHR 0x00 # drop (length ?s) buf"
      unfolding s by (simp add: overwrite_def list_update_append)
    moreover have "c \<noteq> CHR 0x00" if "c \<in> set (dotted_quad addr)" for c
      using dotted_chars [of c "bytes_of32 addr"] that s by simp
    ultimately show ?thesis by (simp add: c_str_def)
  qed
  then show ?thesis
    using assms by (auto simp: ip4addr_ntoa_r_def ntoa_bytes_overwrite s)
qed

lemma dotted_quad_length: "length (dotted_quad addr) < IP4ADDR_STRLEN_MAX"
proof -
  have "length (dec_string (unat (b :: u8))) \<le> 3" for b
    using dec_string_length_le [of "unat b" 3] unat_u8_lt [of b] by simp
  from this [of "byte_of32 0 addr"] this [of "byte_of32 1 addr"] this [of "byte_of32 2 addr"] this [of "byte_of32 3 addr"]
  show ?thesis
    by (simp add: dotted_quad_def dotted_def bytes_of32_def IP4ADDR_STRLEN_MAX_def)
qed

subsection \<open>The parser\<close>

lemma lwip_isdigit_digit_char: "d < 10 \<Longrightarrow> lwip_isdigit (digit_char d)"
  by (simp add: lwip_isdigit_def in_range_def char_code_def)

lemma aton_digits_dec:
  "aton_digits 10 0 (dec_string n @ rest) = aton_digits 10 (of_nat n) rest"
proof (induction n arbitrary: rest rule: dec_string.induct)
  case (1 n)
  show ?case
  proof (cases "n < 10")
    case True
    then show ?thesis by (simp add: dec_string_small lwip_isdigit_digit_char char_code_def)
  next
    case False
    have "of_nat (n div 10) * 10 + of_nat (n mod 10) = (of_nat n :: u32)"
      by (metis div_mult_mod_eq of_nat_add of_nat_mult of_nat_numeral)
    then show ?thesis
      using False 1 by (simp add: dec_string_step [of n] lwip_isdigit_digit_char char_code_def)
  qed
qed

lemma hd_dec_string: "0 < n \<Longrightarrow> hd (dec_string n) \<noteq> CHR ''0''"
proof (induction n rule: dec_string.induct)
  case (1 n)
  then show ?case
    using digit_char_inj [of n 0]
    by (cases "n < 10") (auto simp: dec_string_small dec_string_step [of n] digit_char_0)
qed

lemma hd_dec_string_digit: "lwip_isdigit (hd (dec_string n))"
  using set_dec_string [of n] hd_in_set [OF dec_string_not_Nil [of n]] lwip_isdigit_digit_char by fastforce

lemma aton_number_dec:
  assumes "\<not> lwip_isdigit (hd0 rest)" "hd0 rest \<noteq> CHR ''x''" "hd0 rest \<noteq> CHR ''X''"
  shows "aton_number (dec_string n @ rest) = (of_nat n, rest)"
proof -
  have stop: "aton_digits base v rest = (v, rest)" if "base \<noteq> 16" for base v
    using assms that by (cases rest) (simp_all add: hd0_def)
  show ?thesis
  proof (cases "n = 0")
    case True
    then show ?thesis
      using assms by (simp add: aton_number_def dec_string_small digit_char_0 hd0_def [of "_ # _"] stop)
  next
    case False
    have "hd0 (dec_string n @ rest) = hd (dec_string n)" by (cases "dec_string n") (simp_all add: hd0_def)
    with False hd_dec_string [of n] show ?thesis
      by (simp add: aton_number_def aton_digits_dec stop)
  qed
qed

lemma aton_parts_dot:
  "length parts < 3 \<Longrightarrow>
   aton_parts parts (dec_string n @ CHR ''.'' # rest) = aton_parts (parts @ [of_nat n]) rest"
proof -
  have "hd0 (dec_string n @ xs) = hd (dec_string n)" for xs by (cases "dec_string n") (simp_all add: hd0_def)
  moreover have "\<not> lwip_isdigit CHR ''.''" by code_simp
  ultimately show "length parts < 3 \<Longrightarrow> ?thesis"
    by (subst aton_parts.simps) (simp add: hd_dec_string_digit aton_number_dec hd0_def [of "_ # _"])
qed

lemma aton_parts_end: "aton_parts parts (dec_string n) = Some (parts, of_nat n, [])"
proof -
  have "hd0 (dec_string n) = hd (dec_string n)" by (cases "dec_string n") (simp_all add: hd0_def)
  moreover have "\<not> lwip_isdigit CHR 0x00" by code_simp
  then have "aton_number (dec_string n) = (of_nat n, [])"
    using aton_number_dec [of "[]" n] by (simp add: hd0_def)
  ultimately show ?thesis
    by (subst aton_parts.simps) (simp add: hd_dec_string_digit hd0_def [of "[]"])
qed

lemma dotted_quad_parts:
  "aton_parts [] (dotted_quad (le32 a b c d)) =
     Some ([of_nat (unat a), of_nat (unat b), of_nat (unat c)], of_nat (unat d), [])"
  by (simp add: dotted_quad_def dotted_def bytes_of32_def butlast_append aton_parts_dot aton_parts_end)

lemma u8_le_ff: "(ucast (b :: u8) :: u32) \<le> 0xff"
  using unat_u8_le [of b] by (simp add: word_le_nat_alt word_nat)

lemma ip4addr_aton_dotted: "ip4addr_aton (dotted_quad addr) = Some addr"
proof -
  obtain a b c d where addr: "addr = le32 a b c d" by (metis le32_byte_of32)
  have "(of_nat (unat x) :: u32) = ucast (x :: u8)" for x by simp
  then have "aton_concoct [of_nat (unat a), of_nat (unat b), of_nat (unat c)] (of_nat (unat d)) =
      Some (le32 d c b a)"
    using u8_le_ff by (simp add: not_less le32_def or.commute or.left_commute)
  then show ?thesis
    by (simp only: ip4addr_aton_def addr dotted_quad_parts option.case prod.case)
       (simp add: hd0_def lwip_htonl_le32)
qed

subsection \<open>Netmasks\<close>

definition one_bit :: "nat \<Rightarrow> u32" where
  "one_bit i = push_bit i 1"

lemma bit_one_bit: "bit (one_bit i) n \<longleftrightarrow> n = i \<and> i < 32"
  by (auto simp: one_bit_def bit_simps)

lemma and_one_bit: "i < 32 \<Longrightarrow> nm AND one_bit i = 0 \<longleftrightarrow> \<not> bit nm i"
proof
  assume "i < 32" "nm AND one_bit i = 0"
  then have "\<not> bit (nm AND one_bit i) i" by simp
  then show "\<not> bit nm i" using \<open>i < 32\<close> by (simp add: bit_and_iff bit_one_bit)
next
  assume "\<not> bit nm i"
  then show "nm AND one_bit i = 0" by (intro bit_word_eqI) (auto simp: bit_and_iff bit_one_bit)
qed

lemma one_bit_neq_0: "i < 32 \<Longrightarrow> one_bit i \<noteq> 0"
  using bit_one_bit [of i i] by auto

lemma drop_one_bit: "drop_bit (Suc 0) (one_bit 0) = 0" "Suc i < 32 \<Longrightarrow> drop_bit (Suc 0) (one_bit (Suc i)) = one_bit i"
  by (rule bit_word_eqI; auto simp: bit_drop_bit_eq bit_one_bit)+

lemmas one_bit_simps = and_one_bit one_bit_neq_0 drop_one_bit

lemma netmask_no_one_bits:
  "i < 32 \<Longrightarrow> netmask_no_one nm (one_bit i) \<longleftrightarrow> (\<forall>j\<le>i. \<not> bit nm j)"
proof (induction i)
  case 0
  then show ?case
    by (subst netmask_no_one.simps) (simp add: one_bit_simps netmask_no_one.simps [of nm 0])
next
  case (Suc i)
  then show ?case
    by (subst netmask_no_one.simps) (auto simp: one_bit_simps le_Suc_eq)
qed

lemma netmask_loops_bits:
  "i < 32 \<Longrightarrow> netmask_no_one nm (netmask_first_zero nm (one_bit i)) \<longleftrightarrow>
     (\<exists>k\<le>Suc i. \<forall>j\<le>i. bit nm j \<longleftrightarrow> k \<le> j)"
proof (induction i)
  case 0
  then show ?case
    using netmask_no_one_bits [of 0 nm]
    by (subst netmask_first_zero.simps)
       (auto simp: one_bit_simps netmask_no_one.simps [of nm 0] netmask_first_zero.simps [of nm 0] intro: exI [of _ 0] exI [of _ 1])
next
  case (Suc i)
  show ?case
  proof (cases "bit nm (Suc i)")
    case True
    then have "netmask_first_zero nm (one_bit (Suc i)) = netmask_first_zero nm (one_bit i)"
      using Suc.prems by (subst netmask_first_zero.simps) (simp add: one_bit_simps)
    moreover have "(\<exists>k\<le>Suc i. \<forall>j\<le>i. bit nm j \<longleftrightarrow> k \<le> j) \<longleftrightarrow> (\<exists>k\<le>Suc (Suc i). \<forall>j\<le>Suc i. bit nm j \<longleftrightarrow> k \<le> j)"
      using True by (auto simp: le_Suc_eq)
    ultimately show ?thesis using Suc by simp
  next
    case False
    then have "netmask_first_zero nm (one_bit (Suc i)) = one_bit (Suc i)"
      using Suc.prems by (subst netmask_first_zero.simps) (simp add: one_bit_simps)
    moreover have "(\<forall>j\<le>Suc i. \<not> bit nm j) \<longleftrightarrow> (\<exists>k\<le>Suc (Suc i). \<forall>j\<le>Suc i. bit nm j \<longleftrightarrow> k \<le> j)"
      using False by (auto intro: exI [of _ "Suc (Suc i)"])
    ultimately show ?thesis using Suc.prems netmask_no_one_bits by simp
  qed
qed

subsection \<open>Properties\<close>

text \<open>C32: \<^verbatim>\<open>ip4addr_aton\<close> reads back every address \<^verbatim>\<open>ip4addr_ntoa\<close> prints: for every address and
  every content of the 16-byte static buffer the printer succeeds, and parsing the C string it left
  in the buffer gives the address again.\<close>

theorem ntoa_aton_roundtrip:
  assumes "length str = IP4ADDR_STRLEN_MAX"
  shows "\<exists>buf. ip4addr_ntoa str addr = Some buf \<and> length buf = IP4ADDR_STRLEN_MAX \<and>
    ip4addr_aton (c_str buf) = Some addr"
proof -
  obtain buf where b: "ip4addr_ntoa_r addr str IP4ADDR_STRLEN_MAX = Some buf" "c_str buf = dotted_quad addr"
    using ip4addr_ntoa_r_result [OF assms, of addr] dotted_quad_length by auto
  moreover have "length buf = IP4ADDR_STRLEN_MAX"
    using b(1) assms by (auto simp: ip4addr_ntoa_r_def ntoa_bytes_overwrite split: if_splits)
  ultimately show ?thesis by (simp add: ip4addr_ntoa_def ip4addr_aton_dotted)
qed

theorem ntoa_aton_roundtrip_witness:
  "\<exists>buf. ip4addr_ntoa (replicate 16 CHR ''?'') 0x0101a8c0 = Some buf \<and> ip4addr_aton (c_str buf) = Some 0x0101a8c0"
  using ntoa_aton_roundtrip [of "replicate 16 CHR ''?''" "0x0101a8c0"]
  by (simp add: IP4ADDR_STRLEN_MAX_def) blast

text \<open>\<^verbatim>\<open>ip4addr_ntoa_r\<close> with a buffer of \<^verbatim>\<open>buflen\<close> characters returns NULL exactly when the
  dotted-decimal string and its terminator do not fit, and otherwise leaves exactly that string.\<close>

theorem ip4addr_ntoa_r_fits:
  "map_option c_str (ip4addr_ntoa_r addr buf (length buf)) =
    (if length (dotted_quad addr) + 1 \<le> length buf then Some (dotted_quad addr) else None)"
  using ip4addr_ntoa_r_result [OF refl, of addr buf] by (simp add: Suc_le_eq)

text \<open>\<^verbatim>\<open>ip4_addr_netmask_valid\<close> accepts exactly the words that are, in host order, a run of ones
  from the most significant bit followed only by zeros.\<close>

theorem ip4_addr_netmask_valid_iff:
  "ip4_addr_netmask_valid nm \<longleftrightarrow> (\<exists>k\<le>32. lwip_htonl nm = NOT (mask k))"
proof -
  have "(\<forall>j\<le>31. bit (lwip_htonl nm) j \<longleftrightarrow> k \<le> j) \<longleftrightarrow> lwip_htonl nm = NOT (mask k)" (is "?l \<longleftrightarrow> ?r") for k
  proof
    assume ?l
    then show ?r by (intro bit_word_eqI) (auto simp: bit_not_iff bit_mask_iff)
  next
    assume ?r
    then show ?l by (auto simp: bit_not_iff bit_mask_iff)
  qed
  then show ?thesis
    using netmask_loops_bits [of 31 "lwip_htonl nm"]
    by (simp add: ip4_addr_netmask_valid_def one_bit_def)
qed

end
