(* ===== verification/Pbuf.thy ===== *)
theory Pbuf
  imports Lwip_Def
begin

text \<open>
  Packet buffers: \<^verbatim>\<open>lwip/core/pbuf.c\<close> and \<^verbatim>\<open>lwip/include/lwip/pbuf.h\<close>, over an explicit heap. The
  heap maps addresses to \<^verbatim>\<open>struct pbuf\<close> values and to memory blocks; the payload pointer of a pbuf
  is a block and an offset into it. A pbuf that is allocated together with its data
  (\<^verbatim>\<open>PBUF_RAM\<close>, \<^verbatim>\<open>PBUF_POOL\<close>) owns the block with its own address, whose offset 0 is the first byte
  after the struct. A failed \<^verbatim>\<open>LWIP_ASSERT\<close> (which aborts), the use of a null or freed pointer and
  an access outside a block give \<open>None\<close>; \<^verbatim>\<open>LWIP_ERROR\<close> branches return their value. Loops along
  \<^verbatim>\<open>next\<close> carry fuel: an address is handed out once, so a chain never has more pbufs than
  \<open>h_next\<close>, the number of allocations made so far.
\<close>

subsection \<open>The heap\<close>

type_synonym addr = nat
type_synonym ptr = "addr \<times> int"

text \<open>\<open>p_custom\<close> stands for the \<^verbatim>\<open>struct pbuf_custom\<close> tail of a custom pbuf. The only custom pbufs of
  the program are the \<^verbatim>\<open>pbuf_custom_ref\<close>s of \<^verbatim>\<open>ip4_frag.c\<close>: \<open>Some original\<close> says that
  \<^verbatim>\<open>custom_free_function\<close> is \<^verbatim>\<open>ipfrag_free_pbuf_custom\<close> with that \<^verbatim>\<open>original\<close> pointer, \<open>None\<close> that no
  function is set.\<close>

record pbuf =
  p_next :: "addr option"
  p_payload :: "ptr option"
  p_tot_len :: u16
  p_len :: u16
  p_type :: u8
  p_flags :: u8
  p_ref :: u8
  p_if_idx :: u8
  p_custom :: "addr option option"

text \<open>\<open>h_fail n\<close> says whether the \<open>n\<close>-th allocation fails, \<open>h_fill n\<close> what uninitialised memory the
  \<open>n\<close>-th allocation returns.\<close>

record heap =
  h_pbuf :: "addr \<Rightarrow> pbuf option"
  h_mem :: "addr \<Rightarrow> bytes option"
  h_next :: addr
  h_fail :: "nat \<Rightarrow> bool"
  h_fill :: "nat \<Rightarrow> nat \<Rightarrow> u8"
  pbuf_free_ooseq_pending :: bool

definition PBUF_TYPE_FLAG_STRUCT_DATA_CONTIGUOUS :: u8 where "PBUF_TYPE_FLAG_STRUCT_DATA_CONTIGUOUS = 0x80"
definition PBUF_TYPE_ALLOC_SRC_MASK :: u8 where "PBUF_TYPE_ALLOC_SRC_MASK = 0x0F"
definition PBUF_TYPE_ALLOC_SRC_MASK_STD_HEAP :: u8 where "PBUF_TYPE_ALLOC_SRC_MASK_STD_HEAP = 0x00"
definition PBUF_TYPE_ALLOC_SRC_MASK_STD_MEMP_PBUF :: u8 where "PBUF_TYPE_ALLOC_SRC_MASK_STD_MEMP_PBUF = 0x01"
definition PBUF_TYPE_ALLOC_SRC_MASK_STD_MEMP_PBUF_POOL :: u8 where "PBUF_TYPE_ALLOC_SRC_MASK_STD_MEMP_PBUF_POOL = 0x02"
definition PBUF_FLAG_PUSH :: u8 where "PBUF_FLAG_PUSH = 0x01"
definition PBUF_FLAG_IS_CUSTOM :: u8 where "PBUF_FLAG_IS_CUSTOM = 0x02"
definition PBUF_FLAG_TCP_FIN :: u8 where "PBUF_FLAG_TCP_FIN = 0x20"
definition PBUF_POOL_BUFSIZE :: u16 where "PBUF_POOL_BUFSIZE = 1514"

datatype pbuf_layer = PBUF_TRANSPORT | PBUF_IP | PBUF_LINK | PBUF_RAW_TX | PBUF_RAW

fun layer_offset :: "pbuf_layer \<Rightarrow> u16" where
  "layer_offset PBUF_TRANSPORT = 0 + 14 + 20 + 20"
| "layer_offset PBUF_IP = 0 + 14 + 20"
| "layer_offset PBUF_LINK = 0 + 14"
| "layer_offset PBUF_RAW_TX = 0"
| "layer_offset PBUF_RAW = 0"

datatype pbuf_type = PBUF_RAM | PBUF_ROM | PBUF_REF | PBUF_POOL

text \<open>The low byte of the enumeration value, which is what \<^verbatim>\<open>type_internal\<close> keeps.\<close>

fun type_code :: "pbuf_type \<Rightarrow> u8" where
  "type_code PBUF_RAM = 0x80"
| "type_code PBUF_ROM = 0x01"
| "type_code PBUF_REF = 0x41"
| "type_code PBUF_POOL = 0x82"

definition pbuf_get_allocsrc :: "pbuf \<Rightarrow> u8" where
  "pbuf_get_allocsrc b = p_type b AND PBUF_TYPE_ALLOC_SRC_MASK"

subsection \<open>Memory access\<close>

definition set_pbuf :: "addr \<Rightarrow> pbuf \<Rightarrow> heap \<Rightarrow> heap" where
  "set_pbuf a b h = h\<lparr>h_pbuf := (h_pbuf h)(a \<mapsto> b)\<rparr>"

definition set_mem :: "addr \<Rightarrow> bytes \<Rightarrow> heap \<Rightarrow> heap" where
  "set_mem a bs h = h\<lparr>h_mem := (h_mem h)(a \<mapsto> bs)\<rparr>"

text \<open>Reading and writing \<open>n\<close> bytes at \<open>off\<close> from a pointer; the range must lie in its block.\<close>

definition mem_read :: "heap \<Rightarrow> ptr option \<Rightarrow> nat \<Rightarrow> nat \<Rightarrow> bytes option" where
  "mem_read h p off n =
     (if n = 0 then Some []
      else do {
        (blk, o0) \<leftarrow> p;
        bs \<leftarrow> h_mem h blk;
        if 0 \<le> o0 + int off \<and> nat (o0 + int off) + n \<le> length bs
        then Some (slice (nat (o0 + int off)) n bs) else None
      })"

definition mem_write :: "heap \<Rightarrow> ptr option \<Rightarrow> nat \<Rightarrow> bytes \<Rightarrow> heap option" where
  "mem_write h p off ys =
     (if ys = [] then Some h
      else do {
        (blk, o0) \<leftarrow> p;
        bs \<leftarrow> h_mem h blk;
        if 0 \<le> o0 + int off \<and> nat (o0 + int off) + length ys \<le> length bs
        then Some (set_mem blk (overwrite (nat (o0 + int off)) ys bs) h) else None
      })"

text \<open>Allocation of a pbuf with \<open>size\<close> bytes of data area (none for a referencing pbuf). Every call
  uses up an address, also when it fails.\<close>

definition mem_malloc :: "nat option \<Rightarrow> heap \<Rightarrow> addr option \<times> heap" where
  "mem_malloc sz h =
     (let a = h_next h; h' = h\<lparr>h_next := Suc a\<rparr> in
      if h_fail h a then (None, h')
      else (Some a, h'\<lparr>h_mem := (h_mem h)(a := map_option (\<lambda>n. map (h_fill h a) [0..<n]) sz)\<rparr>))"

definition mem_free :: "addr \<Rightarrow> heap \<Rightarrow> heap" where
  "mem_free a h = h\<lparr>h_pbuf := (h_pbuf h)(a := None), h_mem := (h_mem h)(a := None)\<rparr>"

definition advance :: "ptr option \<Rightarrow> int \<Rightarrow> ptr option" where
  "advance p d = map_option (\<lambda>(blk, off). (blk, off + d)) p"

text \<open>The fuel of a walk along \<^verbatim>\<open>next\<close>.\<close>

definition walk :: "heap \<Rightarrow> nat" where
  "walk h = Suc (h_next h)"

subsection \<open>Allocation and release\<close>

definition pbuf_init_alloced_pbuf :: "ptr option \<Rightarrow> u16 \<Rightarrow> u16 \<Rightarrow> pbuf_type \<Rightarrow> u8 \<Rightarrow> pbuf" where
  "pbuf_init_alloced_pbuf payload tot_len len type flags =
     \<lparr>p_next = None, p_payload = payload, p_tot_len = tot_len, p_len = len,
      p_type = type_code type, p_flags = flags, p_ref = 1, p_if_idx = 0, p_custom = None\<rparr>"

definition pbuf_alloc_reference :: "ptr option \<Rightarrow> u16 \<Rightarrow> pbuf_type \<Rightarrow> heap \<Rightarrow> (addr option \<times> heap) option" where
  "pbuf_alloc_reference payload plen type h =
     (if \<not> (type = PBUF_REF \<or> type = PBUF_ROM) then None
      else case mem_malloc None h of
          (None, h) \<Rightarrow> Some (None, h)
        | (Some p, h) \<Rightarrow> Some (Some p, set_pbuf p (pbuf_init_alloced_pbuf payload plen plen type 0) h))"

text \<open>\<^verbatim>\<open>pbuf_free\<close>: the loop, and for a custom pbuf the call of \<^verbatim>\<open>ipfrag_free_pbuf_custom\<close>. Freeing a
  pbuf whose count reaches zero removes its struct and its block.\<close>

fun pbuf_free_loop :: "nat \<Rightarrow> addr option \<Rightarrow> u8 \<Rightarrow> heap \<Rightarrow> (u8 \<times> heap) option" where
  "pbuf_free_loop 0 p count h = None"
| "pbuf_free_loop (Suc fuel) None count h = Some (count, h)"
| "pbuf_free_loop (Suc fuel) (Some p) count h =
     do {
       b \<leftarrow> h_pbuf h p;
       if p_ref b > 0 then
         (let ref = p_ref b - 1;
              h = set_pbuf p (b\<lparr>p_ref := ref\<rparr>) h
          in if ref = 0 then
               do {
                 let q = p_next b;
                 h \<leftarrow> (if p_flags b AND PBUF_FLAG_IS_CUSTOM \<noteq> 0 then
                         (case p_custom b of
                            None \<Rightarrow> None
                          | Some None \<Rightarrow> Some (mem_free p h)
                          | Some (Some original) \<Rightarrow>
                              map_option (\<lambda>(c, h). mem_free p h) (pbuf_free_loop fuel (Some original) 0 h))
                       else if pbuf_get_allocsrc b = PBUF_TYPE_ALLOC_SRC_MASK_STD_MEMP_PBUF_POOL then Some (mem_free p h)
                       else if pbuf_get_allocsrc b = PBUF_TYPE_ALLOC_SRC_MASK_STD_MEMP_PBUF then Some (mem_free p h)
                       else if pbuf_get_allocsrc b = PBUF_TYPE_ALLOC_SRC_MASK_STD_HEAP then Some (mem_free p h)
                       else None);
                 pbuf_free_loop fuel q (count + 1) h
               }
             else Some (count, h))
       else None
     }"

definition pbuf_free :: "addr option \<Rightarrow> heap \<Rightarrow> (u8 \<times> heap) option" where
  "pbuf_free p h = (case p of None \<Rightarrow> None | Some a \<Rightarrow> pbuf_free_loop (walk h) (Some a) 0 h)"

text \<open>\<^verbatim>\<open>pbuf_pool_is_empty\<close>, as \<^verbatim>\<open>NO_SYS\<close> compiles it.\<close>

definition pbuf_pool_is_empty :: "heap \<Rightarrow> heap" where
  "pbuf_pool_is_empty h = h\<lparr>pbuf_free_ooseq_pending := True\<rparr>"

text \<open>The \<^verbatim>\<open>PBUF_POOL\<close> loop of \<^verbatim>\<open>pbuf_alloc\<close>: \<open>p\<close> and \<open>last\<close> are the head and the end of the chain
  built so far. \<^verbatim>\<open>MEM_ALIGNMENT\<close> is 1, so aligned sizes are the sizes.\<close>

fun pbuf_pool_loop ::
  "nat \<Rightarrow> addr option \<Rightarrow> addr \<Rightarrow> u16 \<Rightarrow> u16 \<Rightarrow> heap \<Rightarrow> (addr option \<times> heap) option" where
  "pbuf_pool_loop 0 p last_q rem_len offset h = None"
| "pbuf_pool_loop (Suc fuel) p last_q rem_len offset h =
     (case mem_malloc (Some (unat PBUF_POOL_BUFSIZE)) h of
        (None, h) \<Rightarrow>
          (let h = pbuf_pool_is_empty h in
           case p of None \<Rightarrow> Some (None, h)
                   | Some _ \<Rightarrow> map_option (\<lambda>(c, h). (None, h)) (pbuf_free p h))
      | (Some q, h) \<Rightarrow>
          if \<not> PBUF_POOL_BUFSIZE - offset > 0 then None
          else
          (let qlen = min rem_len (PBUF_POOL_BUFSIZE - offset);
               h = set_pbuf q (pbuf_init_alloced_pbuf (Some (q, int (unat offset))) rem_len qlen PBUF_POOL 0) h;
               rem_len = rem_len - qlen
           in do {
             (p, h) \<leftarrow> (case p of
                           None \<Rightarrow> Some (Some q, h)
                         | Some _ \<Rightarrow> do {
                             b \<leftarrow> h_pbuf h last_q;
                             Some (p, set_pbuf last_q (b\<lparr>p_next := Some q\<rparr>) h) });
             if rem_len > 0 then pbuf_pool_loop fuel p q rem_len 0 h else Some (p, h)
           }))"

definition pbuf_alloc :: "pbuf_layer \<Rightarrow> u16 \<Rightarrow> pbuf_type \<Rightarrow> heap \<Rightarrow> (addr option \<times> heap) option" where
  "pbuf_alloc layer plen type h =
     (let offset = layer_offset layer in
      case type of
        PBUF_REF \<Rightarrow> pbuf_alloc_reference None plen type h
      | PBUF_ROM \<Rightarrow> pbuf_alloc_reference None plen type h
      | PBUF_POOL \<Rightarrow> pbuf_pool_loop (Suc (unat plen)) None 0 plen offset h
      | PBUF_RAM \<Rightarrow>
          (let payload_len = offset + plen in
           if payload_len < plen then Some (None, h)
           else case mem_malloc (Some (unat payload_len)) h of
                  (None, h) \<Rightarrow> Some (None, h)
                | (Some p, h) \<Rightarrow>
                    Some (Some p, set_pbuf p (pbuf_init_alloced_pbuf (Some (p, int (unat offset))) plen plen type 0) h)))"

definition pbuf_alloced_custom ::
  "pbuf_layer \<Rightarrow> u16 \<Rightarrow> pbuf_type \<Rightarrow> addr \<Rightarrow> addr option \<Rightarrow> ptr option \<Rightarrow> u16 \<Rightarrow> heap \<Rightarrow> addr option \<times> heap" where
  "pbuf_alloced_custom l plen type p custom payload_mem payload_mem_len h =
     (let offset = layer_offset l in
      if unat offset + unat plen > unat payload_mem_len then (None, h)
      else
        (let payload = advance payload_mem (int (unat offset));
             b = pbuf_init_alloced_pbuf payload plen plen type PBUF_FLAG_IS_CUSTOM
         in (Some p, set_pbuf p (b\<lparr>p_custom := Some custom\<rparr>) h)))"

subsection \<open>Headers\<close>

definition pbuf_add_header_impl :: "addr option \<Rightarrow> nat \<Rightarrow> bool \<Rightarrow> heap \<Rightarrow> (u8 \<times> heap) option" where
  "pbuf_add_header_impl p header_size_increment force h =
     do {
       a \<leftarrow> p;
       if header_size_increment > 0xFFFF then Some (1, h)
       else if header_size_increment = 0 then Some (0, h)
       else do {
         b \<leftarrow> h_pbuf h a;
         let increment_magnitude = (of_nat header_size_increment :: u16);
         if increment_magnitude + p_tot_len b < increment_magnitude then Some (1, h)
         else do {
           let payload = advance (p_payload b) (- int header_size_increment);
           let h' = set_pbuf a (b\<lparr>p_payload := payload, p_len := p_len b + increment_magnitude,
                                  p_tot_len := p_tot_len b + increment_magnitude\<rparr>) h;
           if p_type b AND PBUF_TYPE_FLAG_STRUCT_DATA_CONTIGUOUS \<noteq> 0 then
             do {
               (blk, off) \<leftarrow> payload;
               if blk \<noteq> a then None
               else if off < 0 then Some (1, h)
               else Some (0, h')
             }
           else if force then Some (0, h')
           else Some (1, h)
         }
       }
     }"

definition pbuf_add_header :: "addr option \<Rightarrow> nat \<Rightarrow> heap \<Rightarrow> (u8 \<times> heap) option" where
  "pbuf_add_header p header_size_increment h = pbuf_add_header_impl p header_size_increment False h"

definition pbuf_add_header_force :: "addr option \<Rightarrow> nat \<Rightarrow> heap \<Rightarrow> (u8 \<times> heap) option" where
  "pbuf_add_header_force p header_size_increment h = pbuf_add_header_impl p header_size_increment True h"

definition pbuf_remove_header :: "addr option \<Rightarrow> nat \<Rightarrow> heap \<Rightarrow> (u8 \<times> heap) option" where
  "pbuf_remove_header p header_size_decrement h =
     do {
       a \<leftarrow> p;
       if header_size_decrement > 0xFFFF then Some (1, h)
       else if header_size_decrement = 0 then Some (0, h)
       else do {
         b \<leftarrow> h_pbuf h a;
         let increment_magnitude = (of_nat header_size_decrement :: u16);
         if \<not> increment_magnitude \<le> p_len b then Some (1, h)
         else Some (0, set_pbuf a (b\<lparr>p_payload := advance (p_payload b) (int header_size_decrement),
                                     p_len := p_len b - increment_magnitude,
                                     p_tot_len := p_tot_len b - increment_magnitude\<rparr>) h)
       }
     }"

text \<open>The header size of \<^verbatim>\<open>pbuf_header\<close> is an \<^verbatim>\<open>s16_t\<close>, given here as the signed value of the word.\<close>

definition pbuf_header_impl :: "addr option \<Rightarrow> 16 word \<Rightarrow> bool \<Rightarrow> heap \<Rightarrow> (u8 \<times> heap) option" where
  "pbuf_header_impl p header_size_increment force h =
     (if sint header_size_increment < 0 then pbuf_remove_header p (nat (- sint header_size_increment)) h
      else pbuf_add_header_impl p (nat (sint header_size_increment)) force h)"

definition pbuf_header :: "addr option \<Rightarrow> 16 word \<Rightarrow> heap \<Rightarrow> (u8 \<times> heap) option" where
  "pbuf_header p header_size_increment h = pbuf_header_impl p header_size_increment False h"

definition pbuf_header_force :: "addr option \<Rightarrow> 16 word \<Rightarrow> heap \<Rightarrow> (u8 \<times> heap) option" where
  "pbuf_header_force p header_size_increment h = pbuf_header_impl p header_size_increment True h"

fun pbuf_free_header_loop :: "nat \<Rightarrow> addr option \<Rightarrow> u16 \<Rightarrow> heap \<Rightarrow> (addr option \<times> heap) option" where
  "pbuf_free_header_loop 0 p free_left h = None"
| "pbuf_free_header_loop (Suc fuel) p free_left h =
     (if free_left = 0 then Some (p, h)
      else case p of
          None \<Rightarrow> Some (p, h)
        | Some f \<Rightarrow>
            do {
              b \<leftarrow> h_pbuf h f;
              if free_left \<ge> p_len b then
                do {
                  let free_left = free_left - p_len b;
                  let p = p_next b;
                  (c, h) \<leftarrow> pbuf_free (Some f) (set_pbuf f (b\<lparr>p_next := None\<rparr>) h);
                  pbuf_free_header_loop fuel p free_left h
                }
              else
                do {
                  (r, h) \<leftarrow> pbuf_remove_header p (unat free_left) h;
                  pbuf_free_header_loop fuel p 0 h
                }
            })"

definition pbuf_free_header :: "addr option \<Rightarrow> u16 \<Rightarrow> heap \<Rightarrow> (addr option \<times> heap) option" where
  "pbuf_free_header q sz h = pbuf_free_header_loop (Suc (walk h)) q sz h"

subsection \<open>Shrinking\<close>

text \<open>The walk of \<^verbatim>\<open>pbuf_realloc\<close> to the new last pbuf; \<^verbatim>\<open>mem_trim\<close> of the libc heap returns its
  argument, so the trimming step leaves the model's heap unchanged.\<close>

fun pbuf_realloc_loop :: "nat \<Rightarrow> addr \<Rightarrow> u16 \<Rightarrow> u16 \<Rightarrow> heap \<Rightarrow> (addr \<times> u16 \<times> heap) option" where
  "pbuf_realloc_loop 0 q rem_len shrink h = None"
| "pbuf_realloc_loop (Suc fuel) q rem_len shrink h =
     do {
       b \<leftarrow> h_pbuf h q;
       if rem_len > p_len b then
         do {
           let h = set_pbuf q (b\<lparr>p_tot_len := p_tot_len b - shrink\<rparr>) h;
           q' \<leftarrow> p_next b;
           pbuf_realloc_loop fuel q' (rem_len - p_len b) shrink h
         }
       else Some (q, rem_len, h)
     }"

definition pbuf_realloc :: "addr option \<Rightarrow> u16 \<Rightarrow> heap \<Rightarrow> heap option" where
  "pbuf_realloc p new_len h =
     do {
       a \<leftarrow> p;
       b \<leftarrow> h_pbuf h a;
       if new_len \<ge> p_tot_len b then Some h
       else do {
         let shrink = p_tot_len b - new_len;
         (q, rem_len, h) \<leftarrow> pbuf_realloc_loop (walk h) a new_len shrink h;
         b \<leftarrow> h_pbuf h q;
         let h = set_pbuf q (b\<lparr>p_len := rem_len, p_tot_len := rem_len\<rparr>) h;
         h \<leftarrow> (case p_next b of None \<Rightarrow> Some h | Some n \<Rightarrow> map_option snd (pbuf_free (Some n) h));
         b \<leftarrow> h_pbuf h q;
         Some (set_pbuf q (b\<lparr>p_next := None\<rparr>) h)
       }
     }"

subsection \<open>Chains\<close>

fun pbuf_clen_loop :: "nat \<Rightarrow> addr option \<Rightarrow> u16 \<Rightarrow> heap \<Rightarrow> u16 option" where
  "pbuf_clen_loop 0 p len h = None"
| "pbuf_clen_loop (Suc fuel) None len h = Some len"
| "pbuf_clen_loop (Suc fuel) (Some p) len h =
     do { b \<leftarrow> h_pbuf h p; pbuf_clen_loop fuel (p_next b) (len + 1) h }"

definition pbuf_clen :: "addr option \<Rightarrow> heap \<Rightarrow> u16 option" where
  "pbuf_clen p h = pbuf_clen_loop (walk h) p 0 h"

definition pbuf_ref :: "addr option \<Rightarrow> heap \<Rightarrow> heap option" where
  "pbuf_ref p h =
     (case p of
        None \<Rightarrow> Some h
      | Some a \<Rightarrow> do {
          b \<leftarrow> h_pbuf h a;
          let ref = p_ref b + 1;
          if ref > 0 then Some (set_pbuf a (b\<lparr>p_ref := ref\<rparr>) h) else None
        })"

fun pbuf_cat_loop :: "nat \<Rightarrow> addr \<Rightarrow> addr \<Rightarrow> heap \<Rightarrow> heap option" where
  "pbuf_cat_loop 0 p t h = None"
| "pbuf_cat_loop (Suc fuel) p t h =
     do {
       b \<leftarrow> h_pbuf h p;
       c \<leftarrow> h_pbuf h t;
       case p_next b of
         Some n \<Rightarrow> pbuf_cat_loop fuel n t (set_pbuf p (b\<lparr>p_tot_len := p_tot_len b + p_tot_len c\<rparr>) h)
       | None \<Rightarrow>
           if p_tot_len b \<noteq> p_len b then None
           else Some (set_pbuf p (b\<lparr>p_tot_len := p_tot_len b + p_tot_len c, p_next := Some t\<rparr>) h)
     }"

definition pbuf_cat :: "addr option \<Rightarrow> addr option \<Rightarrow> heap \<Rightarrow> heap option" where
  "pbuf_cat h t hp =
     (case (h, t) of
        (Some a, Some b) \<Rightarrow> pbuf_cat_loop (walk hp) a b hp
      | _ \<Rightarrow> Some hp)"

definition pbuf_chain :: "addr option \<Rightarrow> addr option \<Rightarrow> heap \<Rightarrow> heap option" where
  "pbuf_chain h t hp = do { hp \<leftarrow> pbuf_cat h t hp; pbuf_ref t hp }"

definition pbuf_dechain :: "addr \<Rightarrow> heap \<Rightarrow> (addr option \<times> heap) option" where
  "pbuf_dechain p h =
     do {
       b \<leftarrow> h_pbuf h p;
       case p_next b of
         None \<Rightarrow> if p_tot_len b = p_len b then Some (None, h) else None
       | Some q \<Rightarrow>
           do {
             c \<leftarrow> h_pbuf h q;
             if int (unat (p_tot_len c)) \<noteq> int (unat (p_tot_len b)) - int (unat (p_len b)) then None
             else do {
               let h = set_pbuf q (c\<lparr>p_tot_len := p_tot_len b - p_len b\<rparr>) h;
               b \<leftarrow> h_pbuf h p;
               let h = set_pbuf p (b\<lparr>p_next := None, p_tot_len := p_len b\<rparr>) h;
               (tail_gone, h) \<leftarrow> pbuf_free (Some q) h;
               b \<leftarrow> h_pbuf h p;
               if p_tot_len b = p_len b then Some (if tail_gone > 0 then None else Some q, h) else None
             }
           }
     }"

subsection \<open>Copying\<close>

text \<open>The test of \<^verbatim>\<open>pbuf_copy\<close> that a pointer is not the last pbuf of a packet in a queue.\<close>

definition pbuf_in_queue :: "heap \<Rightarrow> addr option \<Rightarrow> bool option" where
  "pbuf_in_queue h p =
     (case p of None \<Rightarrow> Some False
      | Some a \<Rightarrow> do { b \<leftarrow> h_pbuf h a; Some (p_len b = p_tot_len b \<and> p_next b \<noteq> None) })"

text \<open>One pass of the loop of \<^verbatim>\<open>pbuf_copy\<close>: \<open>Inl\<close> is a return value, \<open>Inr\<close> the pointers and
  offsets of the next pass.\<close>

definition pbuf_copy_step ::
  "addr \<Rightarrow> addr \<Rightarrow> nat \<Rightarrow> nat \<Rightarrow> heap \<Rightarrow> ((err_t + (addr \<times> addr \<times> nat \<times> nat)) \<times> heap) option" where
  "pbuf_copy_step p_to p_from offset_to offset_from h =
     do {
       t \<leftarrow> h_pbuf h p_to;
       f \<leftarrow> h_pbuf h p_from;
       let len = (if unat (p_len t) - offset_to \<ge> unat (p_len f) - offset_from
                  then unat (p_len f) - offset_from else unat (p_len t) - offset_to);
       bs \<leftarrow> mem_read h (p_payload f) offset_from len;
       h \<leftarrow> mem_write h (p_payload t) offset_to bs;
       let offset_to = offset_to + len;
       let offset_from = offset_from + len;
       if \<not> (offset_to \<le> unat (p_len t)) \<or> \<not> (offset_from \<le> unat (p_len f)) then None
       else do {
         let from_done = (offset_from \<ge> unat (p_len f));
         let from = (if from_done then p_next f else Some p_from);
         let offset_from = (if from_done then 0 else offset_from);
         let to_done = (offset_to = unat (p_len t));
         let to = (if to_done then p_next t else Some p_to);
         let offset_to = (if to_done then 0 else offset_to);
         if to_done \<and> to = None \<and> from \<noteq> None then Some (Inl ERR_ARG, h)
         else do {
           from_queue \<leftarrow> pbuf_in_queue h from;
           to_queue \<leftarrow> pbuf_in_queue h to;
           if from_queue \<or> to_queue then Some (Inl ERR_VAL, h)
           else case from of
               None \<Rightarrow> Some (Inl ERR_OK, h)
             | Some a \<Rightarrow> do { c \<leftarrow> to; Some (Inr (c, a, offset_to, offset_from), h) }
         }
       }
     }"

fun pbuf_copy_loop ::
  "nat \<Rightarrow> addr \<Rightarrow> addr \<Rightarrow> nat \<Rightarrow> nat \<Rightarrow> heap \<Rightarrow> (err_t \<times> heap) option" where
  "pbuf_copy_loop 0 p_to p_from offset_to offset_from h = None"
| "pbuf_copy_loop (Suc fuel) p_to p_from offset_to offset_from h =
     (case pbuf_copy_step p_to p_from offset_to offset_from h of
        None \<Rightarrow> None
      | Some (Inl err, h) \<Rightarrow> Some (err, h)
      | Some (Inr (p_to, p_from, offset_to, offset_from), h) \<Rightarrow>
          pbuf_copy_loop fuel p_to p_from offset_to offset_from h)"

definition pbuf_copy :: "addr option \<Rightarrow> addr option \<Rightarrow> heap \<Rightarrow> (err_t \<times> heap) option" where
  "pbuf_copy p_to p_from h =
     (case (p_to, p_from) of
        (Some t, Some f) \<Rightarrow>
          do {
            tb \<leftarrow> h_pbuf h t;
            fb \<leftarrow> h_pbuf h f;
            if p_tot_len tb \<ge> p_tot_len fb then pbuf_copy_loop (2 * walk h) t f 0 0 h
            else Some (ERR_ARG, h)
          }
      | _ \<Rightarrow> Some (ERR_ARG, h))"

text \<open>\<^verbatim>\<open>pbuf_copy_partial\<close> writes to an application buffer; the model returns the bytes written from
  its start, so that \<^verbatim>\<open>left\<close> is their number, and the count \<^verbatim>\<open>copied_total\<close>.\<close>

fun pbuf_copy_partial_loop ::
  "nat \<Rightarrow> addr option \<Rightarrow> bytes \<Rightarrow> u16 \<Rightarrow> u16 \<Rightarrow> u16 \<Rightarrow> heap \<Rightarrow> (u16 \<times> bytes) option" where
  "pbuf_copy_partial_loop 0 p out copied_total len offset h = None"
| "pbuf_copy_partial_loop (Suc fuel) p out copied_total len offset h =
     (case p of
        None \<Rightarrow> Some (copied_total, out)
      | Some a \<Rightarrow>
          if len = 0 then Some (copied_total, out)
          else do {
            b \<leftarrow> h_pbuf h a;
            if offset \<noteq> 0 \<and> offset \<ge> p_len b then
              pbuf_copy_partial_loop fuel (p_next b) out copied_total len (offset - p_len b) h
            else do {
              let buf_copy_len = p_len b - offset;
              let buf_copy_len = (if buf_copy_len > len then len else buf_copy_len);
              bs \<leftarrow> mem_read h (p_payload b) (unat offset) (unat buf_copy_len);
              pbuf_copy_partial_loop fuel (p_next b) (out @ bs) (copied_total + buf_copy_len) (len - buf_copy_len) 0 h
            }
          })"

definition pbuf_copy_partial :: "addr option \<Rightarrow> u16 \<Rightarrow> u16 \<Rightarrow> heap \<Rightarrow> (u16 \<times> bytes) option" where
  "pbuf_copy_partial buf len offset h =
     (case buf of None \<Rightarrow> Some (0, [])
      | Some _ \<Rightarrow> pbuf_copy_partial_loop (walk h) buf [] 0 len offset h)"

fun pbuf_skip_loop :: "nat \<Rightarrow> addr option \<Rightarrow> u16 \<Rightarrow> heap \<Rightarrow> (addr option \<times> u16) option" where
  "pbuf_skip_loop 0 q offset_left h = None"
| "pbuf_skip_loop (Suc fuel) None offset_left h = Some (None, offset_left)"
| "pbuf_skip_loop (Suc fuel) (Some q) offset_left h =
     do {
       b \<leftarrow> h_pbuf h q;
       if p_len b \<le> offset_left then pbuf_skip_loop fuel (p_next b) (offset_left - p_len b) h
       else Some (Some q, offset_left)
     }"

definition pbuf_skip_const :: "addr option \<Rightarrow> u16 \<Rightarrow> heap \<Rightarrow> (addr option \<times> u16) option" where
  "pbuf_skip_const p in_offset h = pbuf_skip_loop (walk h) p in_offset h"

definition pbuf_skip :: "addr option \<Rightarrow> u16 \<Rightarrow> heap \<Rightarrow> (addr option \<times> u16) option" where
  "pbuf_skip p in_offset h = pbuf_skip_const p in_offset h"

text \<open>The result of \<^verbatim>\<open>pbuf_get_contiguous\<close>: a pointer into the chain, or the application's buffer.\<close>

datatype contiguous = Payload_At "ptr option" | Copied bytes

definition pbuf_get_contiguous :: "addr option \<Rightarrow> nat \<Rightarrow> u16 \<Rightarrow> u16 \<Rightarrow> heap \<Rightarrow> contiguous option option" where
  "pbuf_get_contiguous p bufsize len offset h =
     (if p = None then Some None
      else if \<not> bufsize \<ge> unat len then Some None
      else do {
        (q, out_offset) \<leftarrow> pbuf_skip_const p offset h;
        case q of
          None \<Rightarrow> Some None
        | Some a \<Rightarrow>
            do {
              b \<leftarrow> h_pbuf h a;
              if unat (p_len b) \<ge> unat out_offset + unat len
              then Some (Some (Payload_At (advance (p_payload b) (int (unat out_offset)))))
              else do {
                (n, bs) \<leftarrow> pbuf_copy_partial q len out_offset h;
                if n \<noteq> len then Some None else Some (Some (Copied bs))
              }
            }
      })"

fun pbuf_take_loop :: "nat \<Rightarrow> addr option \<Rightarrow> bytes \<Rightarrow> heap \<Rightarrow> heap option" where
  "pbuf_take_loop 0 p data h = None"
| "pbuf_take_loop (Suc fuel) p data h =
     (if data = [] then Some h
      else do {
        a \<leftarrow> p;
        b \<leftarrow> h_pbuf h a;
        let buf_copy_len = min (length data) (unat (p_len b));
        h \<leftarrow> mem_write h (p_payload b) 0 (take buf_copy_len data);
        pbuf_take_loop fuel (p_next b) (drop buf_copy_len data) h
      })"

text \<open>\<open>data\<close> is the application's buffer with \<open>len\<close> its length, which is an \<^verbatim>\<open>u16_t\<close>.\<close>

definition pbuf_take :: "addr option \<Rightarrow> bytes \<Rightarrow> heap \<Rightarrow> (err_t \<times> heap) option" where
  "pbuf_take buf data h =
     (case buf of
        None \<Rightarrow> Some (ERR_ARG, h)
      | Some a \<Rightarrow> do {
          b \<leftarrow> h_pbuf h a;
          if \<not> unat (p_tot_len b) \<ge> length data then Some (ERR_MEM, h)
          else map_option (\<lambda>h. (ERR_OK, h)) (pbuf_take_loop (Suc (walk h)) buf data h)
        })"

definition pbuf_take_at :: "addr option \<Rightarrow> bytes \<Rightarrow> u16 \<Rightarrow> heap \<Rightarrow> (err_t \<times> heap) option" where
  "pbuf_take_at buf data offset h =
     do {
       (q, target_offset) \<leftarrow> pbuf_skip buf offset h;
       case q of
         None \<Rightarrow> Some (ERR_MEM, h)
       | Some a \<Rightarrow>
           do {
             b \<leftarrow> h_pbuf h a;
             if unat (p_tot_len b) \<ge> unat target_offset + length data then
               if \<not> target_offset < p_len b then None
               else do {
                 let first_copy_len = min (unat (p_len b) - unat target_offset) (length data);
                 h \<leftarrow> mem_write h (p_payload b) (unat target_offset) (take first_copy_len data);
                 if length data - first_copy_len > 0
                 then pbuf_take (p_next b) (drop first_copy_len data) h
                 else Some (ERR_OK, h)
               }
             else Some (ERR_MEM, h)
           }
     }"

definition pbuf_clone :: "pbuf_layer \<Rightarrow> pbuf_type \<Rightarrow> addr \<Rightarrow> heap \<Rightarrow> (addr option \<times> heap) option" where
  "pbuf_clone layer type p h =
     do {
       b \<leftarrow> h_pbuf h p;
       (q, h) \<leftarrow> pbuf_alloc layer (p_tot_len b) type h;
       case q of
         None \<Rightarrow> Some (None, h)
       | Some _ \<Rightarrow> do {
           (err, h) \<leftarrow> pbuf_copy q (Some p) h;
           if err = ERR_OK then Some (q, h) else None
         }
     }"

definition pbuf_coalesce :: "addr \<Rightarrow> pbuf_layer \<Rightarrow> heap \<Rightarrow> (addr option \<times> heap) option" where
  "pbuf_coalesce p layer h =
     do {
       b \<leftarrow> h_pbuf h p;
       if p_next b = None then Some (Some p, h)
       else do {
         (q, h) \<leftarrow> pbuf_clone layer PBUF_RAM p h;
         case q of
           None \<Rightarrow> Some (Some p, h)
         | Some _ \<Rightarrow> do { (c, h) \<leftarrow> pbuf_free (Some p) h; Some (q, h) }
       }
     }"

subsection \<open>Bytes and searches\<close>

text \<open>\<^verbatim>\<open>pbuf_try_get_at\<close>: the byte, or \<open>None\<close> inside \<open>Some\<close> for a negative return.\<close>

definition pbuf_try_get_at :: "addr option \<Rightarrow> u16 \<Rightarrow> heap \<Rightarrow> u8 option option" where
  "pbuf_try_get_at p offset h =
     do {
       (q, q_idx) \<leftarrow> pbuf_skip_const p offset h;
       case q of
         None \<Rightarrow> Some None
       | Some a \<Rightarrow> do {
           b \<leftarrow> h_pbuf h a;
           if p_len b > q_idx then map_option (\<lambda>bs. Some (hd bs)) (mem_read h (p_payload b) (unat q_idx) 1)
           else Some None
         }
     }"

definition pbuf_get_at :: "addr option \<Rightarrow> u16 \<Rightarrow> heap \<Rightarrow> u8 option" where
  "pbuf_get_at p offset h =
     map_option (\<lambda>ret. case ret of Some v \<Rightarrow> v | None \<Rightarrow> 0) (pbuf_try_get_at p offset h)"

definition pbuf_put_at :: "addr option \<Rightarrow> u16 \<Rightarrow> u8 \<Rightarrow> heap \<Rightarrow> heap option" where
  "pbuf_put_at p offset data h =
     do {
       (q, q_idx) \<leftarrow> pbuf_skip p offset h;
       case q of
         None \<Rightarrow> Some h
       | Some a \<Rightarrow> do {
           b \<leftarrow> h_pbuf h a;
           if p_len b > q_idx then mem_write h (p_payload b) (unat q_idx) [data] else Some h
         }
     }"

text \<open>The comparison loop of \<^verbatim>\<open>pbuf_memcmp\<close> from index \<open>i\<close>, over the rest of \<^verbatim>\<open>s2\<close>.\<close>

fun pbuf_memcmp_loop :: "addr option \<Rightarrow> u16 \<Rightarrow> nat \<Rightarrow> bytes \<Rightarrow> heap \<Rightarrow> u16 option" where
  "pbuf_memcmp_loop q start i [] h = Some 0"
| "pbuf_memcmp_loop q start i (b # s2) h =
     do {
       a \<leftarrow> pbuf_get_at q (start + of_nat i) h;
       if a \<noteq> b then Some (of_nat (min (i + 1) 0xFFFF))
       else pbuf_memcmp_loop q start (Suc i) s2 h
     }"

definition pbuf_memcmp :: "addr \<Rightarrow> u16 \<Rightarrow> bytes \<Rightarrow> heap \<Rightarrow> u16 option" where
  "pbuf_memcmp p offset s2 h =
     do {
       b \<leftarrow> h_pbuf h p;
       if unat (p_tot_len b) < unat offset + length s2 then Some 0xffff
       else do {
         (q, start) \<leftarrow> pbuf_skip_loop (walk h) (Some p) offset h;
         pbuf_memcmp_loop q start 0 s2 h
       }
     }"

fun pbuf_memfind_loop :: "nat \<Rightarrow> addr \<Rightarrow> bytes \<Rightarrow> u16 \<Rightarrow> u16 \<Rightarrow> heap \<Rightarrow> u16 option" where
  "pbuf_memfind_loop 0 p mem max_cmp_start i h = None"
| "pbuf_memfind_loop (Suc fuel) p mem max_cmp_start i h =
     (if i \<le> max_cmp_start then
        do {
          plus \<leftarrow> pbuf_memcmp p i mem h;
          if plus = 0 then Some i else pbuf_memfind_loop fuel p mem max_cmp_start (i + 1) h
        }
      else Some 0xFFFF)"

definition pbuf_memfind :: "addr \<Rightarrow> bytes \<Rightarrow> u16 \<Rightarrow> heap \<Rightarrow> u16 option" where
  "pbuf_memfind p mem start_offset h =
     do {
       b \<leftarrow> h_pbuf h p;
       let max_cmp_start = p_tot_len b - of_nat (length mem);
       if unat (p_tot_len b) \<ge> length mem + unat start_offset
       then pbuf_memfind_loop 0x10001 p mem max_cmp_start start_offset h
       else Some 0xFFFF
     }"

definition pbuf_strstr :: "addr \<Rightarrow> bytes option \<Rightarrow> heap \<Rightarrow> u16 option" where
  "pbuf_strstr p substr h =
     (case substr of
        None \<Rightarrow> Some 0xFFFF
      | Some s \<Rightarrow>
          if char0 s = 0 then Some 0xFFFF
          else do {
            b \<leftarrow> h_pbuf h p;
            if p_tot_len b = 0xFFFF then Some 0xFFFF
            else if length s \<ge> 0xFFFF then Some 0xFFFF
            else pbuf_memfind p s 0 h
          })"

end
