(* ===== verification/Pbuf_Chain.thy ===== *)
theory Pbuf_Chain
  imports Pbuf
begin

text \<open>
  Well-formed pbuf chains and the operations that only read them. \<open>pchain h p as\<close> says that the
  pbufs at the addresses \<open>as\<close> are linked from \<open>p\<close>, that every payload lies in its block and that
  every \<^verbatim>\<open>tot_len\<close> is the number of bytes from there to the end; \<open>cdata h as\<close> are these bytes. Each
  reading operation is shown to be a function of the bytes alone.
\<close>

subsection \<open>Chains\<close>

definition pay_ok :: "heap \<Rightarrow> pbuf \<Rightarrow> bool" where
  "pay_ok h b =
     (p_len b = 0 \<or>
      (case p_payload b of
         None \<Rightarrow> False
       | Some (blk, off) \<Rightarrow>
           (case h_mem h blk of
              None \<Rightarrow> False
            | Some bs \<Rightarrow> 0 \<le> off \<and> nat off + unat (p_len b) \<le> length bs)))"

definition pdata :: "heap \<Rightarrow> pbuf \<Rightarrow> bytes" where
  "pdata h b =
     (case p_payload b of
        None \<Rightarrow> []
      | Some (blk, off) \<Rightarrow>
          (case h_mem h blk of None \<Rightarrow> [] | Some bs \<Rightarrow> slice (nat off) (unat (p_len b)) bs))"

definition adata :: "heap \<Rightarrow> addr \<Rightarrow> bytes" where
  "adata h a = (case h_pbuf h a of None \<Rightarrow> [] | Some b \<Rightarrow> pdata h b)"

definition cdata :: "heap \<Rightarrow> addr list \<Rightarrow> bytes" where
  "cdata h as = concat (map (adata h) as)"

fun pchain :: "heap \<Rightarrow> addr option \<Rightarrow> addr list \<Rightarrow> bool" where
  "pchain h p [] = (p = None)"
| "pchain h p (a # as) =
     (p = Some a \<and>
      (case h_pbuf h a of
         None \<Rightarrow> False
       | Some b \<Rightarrow> pay_ok h b \<and> unat (p_tot_len b) = length (cdata h (a # as)) \<and> pchain h (p_next b) as))"

definition heap_ok :: "heap \<Rightarrow> bool" where
  "heap_ok h = (\<forall>a \<ge> h_next h. h_pbuf h a = None \<and> h_mem h a = None)"

lemma cdata_simps [simp]:
  "cdata h [] = []" "cdata h (a # as) = adata h a @ cdata h as"
  "cdata h (as @ bs) = cdata h as @ cdata h bs"
  by (simp_all add: cdata_def)

lemma adata_Some [simp]: "h_pbuf h a = Some b \<Longrightarrow> adata h a = pdata h b"
  by (simp add: adata_def)

lemma length_pdata: "pay_ok h b \<Longrightarrow> length (pdata h b) = unat (p_len b)"
  by (auto simp: pay_ok_def pdata_def slice_def split: option.splits)

lemma pchain_ConsE:
  assumes "pchain h p (a # as)"
  obtains b where "p = Some a" "h_pbuf h a = Some b" "pay_ok h b" "pchain h (p_next b) as"
    "unat (p_tot_len b) = unat (p_len b) + length (cdata h as)" "adata h a = pdata h b"
    "length (pdata h b) = unat (p_len b)"
  using assms by (auto split: option.splits simp: length_pdata)

lemma pchain_None [simp]: "pchain h None as \<longleftrightarrow> as = []"
  by (cases as) auto

lemma pchain_append:
  "pchain h p (as @ bs) \<Longrightarrow> \<exists>q. pchain h q bs"
  by (induction as arbitrary: p) (auto split: option.splits)

lemma pchain_unique: "pchain h p as \<Longrightarrow> pchain h p bs \<Longrightarrow> as = bs"
proof (induction as arbitrary: p bs)
  case (Cons a as)
  then show ?case by (cases bs) (auto split: option.splits)
qed auto

lemma pchain_distinct: "pchain h p as \<Longrightarrow> distinct as"
proof (induction as arbitrary: p)
  case (Cons a as)
  obtain b where b: "h_pbuf h a = Some b" "pchain h (p_next b) as"
    using Cons.prems by (rule pchain_ConsE)
  have "a \<notin> set as"
  proof
    assume "a \<in> set as"
    then obtain xs ys where s: "as = xs @ a # ys" by (meson split_list)
    then obtain q where "pchain h q (a # ys)" using pchain_append b(2) by blast
    then have "pchain h (p_next b) ys" using b(1) by simp
    then have "ys = as" using pchain_unique b(2) by blast
    then show False using s by simp
  qed
  then show ?case using Cons.IH b(2) by simp
qed simp

lemma pchain_live: "pchain h p as \<Longrightarrow> a \<in> set as \<Longrightarrow> \<exists>b. h_pbuf h a = Some b"
  by (induction as arbitrary: p) (auto split: option.splits)

lemma pchain_fuel:
  assumes "heap_ok h" "pchain h p as"
  shows "length as < walk h"
proof -
  have "set as \<subseteq> {..<h_next h}"
  proof
    fix a assume "a \<in> set as"
    then have "h_pbuf h a \<noteq> None" using pchain_live [OF assms(2)] by auto
    then show "a \<in> {..<h_next h}" using assms(1) by (auto simp: heap_ok_def not_less [symmetric])
  qed
  then have "card (set as) \<le> h_next h" using subset_eq_atLeast0_lessThan_card [of "set as" "h_next h"]
    by (simp add: lessThan_atLeast0)
  then show ?thesis using distinct_card [OF pchain_distinct [OF assms(2)]] by (simp add: walk_def)
qed

lemma pchain_length_lt: "pchain h p as \<Longrightarrow> length (cdata h as) < 65536"
proof (cases as)
  case (Cons a xs)
  assume "pchain h p as"
  then obtain b where "h_pbuf h a = Some b" "unat (p_tot_len b) = unat (p_len b) + length (cdata h xs)"
    "adata h a = pdata h b" "length (pdata h b) = unat (p_len b)"
    unfolding Cons by (rule pchain_ConsE)
  then show ?thesis using unat_u16_lt [of "p_tot_len b"] Cons by simp
qed simp

lemma mem_read_pdata:
  assumes "pay_ok h b" "off + n \<le> unat (p_len b)"
  shows "mem_read h (p_payload b) off n = Some (slice off n (pdata h b))"
proof (cases "n = 0")
  case False
  then have "p_len b \<noteq> 0" using assms(2) by auto
  then obtain blk o0 bs where b: "p_payload b = Some (blk, o0)" "h_mem h blk = Some bs"
      "0 \<le> o0" "nat o0 + unat (p_len b) \<le> length bs"
    using assms(1) by (auto simp: pay_ok_def split: option.splits)
  then have "slice (nat (o0 + int off)) n bs = slice off n (slice (nat o0) (unat (p_len b)) bs)"
    using assms(2) by (simp add: slice_def nat_add_distrib take_drop min_def add.commute)
  then show ?thesis using b assms(2) False by (simp add: mem_read_def pdata_def nat_add_distrib)
qed (simp add: mem_read_def)

subsection \<open>Length and position\<close>

lemma pbuf_clen_loop_chain:
  "pchain h p as \<Longrightarrow> length as < fuel \<Longrightarrow> pbuf_clen_loop fuel p n h = Some (n + of_nat (length as))"
proof (induction as arbitrary: p fuel n)
  case Nil
  then show ?case by (cases fuel) simp_all
next
  case (Cons a as)
  then show ?case by (cases fuel) (auto split: option.splits simp: add.assoc)
qed

lemma pbuf_skip_loop_chain:
  "pchain h p as \<Longrightarrow> length as < fuel \<Longrightarrow>
   \<exists>xs ys q o'. pbuf_skip_loop fuel p off h = Some (q, o') \<and> as = xs @ ys \<and> pchain h q ys \<and>
     unat off = length (cdata h xs) + unat o' \<and>
     (\<forall>a zs. ys = a # zs \<longrightarrow> unat o' < length (adata h a))"
proof (induction as arbitrary: p fuel off)
  case Nil
  then show ?case by (cases fuel) auto
next
  case (Cons a as)
  from Cons.prems obtain n where n: "fuel = Suc n" "length as < n" by (cases fuel) auto
  obtain b where b: "p = Some a" "h_pbuf h a = Some b" "pchain h (p_next b) as" "adata h a = pdata h b"
    "length (pdata h b) = unat (p_len b)"
    using Cons.prems(1) by (rule pchain_ConsE)
  show ?case
  proof (cases "p_len b \<le> off")
    case True
    then have "unat (off - p_len b) = unat off - unat (p_len b)" "unat (p_len b) \<le> unat off"
      by (simp_all add: unat_sub_le word_le_nat_alt)
    moreover obtain xs ys q o' where "pbuf_skip_loop n (p_next b) (off - p_len b) h = Some (q, o')"
      "as = xs @ ys" "pchain h q ys" "unat (off - p_len b) = length (cdata h xs) + unat o'"
      "\<forall>a zs. ys = a # zs \<longrightarrow> unat o' < length (adata h a)"
      using Cons.IH [OF b(3) n(2), of "off - p_len b"] by blast
    ultimately show ?thesis
      using b True n by (intro exI [of _ "a # xs"] exI [of _ ys] exI [of _ q] exI [of _ o']) simp
  next
    case False
    then show ?thesis
      using b n Cons.prems(1)
      by (intro exI [of _ "[]"] exI [of _ "a # as"] exI [of _ p] exI [of _ off])
         (auto simp: word_le_nat_alt not_le)
  qed
qed

lemma pbuf_skip_const_chain:
  assumes "heap_ok h" "pchain h p as"
  obtains xs ys q o' where "pbuf_skip_const p off h = Some (q, o')" "as = xs @ ys" "pchain h q ys"
    "unat off = length (cdata h xs) + unat o'"
    "\<And>a zs. ys = a # zs \<Longrightarrow> unat o' < length (adata h a)"
  using pbuf_skip_loop_chain [OF assms(2) pchain_fuel [OF assms], of off]
  by (auto simp: pbuf_skip_const_def)

subsection \<open>Reading bytes\<close>

lemma pbuf_try_get_at_chain:
  assumes "heap_ok h" "pchain h p as"
  shows "pbuf_try_get_at p off h =
    Some (if unat off < length (cdata h as) then Some (cdata h as ! unat off) else None)"
proof -
  obtain xs ys q o' where s: "pbuf_skip_const p off h = Some (q, o')" "as = xs @ ys" "pchain h q ys"
    "unat off = length (cdata h xs) + unat o'" "\<And>a zs. ys = a # zs \<Longrightarrow> unat o' < length (adata h a)"
    using pbuf_skip_const_chain [OF assms] by metis
  show ?thesis
  proof (cases ys)
    case Nil
    then show ?thesis using s by (simp add: pbuf_try_get_at_def)
  next
    case (Cons a zs)
    obtain b where b: "q = Some a" "h_pbuf h a = Some b" "pay_ok h b" "adata h a = pdata h b"
      "length (pdata h b) = unat (p_len b)" using s(3) unfolding Cons by (rule pchain_ConsE)
    have lt: "unat o' < unat (p_len b)" using s(5) [OF Cons] b by simp
    then have "mem_read h (p_payload b) (unat o') 1 = Some [pdata h b ! unat o']"
      using mem_read_pdata [OF b(3), of "unat o'" 1] b(5) by (simp add: slice_def take_Suc hd_drop_conv_nth)
    then show ?thesis
      using s b Cons lt by (simp add: pbuf_try_get_at_def word_less_nat_alt nth_append)
  qed
qed

lemma pbuf_get_at_chain:
  assumes "heap_ok h" "pchain h p as"
  shows "pbuf_get_at p off h =
    Some (if unat off < length (cdata h as) then cdata h as ! unat off else 0)"
  using pbuf_try_get_at_chain [OF assms, of off] by (simp add: pbuf_get_at_def)

lemma pbuf_copy_partial_loop_chain:
  "pchain h p as \<Longrightarrow> length as < fuel \<Longrightarrow>
   pbuf_copy_partial_loop fuel p out n len off h =
     (let r = take (unat len) (drop (unat off) (cdata h as)) in Some (n + of_nat (length r), out @ r))"
proof (induction as arbitrary: p fuel out n len off)
  case Nil
  then show ?case by (cases fuel) (auto simp: Let_def)
next
  case (Cons a as)
  from Cons.prems obtain f where f: "fuel = Suc f" "length as < f" by (cases fuel) auto
  obtain b where b: "p = Some a" "h_pbuf h a = Some b" "pay_ok h b" "pchain h (p_next b) as"
    "adata h a = pdata h b" "length (pdata h b) = unat (p_len b)"
    using Cons.prems(1) by (rule pchain_ConsE)
  consider "len = 0" | "len \<noteq> 0" "off \<noteq> 0 \<and> p_len b \<le> off" | "len \<noteq> 0" "off = 0 \<or> off < p_len b" by force
  then show ?case
  proof cases
    case 1
    then show ?thesis using f b by (simp add: Let_def)
  next
    case 2
    then have "unat (off - p_len b) = unat off - unat (p_len b)" "unat (p_len b) \<le> unat off"
      by (simp_all add: unat_sub_le word_le_nat_alt)
    then show ?thesis using f b 2 Cons.IH [OF b(4) f(2)] by (simp add: Let_def)
  next
    case 3
    let ?c = "if p_len b - off > len then len else p_len b - off"
    have le: "unat off \<le> unat (p_len b)" using 3 by (auto simp: word_less_nat_alt)
    then have "unat (p_len b - off) = unat (p_len b) - unat off" by (simp add: unat_sub_le)
    then have c: "unat ?c = min (unat len) (unat (p_len b) - unat off)"
      by (auto simp: word_less_nat_alt min_def)
    then have l: "unat (len - ?c) = unat len - (unat (p_len b) - unat off)"
      by (subst unat_sub_le) auto
    have r: "mem_read h (p_payload b) (unat off) (unat ?c) = Some (take (unat len) (drop (unat off) (pdata h b)))"
      using mem_read_pdata [OF b(3), of "unat off" "unat ?c"] le b(6) unfolding c slice_def
      by (cases "unat len \<le> unat (p_len b) - unat off") simp_all
    have e: "pbuf_copy_partial_loop fuel p out n len off h =
        pbuf_copy_partial_loop f (p_next b) (out @ take (unat len) (drop (unat off) (pdata h b))) (n + ?c) (len - ?c) 0 h"
      using 3 f b r by (auto simp: Let_def not_le)
    have "?c = of_nat (min (unat len) (unat (p_len b) - unat off))" 
      using arg_cong [OF c, of "of_nat :: nat \<Rightarrow> u16"] by simp
    then show ?thesis
      unfolding e Cons.IH [OF b(4) f(2)] using l le b(5,6) by (simp add: Let_def algebra_simps min_def)
  qed
qed

lemma pbuf_copy_partial_chain:
  assumes "heap_ok h" "pchain h p as"
  shows "pbuf_copy_partial p len off h =
    (let r = take (unat len) (drop (unat off) (cdata h as)) in Some (of_nat (length r), r))"
proof (cases p)
  case None
  then show ?thesis using assms(2) by (simp add: pbuf_copy_partial_def Let_def)
next
  case (Some a)
  then show ?thesis
    using pbuf_copy_partial_loop_chain [OF assms(2) pchain_fuel [OF assms], of "[]" 0 len off]
    by (simp add: pbuf_copy_partial_def)
qed

subsection \<open>Comparing and searching\<close>

text \<open>The first position where two sequences differ, over the length of the second.\<close>

fun first_diff :: "bytes \<Rightarrow> bytes \<Rightarrow> nat option" where
  "first_diff xs [] = None"
| "first_diff xs (y # ys) =
     (if xs \<noteq> [] \<and> hd xs = y then map_option Suc (first_diff (tl xs) ys) else Some 0)"

lemma first_diff_None: "first_diff xs ys = None \<longleftrightarrow> take (length ys) xs = ys"
proof (induction ys arbitrary: xs)
  case (Cons y ys)
  then show ?case by (cases xs) auto
qed simp

lemma first_diff_less: "first_diff xs ys = Some j \<Longrightarrow> j < length ys"
  by (induction ys arbitrary: xs j) (auto split: if_splits)

lemma pbuf_memcmp_loop_chain:
  assumes h: "heap_ok h" "pchain h q ys"
  shows "unat start + i + length s2 \<le> length (cdata h ys) \<Longrightarrow>
    pbuf_memcmp_loop q start i s2 h =
      Some (case first_diff (drop (unat start + i) (cdata h ys)) s2 of
              None \<Rightarrow> 0 | Some j \<Rightarrow> of_nat (i + j + 1))"
proof (induction s2 arbitrary: i)
  case (Cons b s2)
  let ?D = "cdata h ys"
  have lt: "length ?D < 65536" using pchain_length_lt [OF h(2)] .
  have u: "unat (start + of_nat i) = unat start + i"
    using Cons.prems lt by (subst unat_add_u16) (simp_all add: unat_of_nat)
  have d: "drop (unat start + i) ?D = ?D ! (unat start + i) # drop (unat start + Suc i) ?D"
    using Cons.prems by (simp add: Cons_nth_drop_Suc)
  have m: "min i 65534 = i" using Cons.prems lt by simp
  show ?case
    unfolding d using Cons.prems Cons.IH [of "Suc i"]
    by (auto simp: pbuf_get_at_chain [OF h] u m split: option.splits)
qed simp

lemma pbuf_memcmp_chain:
  assumes h: "heap_ok h" "pchain h (Some p) as" and n: "length s2 \<le> 65535"
  shows "pbuf_memcmp p off s2 h =
    Some (if length (cdata h as) < unat off + length s2 then 0xffff
          else case first_diff (drop (unat off) (cdata h as)) s2 of
                 None \<Rightarrow> 0 | Some j \<Rightarrow> of_nat (j + 1))"
proof -
  obtain zs b where a: "as = p # zs" "h_pbuf h p = Some b" "unat (p_tot_len b) = length (cdata h as)"
    using h(2) by (cases as) (auto split: option.splits)
  obtain xs ys q o' where s: "pbuf_skip_const (Some p) off h = Some (q, o')" "as = xs @ ys" "pchain h q ys"
    "unat off = length (cdata h xs) + unat o'"
    using pbuf_skip_const_chain [OF h] by metis
  have d: "drop (unat off) (cdata h as) = drop (unat o') (cdata h ys)"
    using s by simp
  show ?thesis
  proof (cases "length (cdata h as) < unat off + length s2")
    case True
    then show ?thesis using a by (simp add: pbuf_memcmp_def)
  next
    case False
    then have "unat o' + 0 + length s2 \<le> length (cdata h ys)" using s(2,4) by simp
    from pbuf_memcmp_loop_chain [OF h(1) s(3) this] show ?thesis
      using a(2,3) s(1) d False
      by (simp add: pbuf_memcmp_def pbuf_skip_const_def del: cdata_simps split: option.split)
  qed
qed

lemma pbuf_memcmp_zero:
  assumes h: "heap_ok h" "pchain h (Some p) as" and n: "unat off + length s2 \<le> length (cdata h as)"
  shows "\<exists>r. pbuf_memcmp p off s2 h = Some r \<and> (r = 0 \<longleftrightarrow> take (length s2) (drop (unat off) (cdata h as)) = s2)"
proof -
  have lt: "length (cdata h as) < 65536" using pchain_length_lt [OF h(2)] .
  have nz: "(of_nat (Suc j) :: u16) \<noteq> 0" if "j < length s2" for j
    using that n lt by (simp add: word_unat_eq_iff unat_of_nat del: of_nat_Suc)
  show ?thesis
    using pbuf_memcmp_chain [OF h, of s2 off] n lt nz first_diff_None [of "drop (unat off) (cdata h as)" s2]
    by (cases "first_diff (drop (unat off) (cdata h as)) s2") (auto dest!: first_diff_less simp del: of_nat_Suc)
qed

text \<open>The index a search must find: the first at or after \<open>i\<close>.\<close>

definition occurrence :: "bytes \<Rightarrow> bytes \<Rightarrow> nat \<Rightarrow> nat option" where
  "occurrence D pat i = find (\<lambda>j. take (length pat) (drop j D) = pat) [i..<Suc (length D - length pat)]"

lemma pbuf_memfind_loop_chain:
  assumes h: "heap_ok h" "pchain h (Some p) as"
    and m: "length pat \<le> length (cdata h as)" "unat mx = length (cdata h as) - length pat" "unat mx < 65535"
  shows "unat mx + 1 - unat i < fuel \<Longrightarrow>
    pbuf_memfind_loop fuel p pat mx i h =
      Some (case occurrence (cdata h as) pat (unat i) of Some j \<Rightarrow> of_nat j | None \<Rightarrow> 0xFFFF)"
proof (induction fuel arbitrary: i)
  case (Suc fuel)
  show ?case
  proof (cases "i \<le> mx")
    case False
    then have "[unat i..<Suc (length (cdata h as) - length pat)] = []"
      using m by (simp add: word_le_nat_alt)
    then show ?thesis using False by (simp add: occurrence_def)
  next
    case True
    then have le: "unat i \<le> unat mx" by (simp add: word_le_nat_alt)
    obtain r where r: "pbuf_memcmp p i pat h = Some r"
      "r = 0 \<longleftrightarrow> take (length pat) (drop (unat i) (cdata h as)) = pat"
    proof -
      have "unat i + length pat \<le> length (cdata h as)" using le m by linarith
      then show thesis using that pbuf_memcmp_zero [OF h] by blast
    qed
    have u: "unat (i + 1) = Suc (unat i)" using le m by (subst unat_add_u16) auto
    have up: "[unat i..<Suc (length (cdata h as) - length pat)] =
        unat i # [Suc (unat i)..<Suc (length (cdata h as) - length pat)]"
      using le m by (simp add: upt_conv_Cons)
    show ?thesis
      using Suc.IH [of "i + 1"] Suc.prems r True le u
      by (auto simp: occurrence_def up simp del: upt_Suc)
  qed
qed simp

lemma pbuf_memfind_chain:
  assumes h: "heap_ok h" "pchain h (Some p) as" and n: "length pat \<le> 65535"
  shows "pbuf_memfind p pat off h =
    Some (case occurrence (cdata h as) pat (unat off) of Some j \<Rightarrow> of_nat j | None \<Rightarrow> 0xFFFF)"
proof -
  let ?D = "cdata h as"
  obtain zs b where a: "as = p # zs" "h_pbuf h p = Some b" "unat (p_tot_len b) = length ?D"
    using h(2) by (cases as) (auto split: option.splits)
  have lt: "length ?D < 65536" using pchain_length_lt [OF h(2)] .
  let ?mx = "p_tot_len b - of_nat (length pat)"
  consider "length ?D < length pat + unat off" | "length pat + unat off \<le> length ?D" "pat = []"
    | "length pat + unat off \<le> length ?D" "pat \<noteq> []" by linarith
  then show ?thesis
  proof cases
    case 1
    then have "[unat off..<Suc (length ?D - length pat)] = [] \<or> length ?D < length pat" by auto
    then have "occurrence ?D pat (unat off) = None"
      by (auto simp: occurrence_def find_None_iff dest!: arg_cong [where f = length])
    then show ?thesis using 1 a by (simp add: pbuf_memfind_def)
  next
    case 2
    then have "occurrence ?D pat (unat off) = Some (unat off)"
      by (simp add: occurrence_def upt_conv_Cons del: upt_Suc)
    moreover obtain r where "pbuf_memcmp p off [] h = Some r" "r = 0"
      using pbuf_memcmp_zero [OF h, of off "[]"] 2 by auto
    moreover have "off \<le> p_tot_len b" using 2 a by (simp add: word_le_nat_alt)
    ultimately have "pbuf_memfind_loop (Suc n) p [] (p_tot_len b) off h = Some off" for n by simp
    from this [of 65536] show ?thesis
      using \<open>occurrence ?D pat (unat off) = Some (unat off)\<close> 2 a
      by (simp add: pbuf_memfind_def del: pbuf_memfind_loop.simps)
  next
    case 3
    have mx: "unat ?mx = length ?D - length pat"
      using 3 a n by (subst unat_sub_le) (auto simp: unat_of_nat)
    have "0 < length pat" using 3 by simp
    then have "unat ?mx < 65535" "unat ?mx + 1 - unat off < 65537" "length pat \<le> length ?D"
      using mx 3 lt by linarith+
    from pbuf_memfind_loop_chain [OF h this(3) mx this(1,2)] show ?thesis
      using 3 a by (simp add: pbuf_memfind_def del: pbuf_memfind_loop.simps cdata_simps)
  qed
qed

lemma pbuf_get_contiguous_chain:
  assumes h: "heap_ok h" "pchain h (Some p) as" and n: "unat len \<le> bufsize" "0 < unat len"
  shows "\<exists>r. pbuf_get_contiguous (Some p) bufsize len off h = Some r \<and>
    (case r of
       None \<Rightarrow> length (cdata h as) < unat off + unat len
     | Some (Payload_At ptr) \<Rightarrow> unat off + unat len \<le> length (cdata h as) \<and>
         mem_read h ptr 0 (unat len) = Some (slice (unat off) (unat len) (cdata h as))
     | Some (Copied bs) \<Rightarrow> unat off + unat len \<le> length (cdata h as) \<and>
         bs = slice (unat off) (unat len) (cdata h as))"
proof -
  obtain xs ys q o' where s: "pbuf_skip_const (Some p) off h = Some (q, o')" "as = xs @ ys" "pchain h q ys"
    "unat off = length (cdata h xs) + unat o'" "\<And>a zs. ys = a # zs \<Longrightarrow> unat o' < length (adata h a)"
    using pbuf_skip_const_chain [OF h] by metis
  show ?thesis
  proof (cases ys)
    case Nil
    then show ?thesis using s n by (simp add: pbuf_get_contiguous_def)
  next
    case (Cons a zs)
    obtain b where b: "q = Some a" "h_pbuf h a = Some b" "pay_ok h b" "adata h a = pdata h b"
      "length (pdata h b) = unat (p_len b)" using s(3) unfolding Cons by (rule pchain_ConsE)
    have adv: "mem_read h (advance p0 (uint (k :: u16))) 0 m = mem_read h p0 (unat k) m" for p0 k m
    proof (cases p0)
      case (Some x)
      then show ?thesis by (cases "h_mem h (fst x)") (auto simp: mem_read_def advance_def split: prod.splits)
    qed (simp add: mem_read_def advance_def)
    have cp: "pbuf_copy_partial q len o' h =
        (let r = take (unat len) (drop (unat o') (cdata h ys)) in Some (of_nat (length r), r))"
      by (rule pbuf_copy_partial_chain [OF h(1) s(3)])
    have w: "(of_nat k :: u16) = len \<longleftrightarrow> k = unat len" if "k \<le> unat len" for k
      using that unat_u16_lt [of len] by (auto simp: word_unat_eq_iff unat_of_nat)
    show ?thesis
    proof (cases "unat o' + unat len \<le> unat (p_len b)")
      case True
      then show ?thesis
        using s b n Cons mem_read_pdata [OF b(3) True]
        by (simp add: pbuf_get_contiguous_def adv slice_def)
    next
      case False
      then show ?thesis
        using s b n cp w [of "min (length (cdata h ys) - unat o') (unat len)"]
        by (auto simp: pbuf_get_contiguous_def Let_def slice_def min_def split: if_splits)
    qed
  qed
qed

end
