(* ===== verification/Pbuf_Ops.thy ===== *)
theory Pbuf_Ops
  imports Pbuf_Chain
begin

text \<open>
  The operations that change pbuf chains: release and reference counts, headers, concatenation,
  filling, shrinking, allocation and cloning. Each is shown to keep chains well formed and to act on
  their bytes as the corresponding list operation, leaving everything else in the heap as it was.
\<close>

subsection \<open>Frames\<close>

lemma set_pbuf_simps [simp]:
  "h_pbuf (set_pbuf a b h) = (h_pbuf h)(a \<mapsto> b)" "h_mem (set_pbuf a b h) = h_mem h"
  "h_next (set_pbuf a b h) = h_next h" "h_fail (set_pbuf a b h) = h_fail h" "h_fill (set_pbuf a b h) = h_fill h"
  "walk (set_pbuf a b h) = walk h" "pdata (set_pbuf a b h) = pdata h" "pay_ok (set_pbuf a b h) = pay_ok h"
  by (simp_all add: set_pbuf_def walk_def pdata_def pay_ok_def fun_eq_iff split: option.split)

lemma set_mem_simps [simp]:
  "h_pbuf (set_mem a bs h) = h_pbuf h" "h_mem (set_mem a bs h) = (h_mem h)(a \<mapsto> bs)"
  "h_next (set_mem a bs h) = h_next h" "h_fail (set_mem a bs h) = h_fail h" "h_fill (set_mem a bs h) = h_fill h"
  "walk (set_mem a bs h) = walk h"
  by (simp_all add: set_mem_def walk_def)

lemma mem_free_simps [simp]:
  "h_pbuf (mem_free a h) = (h_pbuf h)(a := None)" "h_mem (mem_free a h) = (h_mem h)(a := None)"
  "h_next (mem_free a h) = h_next h" "walk (mem_free a h) = walk h"
  "h_fail (mem_free a h) = h_fail h" "h_fill (mem_free a h) = h_fill h"
  by (simp_all add: mem_free_def walk_def)

lemma mem_free_set_pbuf [simp]: "mem_free a (set_pbuf a b h) = mem_free a h"
  by (simp add: mem_free_def set_pbuf_def)

definition block :: "heap \<Rightarrow> addr \<Rightarrow> addr option" where
  "block h a = (case h_pbuf h a of None \<Rightarrow> None | Some b \<Rightarrow> map_option fst (p_payload b))"

lemma block_Some [simp]: "h_pbuf h a = Some b \<Longrightarrow> block h a = map_option fst (p_payload b)"
  by (simp add: block_def)

text \<open>A chain and its bytes depend only on its own pbufs and blocks.\<close>

definition same_on :: "addr list \<Rightarrow> heap \<Rightarrow> heap \<Rightarrow> bool" where
  "same_on as h h' =
     (\<forall>a\<in>set as. h_pbuf h' a = h_pbuf h a \<and> (\<forall>blk. block h a = Some blk \<longrightarrow> h_mem h' blk = h_mem h blk))"

lemma pdata_same:
  assumes "\<And>blk. map_option fst (p_payload b) = Some blk \<Longrightarrow> h_mem h' blk = h_mem h blk"
  shows "pdata h' b = pdata h b" "pay_ok h' b = pay_ok h b"
  using assms by (auto simp: pdata_def pay_ok_def split: option.splits)

lemma adata_same_on: "same_on as h h' \<Longrightarrow> a \<in> set as \<Longrightarrow> adata h' a = adata h a"
  by (auto simp: same_on_def adata_def split: option.splits intro!: pdata_same)

lemma cdata_same_on: "same_on as h h' \<Longrightarrow> cdata h' as = cdata h as"
  using adata_same_on by (simp add: cdata_def cong: map_cong)

lemma same_on_Cons: "same_on (a # as) h h' \<Longrightarrow> same_on as h h'"
  by (simp add: same_on_def)

lemma pchain_same_on: "pchain h p as \<Longrightarrow> same_on as h h' \<Longrightarrow> pchain h' p as"
proof (induction as arbitrary: p)
  case (Cons a as)
  obtain b where b: "p = Some a" "h_pbuf h a = Some b" "pay_ok h b" "pchain h (p_next b) as"
    "unat (p_tot_len b) = unat (p_len b) + length (cdata h as)" "adata h a = pdata h b"
    "length (pdata h b) = unat (p_len b)"
    using Cons.prems(1) by (rule pchain_ConsE)
  have s: "h_pbuf h' a = Some b" "pdata h' b = pdata h b" "pay_ok h' b"
    using Cons.prems(2) b pdata_same [of b h' h] by (auto simp: same_on_def)
  then show ?case
    using b Cons.IH [OF b(4) same_on_Cons [OF Cons.prems(2)]] cdata_same_on [OF same_on_Cons [OF Cons.prems(2)]]
    by simp
qed simp

subsection \<open>Release\<close>

fun linked :: "heap \<Rightarrow> addr option \<Rightarrow> addr list \<Rightarrow> bool" where
  "linked h p [] = (p = None)"
| "linked h p (a # as) =
     (p = Some a \<and> (case h_pbuf h a of None \<Rightarrow> False | Some b \<Rightarrow> linked h (p_next b) as))"

lemma pchain_linked: "pchain h p as \<Longrightarrow> linked h p as"
  by (induction as arbitrary: p) (auto split: option.splits)

lemma linked_cong: "linked h p as \<Longrightarrow> (\<And>a. a \<in> set as \<Longrightarrow> h_pbuf h' a = h_pbuf h a) \<Longrightarrow> linked h' p as"
  by (induction as arbitrary: p) (auto split: option.splits)

text \<open>A pbuf that \<^verbatim>\<open>pbuf_free\<close> can release: counted, not custom, from one of the three sources.\<close>

definition freeable :: "pbuf \<Rightarrow> bool" where
  "freeable b = (p_ref b > 0 \<and> p_flags b AND PBUF_FLAG_IS_CUSTOM = 0 \<and>
     pbuf_get_allocsrc b \<in> {PBUF_TYPE_ALLOC_SRC_MASK_STD_HEAP, PBUF_TYPE_ALLOC_SRC_MASK_STD_MEMP_PBUF,
                            PBUF_TYPE_ALLOC_SRC_MASK_STD_MEMP_PBUF_POOL})"

definition all_freeable :: "heap \<Rightarrow> addr list \<Rightarrow> bool" where
  "all_freeable h as = (\<forall>a\<in>set as. case h_pbuf h a of None \<Rightarrow> False | Some b \<Rightarrow> freeable b)"

definition ref_of :: "heap \<Rightarrow> addr \<Rightarrow> u8" where
  "ref_of h a = (case h_pbuf h a of None \<Rightarrow> 0 | Some b \<Rightarrow> p_ref b)"

text \<open>What \<^verbatim>\<open>pbuf_free\<close> promises: the pbufs before the first one that is referenced from elsewhere go,
  and that one loses a reference.\<close>

fun release :: "addr list \<Rightarrow> heap \<Rightarrow> heap" where
  "release [] h = h"
| "release (a # as) h =
     (case h_pbuf h a of
        None \<Rightarrow> h
      | Some b \<Rightarrow> if p_ref b = 1 then release as (mem_free a h) else set_pbuf a (b\<lparr>p_ref := p_ref b - 1\<rparr>) h)"

definition released :: "heap \<Rightarrow> addr list \<Rightarrow> addr list" where
  "released h as = takeWhile (\<lambda>a. ref_of h a = 1) as"

lemma pbuf_free_loop_linked:
  "linked h p as \<Longrightarrow> distinct as \<Longrightarrow> all_freeable h as \<Longrightarrow> length as < fuel \<Longrightarrow>
   pbuf_free_loop fuel p n h = Some (n + of_nat (length (released h as)), release as h)"
proof (induction as arbitrary: p fuel n h)
  case Nil
  then show ?case by (cases fuel) (simp_all add: released_def)
next
  case (Cons a as)
  from Cons.prems obtain f where f: "fuel = Suc f" "length as < f" by (cases fuel) auto
  obtain b where b: "p = Some a" "h_pbuf h a = Some b" "linked h (p_next b) as"
    using Cons.prems(1) by (auto split: option.splits)
  have fr: "freeable b" using Cons.prems(3) b(2) by (simp add: all_freeable_def)
  show ?case
  proof (cases "p_ref b = 1")
    case True
    have l: "linked (mem_free a h) (p_next b) as"
      using b(3) Cons.prems(2) by (auto elim!: linked_cong)
    have r: "released (mem_free a h) as = released h as"
      unfolding released_def using Cons.prems(2) by (intro takeWhile_cong) (auto simp: ref_of_def)
    have "all_freeable (mem_free a h) as"
      using Cons.prems(2,3) by (auto simp: all_freeable_def)
    then have "pbuf_free_loop f (p_next b) (n + 1) (mem_free a h) =
        Some (n + 1 + of_nat (length (released h as)), release as (mem_free a h))"
      using Cons.IH [OF l _ _ f(2)] Cons.prems(2) r by auto
    then show ?thesis
      using True b f fr by (auto simp: freeable_def Let_def released_def ref_of_def)
  next
    case False
    then have "p_ref b - 1 \<noteq> 0" by simp
    then show ?thesis
      using False b f fr by (simp add: freeable_def Let_def released_def ref_of_def)
  qed
qed

lemma pbuf_free_chain:
  assumes "heap_ok h" "pchain h p as" "as \<noteq> []" "all_freeable h as"
  shows "pbuf_free p h = Some (of_nat (length (released h as)), release as h)"
proof -
  obtain a where "p = Some a" using assms(2,3) by (cases as) auto
  then show ?thesis
    using pbuf_free_loop_linked [OF pchain_linked [OF assms(2)] pchain_distinct [OF assms(2)] assms(4) pchain_fuel [OF assms(1,2)]]
    by (simp add: pbuf_free_def)
qed

lemma release_other: "x \<notin> set as \<Longrightarrow> h_pbuf (release as h) x = h_pbuf h x \<and> h_mem (release as h) x = h_mem h x"
  by (induction as arbitrary: h) (auto split: option.splits)

lemma release_next [simp]: "h_next (release as h) = h_next h" "walk (release as h) = walk h"
  by (induction as arbitrary: h) (auto split: option.splits)

lemma release_gone:
  "distinct as \<Longrightarrow> x \<in> set (released h as) \<Longrightarrow> h_pbuf (release as h) x = None \<and> h_mem (release as h) x = None"
proof (induction as arbitrary: h)
  case (Cons a as)
  have r: "released (mem_free a h) as = released h as"
    unfolding released_def using Cons.prems(1) by (intro takeWhile_cong) (auto simp: ref_of_def)
  show ?case
  proof (cases "h_pbuf h a")
    case None
    then show ?thesis using Cons.prems by (simp add: released_def ref_of_def)
  next
    case (Some b)
    show ?thesis
    proof (cases "p_ref b = 1")
      case True
      then show ?thesis
        using Cons.IH [of "mem_free a h"] Cons.prems Some r release_other [of a as "mem_free a h"]
        by (auto simp: released_def ref_of_def)
    next
      case False
      then show ?thesis using Cons.prems Some by (simp add: released_def ref_of_def)
    qed
  qed
qed (simp add: released_def)

text \<open>The effect of \<open>release\<close>, address by address.\<close>

lemma release_effect:
  "distinct as \<Longrightarrow> all_freeable h as \<Longrightarrow>
   (\<forall>x. h_pbuf (release as h) x =
      (if x \<in> set (released h as) then None
       else if length (released h as) < length as \<and> x = as ! length (released h as)
            then map_option (\<lambda>b. b\<lparr>p_ref := p_ref b - 1\<rparr>) (h_pbuf h x)
       else h_pbuf h x)) \<and>
   (\<forall>x. h_mem (release as h) x = (if x \<in> set (released h as) then None else h_mem h x))"
proof (induction as arbitrary: h)
  case (Cons a as)
  obtain b where b: "h_pbuf h a = Some b" using Cons.prems(2) by (auto simp: all_freeable_def split: option.splits)
  show ?case
  proof (cases "p_ref b = 1")
    case True
    have r: "released (mem_free a h) as = released h as"
      unfolding released_def using Cons.prems(1) by (intro takeWhile_cong) (auto simp: ref_of_def)
    have "all_freeable (mem_free a h) as" using Cons.prems by (auto simp: all_freeable_def)
    then have i: "(\<forall>x. h_pbuf (release as (mem_free a h)) x =
        (if x \<in> set (released h as) then None
         else if length (released h as) < length as \<and> x = as ! length (released h as)
              then map_option (\<lambda>b. b\<lparr>p_ref := p_ref b - 1\<rparr>) (h_pbuf (mem_free a h) x)
         else h_pbuf (mem_free a h) x)) \<and>
       (\<forall>x. h_mem (release as (mem_free a h)) x = (if x \<in> set (released h as) then None else h_mem (mem_free a h) x))"
      using Cons.IH [of "mem_free a h"] Cons.prems(1) r by simp
    have rc: "released h (a # as) = a # released h as" using b True by (simp add: released_def ref_of_def)
    have na: "a \<noteq> as ! n" if "n < length as" for n using Cons.prems(1) that by auto
    show ?thesis
      using i b True na by (auto simp: rc)
  next
    case False
    then have "released h (a # as) = []" using b by (simp add: released_def ref_of_def)
    then show ?thesis using b False by simp
  qed
qed (simp add: released_def)

lemma pay_okE:
  assumes "pay_ok h b" "p_len b \<noteq> 0"
  obtains blk off bs where "p_payload b = Some (blk, off)" "h_mem h blk = Some bs" "0 \<le> off"
    "nat off + unat (p_len b) \<le> length bs" "pdata h b = slice (nat off) (unat (p_len b)) bs"
  using assms by (auto simp: pay_ok_def pdata_def split: option.splits)

lemma pdata_update [simp]:
  "pdata h (b\<lparr>p_tot_len := t\<rparr>) = pdata h b" "pdata h (b\<lparr>p_next := n\<rparr>) = pdata h b" "pdata h (b\<lparr>p_ref := r\<rparr>) = pdata h b"
  "pdata h (b\<lparr>p_flags := u\<rparr>) = pdata h b"
  by (simp_all add: pdata_def split: option.split)

lemma pay_ok_update [simp]:
  "pay_ok h (b\<lparr>p_tot_len := t\<rparr>) = pay_ok h b" "pay_ok h (b\<lparr>p_next := n\<rparr>) = pay_ok h b"
  "pay_ok h (b\<lparr>p_ref := r\<rparr>) = pay_ok h b" "pay_ok h (b\<lparr>p_flags := u\<rparr>) = pay_ok h b"
  by (simp_all add: pay_ok_def split: option.split)

lemma same_on_set_pbuf: "a \<notin> set as \<Longrightarrow> same_on as h (set_pbuf a b h)"
  by (auto simp: same_on_def)

lemma pchain_set_head:
  assumes "pchain h (Some a) (a # as)" "h_pbuf h a = Some b"
    and "pay_ok h b'" "p_next b' = p_next b"
    and "unat (p_tot_len b') = unat (p_len b') + length (cdata h as)"
  shows "pchain (set_pbuf a b' h) (Some a) (a # as)"
    and "cdata (set_pbuf a b' h) (a # as) = pdata h b' @ cdata h as"
proof -
  have c: "pchain h (p_next b) as" using assms(1,2) by simp
  have "a \<notin> set as" using pchain_distinct [OF assms(1)] by simp
  note s = same_on_set_pbuf [OF this, of h b']
  show "cdata (set_pbuf a b' h) (a # as) = pdata h b' @ cdata h as"
    using cdata_same_on [OF s] by simp
  then show "pchain (set_pbuf a b' h) (Some a) (a # as)"
    using pchain_same_on [OF c s] assms(3-) by (simp add: length_pdata)
qed

subsection \<open>Headers\<close>

text \<open>Removing a header hides the first bytes of the chain.\<close>

lemma pbuf_remove_header_chain:
  assumes "pchain h (Some a) (a # as)" "h_pbuf h a = Some b" "n \<le> unat (p_len b)"
  shows "\<exists>h'. pbuf_remove_header (Some a) n h = Some (0, h') \<and> pchain h' (Some a) (a # as) \<and>
    cdata h' (a # as) = drop n (cdata h (a # as)) \<and> h_mem h' = h_mem h \<and>
    (\<forall>x. x \<noteq> a \<longrightarrow> h_pbuf h' x = h_pbuf h x)"
proof (cases "n = 0")
  case True
  then show ?thesis using assms by (simp add: pbuf_remove_header_def)
next
  case False
  have b: "pay_ok h b" "unat (p_tot_len b) = unat (p_len b) + length (cdata h as)" "length (pdata h b) = unat (p_len b)"
    using assms(1,2) by (auto simp: length_pdata)
  have n: "n \<le> 65535" "unat (of_nat n :: u16) = n"
    using assms(3) unat_u16_lt [of "p_len b"] by (simp_all add: unat_of_nat)
  let ?b = "b\<lparr>p_payload := advance (p_payload b) (int n), p_len := p_len b - of_nat n,
              p_tot_len := p_tot_len b - of_nat n\<rparr>"
  have l: "unat (p_len b - of_nat n) = unat (p_len b) - n" "unat (p_tot_len b - of_nat n) = unat (p_tot_len b) - n"
    using n b(2) assms(3) by (simp_all add: unat_sub_le)
  have "p_len b \<noteq> 0" using assms(3) False by auto
  then obtain blk off bs where p: "p_payload b = Some (blk, off)" "h_mem h blk = Some bs" "0 \<le> off"
    "nat off + unat (p_len b) \<le> length bs" "pdata h b = slice (nat off) (unat (p_len b)) bs"
    using pay_okE [OF b(1)] by metis
  have d: "pdata h ?b = drop n (pdata h b)" "pay_ok h ?b"
    using l(1) assms(3) p
    by (simp_all add: pay_ok_def pdata_def advance_def slice_def drop_take nat_add_distrib add.commute)
  have "pbuf_remove_header (Some a) n h = Some (0, set_pbuf a ?b h)"
    using False n assms(2,3) by (simp add: pbuf_remove_header_def word_le_nat_alt Let_def)
  then show ?thesis
    using pchain_set_head [OF assms(1,2) d(2)] b l d(1) assms(2,3) by simp
qed

text \<open>Adding it back gives the pbuf as it was: the header operations are inverse.\<close>

lemma pbuf_add_header_after_remove:
  assumes "h_pbuf h a = Some b" "n \<le> unat (p_len b)" "p_len b \<le> p_tot_len b"
    and "p_type b AND PBUF_TYPE_FLAG_STRUCT_DATA_CONTIGUOUS \<noteq> 0" "p_payload b = Some (a, off)" "0 \<le> off"
    and "pbuf_remove_header (Some a) n h = Some (0, h')"
  shows "pbuf_add_header (Some a) n h' = Some (0, h)"
proof (cases "n = 0")
  case True
  then show ?thesis using assms(7) by (simp add: pbuf_remove_header_def pbuf_add_header_def pbuf_add_header_impl_def)
next
  case False
  have n: "n \<le> 65535" "unat (of_nat n :: u16) = n"
    using assms(2) unat_u16_lt [of "p_len b"] by (simp_all add: unat_of_nat)
  let ?b = "b\<lparr>p_payload := advance (p_payload b) (int n), p_len := p_len b - of_nat n,
              p_tot_len := p_tot_len b - of_nat n\<rparr>"
  have h': "h' = set_pbuf a ?b h"
    using assms(1,2,7) False n by (simp add: pbuf_remove_header_def word_le_nat_alt Let_def)
  have "\<not> p_tot_len b < of_nat n"
    using assms(2,3) n by (simp add: word_less_nat_alt word_le_nat_alt)
  moreover have u: "set_pbuf a b (set_pbuf a b' h) = h" for b'
    using assms(1) by (simp add: set_pbuf_def fun_upd_idem)
  have e: "b\<lparr>p_payload := Some (a, off)\<rparr> = b"
    using assms(5) by (cases b) simp
  ultimately show ?thesis
    using False n assms(4-6) 
    by (simp add: h' pbuf_add_header_def pbuf_add_header_impl_def advance_def Let_def) (simp only: e u)
qed

subsection \<open>Concatenation\<close>

lemma pbuf_cat_loop_chain:
  "pchain h (Some p) as \<Longrightarrow> pchain h (Some t) bs \<Longrightarrow> set as \<inter> set bs = {} \<Longrightarrow>
   length (cdata h as) + length (cdata h bs) < 65536 \<Longrightarrow> length as \<le> fuel \<Longrightarrow>
   \<exists>h'. pbuf_cat_loop fuel p t h = Some h' \<and> pchain h' (Some p) (as @ bs) \<and>
     cdata h' (as @ bs) = cdata h as @ cdata h bs \<and> h_mem h' = h_mem h \<and> h_next h' = h_next h \<and>
     (\<forall>x. x \<notin> set as \<longrightarrow> h_pbuf h' x = h_pbuf h x) \<and> (\<forall>x. ref_of h' x = ref_of h x)"
proof (induction as arbitrary: p h fuel)
  case Nil
  then show ?case by simp
next
  case (Cons a as)
  obtain f where f: "fuel = Suc f" "length as \<le> f" using Cons.prems(5) by (cases fuel) auto
  obtain b where b: "Some p = Some a" "h_pbuf h a = Some b" "pay_ok h b" "pchain h (p_next b) as"
    "unat (p_tot_len b) = unat (p_len b) + length (cdata h as)" "adata h a = pdata h b"
    "length (pdata h b) = unat (p_len b)"
    using Cons.prems(1) by (rule pchain_ConsE)
  obtain c where c: "h_pbuf h t = Some c" "unat (p_tot_len c) = length (cdata h bs)"
    using Cons.prems(2) by (cases bs) (auto split: option.splits)
  have na: "a \<notin> set as" "a \<notin> set bs"
    using pchain_distinct [OF Cons.prems(1)] Cons.prems(3) by auto
  let ?tot = "p_tot_len b + p_tot_len c"
  have tot: "unat ?tot = unat (p_len b) + (length (cdata h as) + length (cdata h bs))"
    using Cons.prems(4) b c by (subst unat_add_u16) simp_all
  show ?case
  proof (cases as)
    case Nil
    let ?b = "b\<lparr>p_tot_len := ?tot, p_next := Some t\<rparr>"
    have n: "p_next b = None" "p_tot_len b = p_len b" using b(4,5) Nil by (auto simp: word_unat_eq_iff)
    have s: "same_on bs h (set_pbuf a ?b h)" by (rule same_on_set_pbuf [OF na(2)])
    have "pbuf_cat_loop fuel p t h = Some (set_pbuf a ?b h)"
      using f b n c by simp
    then show ?thesis
      using Nil b tot pchain_same_on [OF Cons.prems(2) s] cdata_same_on [OF s]
      by (auto simp: ref_of_def)
  next
    case (Cons a' as')
    then have nx: "p_next b = Some a'" using b(4) by simp
    let ?b = "b\<lparr>p_tot_len := ?tot\<rparr>"
    let ?h = "set_pbuf a ?b h"
    have s: "same_on bs h ?h" "same_on as h ?h" using na by (simp_all add: same_on_set_pbuf)
    obtain h' where h': "pbuf_cat_loop f a' t ?h = Some h'" "pchain h' (Some a') (as @ bs)"
      "cdata h' (as @ bs) = cdata h as @ cdata h bs" "h_mem h' = h_mem h" "h_next h' = h_next h"
      "\<forall>x. x \<notin> set as \<longrightarrow> h_pbuf h' x = h_pbuf ?h x" "\<forall>x. ref_of h' x = ref_of ?h x"
      using Cons.IH [of ?h a' f] pchain_same_on [OF b(4) s(2)] pchain_same_on [OF Cons.prems(2) s(1)]
        Cons.prems(3,4) f nx cdata_same_on [OF s(1)] cdata_same_on [OF s(2)] b
      by auto
    have "pbuf_cat_loop fuel p t h = Some h'" using f b c nx h' by simp
    moreover have "h_pbuf h' a = Some ?b" using h'(6) na by simp
    moreover have "pdata h' ?b = pdata h b" "pay_ok h' ?b" 
      using b(3) pdata_same [of b h' h] h'(4) by simp_all
    moreover have "ref_of ?h x = ref_of h x" for x using b(2) by (simp add: ref_of_def)
    ultimately show ?thesis
      using h' b nx tot by auto
  qed
qed

lemma pbuf_cat_chain:
  assumes "heap_ok h" "pchain h (Some p) as" "pchain h (Some t) bs" "set as \<inter> set bs = {}"
    and "length (cdata h as) + length (cdata h bs) < 65536"
  shows "\<exists>h'. pbuf_cat (Some p) (Some t) h = Some h' \<and> pchain h' (Some p) (as @ bs) \<and>
     cdata h' (as @ bs) = cdata h as @ cdata h bs \<and> h_mem h' = h_mem h \<and> h_next h' = h_next h \<and>
     (\<forall>x. x \<notin> set as \<longrightarrow> h_pbuf h' x = h_pbuf h x) \<and> (\<forall>x. ref_of h' x = ref_of h x)"
  using pbuf_cat_loop_chain [OF assms(2-5), of "walk h"] pchain_fuel [OF assms(1,2)]
  by (simp add: pbuf_cat_def)

subsection \<open>Filling\<close>

text \<open>What a write into the blocks \<open>B\<close> leaves alone.\<close>

definition mem_frame :: "addr option set \<Rightarrow> heap \<Rightarrow> heap \<Rightarrow> bool" where
  "mem_frame B h h' =
     (h_pbuf h' = h_pbuf h \<and> h_next h' = h_next h \<and> h_fail h' = h_fail h \<and> h_fill h' = h_fill h \<and>
      (\<forall>x. Some x \<notin> B \<longrightarrow> h_mem h' x = h_mem h x) \<and>
      (\<forall>x. map_option length (h_mem h' x) = map_option length (h_mem h x)))"

lemma mem_frame_refl: "mem_frame B h h"
  by (simp add: mem_frame_def)

lemma mem_frame_trans: "mem_frame A h1 h2 \<Longrightarrow> mem_frame B h2 h3 \<Longrightarrow> mem_frame (A \<union> B) h1 h3"
  by (simp add: mem_frame_def)

lemma mem_frame_mono: "mem_frame A h h' \<Longrightarrow> A \<subseteq> B \<Longrightarrow> mem_frame B h h'"
  by (auto simp: mem_frame_def)

lemma mem_frame_pay_ok: "mem_frame B h h' \<Longrightarrow> pay_ok h b \<Longrightarrow> pay_ok h' b"
  unfolding mem_frame_def pay_ok_def
  by (auto split: option.splits) (metis map_option_is_None option.distinct(1), metis option.map(2) option.inject)

lemma mem_frame_heap_ok: "mem_frame B h h' \<Longrightarrow> heap_ok h \<Longrightarrow> heap_ok h'"
  by (auto simp: mem_frame_def heap_ok_def) (metis map_option_is_None)

lemma mem_frame_same_on: "mem_frame B h h' \<Longrightarrow> B \<inter> block h ` set as = {} \<Longrightarrow> same_on as h h'"
proof -
  assume f: "mem_frame B h h'" and d: "B \<inter> block h ` set as = {}"
  have "Some blk \<notin> B" if "a \<in> set as" "block h a = Some blk" for a blk
    using d that by (metis disjoint_iff image_eqI)
  with f show ?thesis by (auto simp: mem_frame_def same_on_def)
qed

lemma pchain_mem_frame: "mem_frame B h h' \<Longrightarrow> pchain h p as \<Longrightarrow> pchain h' p as"
proof (induction as arbitrary: p)
  case (Cons a as)
  obtain b where b: "p = Some a" "h_pbuf h a = Some b" "pay_ok h b" "pchain h (p_next b) as"
    "unat (p_tot_len b) = unat (p_len b) + length (cdata h as)"
    using Cons.prems(2) by (rule pchain_ConsE)
  have "length (cdata h' as) = length (cdata h as)" if "pchain h q as" "pchain h' q as" for q
    using that
  proof (induction as arbitrary: q)
    case (Cons x xs)
    then show ?case
      using Cons.prems \<open>mem_frame B h h'\<close>
      by (auto simp: mem_frame_def length_pdata split: option.splits)
  qed simp
  with Cons b mem_frame_pay_ok [OF Cons.prems(1) b(3)] show ?case
    by (auto simp: mem_frame_def length_pdata)
qed simp

lemma mem_write_pdata:
  assumes "pay_ok h b" "off + length ys \<le> unat (p_len b)"
  shows "\<exists>h'. mem_write h (p_payload b) off ys = Some h' \<and>
    pdata h' b = overwrite off ys (pdata h b) \<and> mem_frame {map_option fst (p_payload b)} h h'"
proof (cases "ys = []")
  case True
  then show ?thesis by (simp add: mem_write_def mem_frame_refl)
next
  case False
  then have "p_len b \<noteq> 0" using assms(2) by auto
  with assms(1) obtain blk o0 bs where p: "p_payload b = Some (blk, o0)" "h_mem h blk = Some bs" "0 \<le> o0"
    "nat o0 + unat (p_len b) \<le> length bs" "pdata h b = slice (nat o0) (unat (p_len b)) bs"
    by (rule pay_okE)
  let ?h = "set_mem blk (overwrite (nat (o0 + int off)) ys bs) h"
  have n: "nat (o0 + int off) = nat o0 + off" using p(3) by (simp add: nat_add_distrib)
  have "mem_write h (p_payload b) off ys = Some ?h"
    using p assms(2) False n by (simp add: mem_write_def)
  moreover have "slice (nat o0) (unat (p_len b)) (overwrite (nat o0 + off) ys bs) =
      overwrite off ys (slice (nat o0) (unat (p_len b)) bs)"
    using p(4) assms(2) by (intro nth_equalityI) (auto simp: slice_def nth_overwrite)
  then have "pdata ?h b = overwrite off ys (pdata h b)" using p n by (simp add: pdata_def)
  moreover have "mem_frame {map_option fst (p_payload b)} h ?h"
    using p assms(2) n by (auto simp: mem_frame_def)
  ultimately show ?thesis by blast
qed

lemma pbuf_take_loop_chain:
  "pchain h p as \<Longrightarrow> distinct (map (block h) as) \<Longrightarrow> length data \<le> length (cdata h as) \<Longrightarrow>
   length as < fuel \<Longrightarrow>
   \<exists>h'. pbuf_take_loop fuel p data h = Some h' \<and> cdata h' as = data @ drop (length data) (cdata h as) \<and>
     mem_frame (block h ` set as) h h'"
proof (induction as arbitrary: p fuel data h)
  case Nil
  then show ?case by (cases fuel) (auto simp: mem_frame_refl)
next
  case (Cons a as)
  from Cons.prems obtain f where f: "fuel = Suc f" "length as < f" by (cases fuel) auto
  obtain b where b: "p = Some a" "h_pbuf h a = Some b" "pay_ok h b" "pchain h (p_next b) as"
    "adata h a = pdata h b" "length (pdata h b) = unat (p_len b)"
    using Cons.prems(1) by (rule pchain_ConsE)
  show ?case
  proof (cases "data = []")
    case True
    then show ?thesis using f by (auto simp: mem_frame_refl)
  next
    case False
    let ?n = "min (length data) (unat (p_len b))"
    obtain h1 where h1: "mem_write h (p_payload b) 0 (take ?n data) = Some h1"
      "pdata h1 b = overwrite 0 (take ?n data) (pdata h b)" "mem_frame {block h a} h h1"
      using mem_write_pdata [OF b(3), of 0 "take ?n data"] b(2) by auto
    have disj: "{block h a} \<inter> block h ` set as = {}" using Cons.prems(2) by auto
    note s = mem_frame_same_on [OF h1(3) disj]
    have blk: "block h1 = block h" using h1(3) by (simp add: mem_frame_def block_def fun_eq_iff)
    have c1: "cdata h1 as = cdata h as" using cdata_same_on [OF s] .
    have "length (drop ?n data) \<le> length (cdata h1 as)"
      using Cons.prems(3) b(5,6) c1 by auto
    then obtain h' where h': "pbuf_take_loop f (p_next b) (drop ?n data) h1 = Some h'"
      "cdata h' as = drop ?n data @ drop (length data - ?n) (cdata h as)"
      "mem_frame (block h ` set as) h1 h'"
      using Cons.IH [OF pchain_same_on [OF b(4) s], of "drop ?n data" f] Cons.prems(2) f
      by (auto simp: blk c1)
    have "adata h' a = pdata h1 b"
      using h1(3) h'(3) b(2) disj by (auto simp: mem_frame_def adata_def intro!: pdata_same)
    moreover have "pbuf_take_loop fuel p data h = Some h'"
      using f b False h1 h' by (simp add: Let_def)
    moreover have "mem_frame (block h ` set (a # as)) h h'"
      using mem_frame_trans [OF h1(3) h'(3)] by simp
    moreover have "overwrite 0 (take ?n data) (pdata h b) @ drop ?n data @ drop (length data - ?n) (cdata h as) =
        data @ drop (length data) (pdata h b @ cdata h as)"
      using b(6) by (auto simp: overwrite_def min_def)
    ultimately show ?thesis using h'(2) h1(2) b(5) by (intro exI [of _ h']) (simp add: append.assoc)
  qed
qed

lemma pbuf_take_chain:
  assumes "heap_ok h" "pchain h (Some p) as" "distinct (map (block h) as)" "length data \<le> length (cdata h as)"
  shows "\<exists>h'. pbuf_take (Some p) data h = Some (ERR_OK, h') \<and> pchain h' (Some p) as \<and>
     cdata h' as = data @ drop (length data) (cdata h as) \<and> mem_frame (block h ` set as) h h'"
proof -
  obtain b where "h_pbuf h p = Some b" "unat (p_tot_len b) = length (cdata h as)"
    using assms(2) by (cases as) (auto split: option.splits)
  moreover obtain h' where "pbuf_take_loop (Suc (walk h)) (Some p) data h = Some h'"
    "cdata h' as = data @ drop (length data) (cdata h as)" "mem_frame (block h ` set as) h h'"
    using pbuf_take_loop_chain [OF assms(2-4), of "Suc (walk h)"] pchain_fuel [OF assms(1,2)] by auto
  ultimately show ?thesis
    using pchain_mem_frame assms(2,4) by (auto simp: pbuf_take_def)
qed

lemma pbuf_take_too_small:
  assumes "pchain h (Some p) as" "length (cdata h as) < length data"
  shows "pbuf_take (Some p) data h = Some (ERR_MEM, h)"
  using assms by (cases as) (auto simp: pbuf_take_def split: option.splits)

subsection \<open>Allocation\<close>

lemma mem_malloc_ok:
  assumes "\<not> h_fail h (h_next h)"
  shows "mem_malloc sz h = (Some (h_next h),
    h\<lparr>h_next := Suc (h_next h), h_mem := (h_mem h)(h_next h := map_option (\<lambda>n. map (h_fill h (h_next h)) [0..<n]) sz)\<rparr>)"
  using assms by (simp add: mem_malloc_def Let_def)

lemma mem_malloc_fail: "h_fail h (h_next h) \<Longrightarrow> mem_malloc sz h = (None, h\<lparr>h_next := Suc (h_next h)\<rparr>)"
  by (simp add: mem_malloc_def Let_def)

lemma layer_offset_le: "unat (layer_offset l) \<le> 54"
  by (cases l) simp_all

text \<open>A fresh pbuf at \<open>a\<close>: everything that was there is still there.\<close>

definition extends :: "heap \<Rightarrow> heap \<Rightarrow> bool" where
  "extends h h' =
     ((\<forall>x < h_next h. h_pbuf h' x = h_pbuf h x \<and> h_mem h' x = h_mem h x) \<and> h_next h \<le> h_next h' \<and>
      h_fail h' = h_fail h \<and> h_fill h' = h_fill h)"

lemma extends_refl: "extends h h" by (simp add: extends_def)

lemma extends_trans: "extends h1 h2 \<Longrightarrow> extends h2 h3 \<Longrightarrow> extends h1 h3"
  by (auto simp: extends_def)

text \<open>In a sound heap a chain's blocks are allocated, so extending the heap keeps it.\<close>

definition blocks_live :: "heap \<Rightarrow> addr list \<Rightarrow> bool" where
  "blocks_live h as = (\<forall>a\<in>set as. \<forall>blk. block h a = Some blk \<longrightarrow> blk < h_next h)"

lemma pchain_extends:
  assumes "heap_ok h" "extends h h'" "pchain h p as" "blocks_live h as"
  shows "pchain h' p as" "cdata h' as = cdata h as"
proof -
  have "a < h_next h" if "a \<in> set as" for a
    using pchain_live [OF assms(3) that] assms(1) by (auto simp: heap_ok_def not_less [symmetric])
  then have "same_on as h h'"
    using assms(2,4) by (simp add: same_on_def extends_def blocks_live_def)
  then show "pchain h' p as" "cdata h' as = cdata h as"
    using pchain_same_on [OF assms(3)] cdata_same_on by blast+
qed

lemma pbuf_alloc_ram_chain:
  assumes "heap_ok h" "\<not> h_fail h (h_next h)" "unat (layer_offset l) + unat n < 65536"
  shows "\<exists>h' b. pbuf_alloc l n PBUF_RAM h = Some (Some (h_next h), h') \<and> heap_ok h' \<and> extends h h' \<and>
    pchain h' (Some (h_next h)) [h_next h] \<and> length (cdata h' [h_next h]) = unat n \<and>
    h_pbuf h' (h_next h) = Some b \<and> p_payload b = Some (h_next h, int (unat (layer_offset l))) \<and>
    p_len b = n \<and> p_ref b = 1 \<and> p_type b = 0x80 \<and> p_flags b = 0 \<and> p_next b = None"
proof -
  let ?a = "h_next h" and ?o = "layer_offset l"
  let ?b = "pbuf_init_alloced_pbuf (Some (?a, int (unat ?o))) n n PBUF_RAM 0"
  let ?bs = "map (h_fill h ?a) [0..<unat (?o + n)]"
  let ?h = "set_pbuf ?a ?b (h\<lparr>h_next := Suc ?a, h_mem := (h_mem h)(?a := Some ?bs)\<rparr>)"
  have u: "unat (?o + n) = unat ?o + unat n" using assms(3) by (subst unat_add_u16) simp_all
  then have "\<not> ?o + n < n" by (simp add: word_less_nat_alt)
  then have "pbuf_alloc l n PBUF_RAM h = Some (Some ?a, ?h)"
    using mem_malloc_ok [OF assms(2)] by (simp add: pbuf_alloc_def Let_def)
  moreover have "heap_ok ?h" using assms(1) by (simp add: heap_ok_def)
  moreover have "extends h ?h" by (simp add: extends_def)
  moreover have "pay_ok ?h ?b" using u by (simp add: pay_ok_def pbuf_init_alloced_pbuf_def)
  ultimately show ?thesis
    by (auto simp: pbuf_init_alloced_pbuf_def length_pdata simp del: set_pbuf_simps(7,8))
qed

text \<open>A request that does not fit 16 bits, or that the allocator refuses, gives a null pointer.\<close>

lemma pbuf_alloc_ram_none:
  assumes "65536 \<le> unat (layer_offset l) + unat n \<or> h_fail h (h_next h)"
  shows "\<exists>h'. pbuf_alloc l n PBUF_RAM h = Some (None, h') \<and> h_pbuf h' = h_pbuf h \<and> h_mem h' = h_mem h"
proof (cases "65536 \<le> unat (layer_offset l) + unat n")
  case True
  have "unat (layer_offset l + n) = unat (layer_offset l) + unat n - 65536"
    using True layer_offset_le [of l] unat_u16_lt [of n]
    by (simp add: unat_word_ariths le_mod_geq)
  then have "layer_offset l + n < n"
    using layer_offset_le [of l] True by (simp add: word_less_nat_alt)
  then show ?thesis by (simp add: pbuf_alloc_def Let_def)
next
  case False
  then have "unat (layer_offset l + n) = unat (layer_offset l) + unat n" by (subst unat_add_u16) simp_all
  then have "\<not> layer_offset l + n < n" by (simp add: word_less_nat_alt)
  then show ?thesis using False assms by (simp add: pbuf_alloc_def mem_malloc_fail Let_def)
qed

subsection \<open>Pool allocation\<close>

text \<open>One pass of the \<^verbatim>\<open>PBUF_POOL\<close> loop that gets its memory: the pbuf it makes and the heap it leaves.\<close>

definition pool_pbuf :: "addr \<Rightarrow> u16 \<Rightarrow> u16 \<Rightarrow> pbuf" where
  "pool_pbuf q rem_len off =
     pbuf_init_alloced_pbuf (Some (q, int (unat off))) rem_len (min rem_len (PBUF_POOL_BUFSIZE - off)) PBUF_POOL 0"

definition pool_heap :: "addr option \<Rightarrow> addr \<Rightarrow> u16 \<Rightarrow> u16 \<Rightarrow> heap \<Rightarrow> heap" where
  "pool_heap p last_q rem_len off h =
     (let q = h_next h;
          h = set_pbuf q (pool_pbuf q rem_len off)
                (h\<lparr>h_next := Suc q, h_mem := (h_mem h)(q := Some (map (h_fill h q) [0..<unat PBUF_POOL_BUFSIZE]))\<rparr>)
      in if p = None then h else set_pbuf last_q ((the (h_pbuf h last_q))\<lparr>p_next := Some q\<rparr>) h)"

lemma pool_loop_step:
  assumes "\<not> h_fail h (h_next h)" "unat off < 1514" "p = None \<or> h_pbuf h last_q = Some lb \<and> last_q \<noteq> h_next h"
  shows "pbuf_pool_loop (Suc fuel) p last_q rem off h =
    (let p' = (if p = None then Some (h_next h) else p);
         h' = pool_heap p last_q rem off h;
         rem' = rem - min rem (PBUF_POOL_BUFSIZE - off)
     in if rem' > 0 then pbuf_pool_loop fuel p' (h_next h) rem' 0 h' else Some (p', h'))"
proof -
  have "PBUF_POOL_BUFSIZE - off > 0"
    using assms(2) by (simp add: PBUF_POOL_BUFSIZE_def word_less_nat_alt unat_sub_le)
  then show ?thesis
    using assms(3) mem_malloc_ok [OF assms(1)]
    by (cases p) (auto simp: pool_heap_def pool_pbuf_def Let_def)
qed

lemma pool_heap_simps:
  assumes "p = None \<or> h_pbuf h last_q = Some lb \<and> last_q \<noteq> h_next h"
  shows "h_pbuf (pool_heap p last_q rem off h) =
      (if p = None then (h_pbuf h)(h_next h \<mapsto> pool_pbuf (h_next h) rem off)
       else (h_pbuf h)(h_next h \<mapsto> pool_pbuf (h_next h) rem off, last_q \<mapsto> lb\<lparr>p_next := Some (h_next h)\<rparr>))"
    "h_mem (pool_heap p last_q rem off h) =
      (h_mem h)(h_next h \<mapsto> map (h_fill h (h_next h)) [0..<unat PBUF_POOL_BUFSIZE])"
    "h_next (pool_heap p last_q rem off h) = Suc (h_next h)"
    "h_fail (pool_heap p last_q rem off h) = h_fail h"
    "h_fill (pool_heap p last_q rem off h) = h_fill h"
  using assms by (auto simp: pool_heap_def Let_def)

lemma pool_pbuf_simps [simp]:
  "p_next (pool_pbuf q rem off) = None" "p_ref (pool_pbuf q rem off) = 1" "p_tot_len (pool_pbuf q rem off) = rem"
  "p_len (pool_pbuf q rem off) = min rem (PBUF_POOL_BUFSIZE - off)"
  "p_payload (pool_pbuf q rem off) = Some (q, int (unat off))" "freeable (pool_pbuf q rem off)"
  by (simp_all add: pool_pbuf_def pbuf_init_alloced_pbuf_def freeable_def pbuf_get_allocsrc_def
      PBUF_TYPE_ALLOC_SRC_MASK_def PBUF_TYPE_ALLOC_SRC_MASK_STD_MEMP_PBUF_POOL_def PBUF_FLAG_IS_CUSTOM_def)

lemma freeable_update [simp]:
  "freeable (b\<lparr>p_next := n\<rparr>) = freeable b" "freeable (b\<lparr>p_tot_len := t\<rparr>) = freeable b"
  "freeable (b\<lparr>p_len := l\<rparr>) = freeable b" "freeable (b\<lparr>p_payload := q\<rparr>) = freeable b"
  by (simp_all add: freeable_def pbuf_get_allocsrc_def)

lemma pool_qlen:
  assumes "unat off < 1514"
  shows "unat (min rem (PBUF_POOL_BUFSIZE - off)) = min (unat rem) (1514 - unat off)"
    "unat (rem - min rem (PBUF_POOL_BUFSIZE - off)) = unat rem - (1514 - unat off)"
proof -
  have u: "unat (PBUF_POOL_BUFSIZE - off) = 1514 - unat off"
    using assms by (simp add: PBUF_POOL_BUFSIZE_def unat_sub_le)
  then show m: "unat (min rem (PBUF_POOL_BUFSIZE - off)) = min (unat rem) (1514 - unat off)"
    by (auto simp: min_def word_le_nat_alt)
  show "unat (rem - min rem (PBUF_POOL_BUFSIZE - off)) = unat rem - (1514 - unat off)"
    using m by (subst unat_sub_le) auto
qed

text \<open>When no allocation fails, the loop appends a well-formed chain of fresh pbufs.\<close>

lemma pool_loop_success:
  assumes "\<forall>k. \<not> h_fail h k" "heap_ok h" "unat off < 1514" "unat rem < fuel"
    and "p = None \<or> h_pbuf h last_q = Some lb \<and> last_q < h_next h"
  shows "\<exists>h' as. pbuf_pool_loop fuel p last_q rem off h = Some (if p = None then Some (h_next h) else p, h') \<and>
    pchain h' (Some (h_next h)) as \<and> length (cdata h' as) = unat rem \<and> heap_ok h' \<and>
    (\<forall>a\<in>set as. h_next h \<le> a \<and> block h' a = Some a \<and> ref_of h' a = 1) \<and> all_freeable h' as \<and>
    h_fail h' = h_fail h \<and> h_fill h' = h_fill h \<and> h_next h < h_next h' \<and>
    (\<forall>x < h_next h. h_mem h' x = h_mem h x \<and>
       h_pbuf h' x = (if p \<noteq> None \<and> x = last_q then Some (lb\<lparr>p_next := Some (h_next h)\<rparr>) else h_pbuf h x))"
  using assms
proof (induction fuel arbitrary: p last_q rem off h lb)
  case 0
  then show ?case by simp
next
  case (Suc fuel)
  let ?q = "h_next h"
  let ?h = "pool_heap p last_q rem off h"
  let ?p = "if p = None then Some ?q else p"
  let ?rem = "rem - min rem (PBUF_POOL_BUFSIZE - off)"
  let ?b = "pool_pbuf ?q rem off"
  have pre: "p = None \<or> h_pbuf h last_q = Some lb \<and> last_q \<noteq> ?q" using Suc.prems(5) by auto
  note sh = pool_heap_simps [OF pre, of rem off]
  have q: "h_pbuf ?h ?q = Some ?b" using sh(1) pre by auto
  have ok: "heap_ok ?h" using Suc.prems(2,5) by (auto simp: heap_ok_def sh)
  have "unat off + min (unat rem) (1514 - unat off) \<le> 1514" using Suc.prems(3) by auto
  then have pay: "pay_ok ?h ?b" using pool_qlen(1) [OF Suc.prems(3), of rem]
    by (simp add: pay_ok_def sh PBUF_POOL_BUFSIZE_def)
  have old: "\<forall>x < ?q. h_mem ?h x = h_mem h x \<and>
      h_pbuf ?h x = (if p \<noteq> None \<and> x = last_q then Some (lb\<lparr>p_next := Some ?q\<rparr>) else h_pbuf h x)"
    by (auto simp: sh)
  note st = pool_loop_step [OF _ Suc.prems(3) pre, of fuel rem]
  show ?case
  proof (cases "?rem > 0")
    case False
    have r: "?rem = 0" by (rule ccontr) (use False in \<open>simp only: word_neq_0_conv\<close>)
    have "unat rem \<le> 1514 - unat off" using pool_qlen(2) [OF Suc.prems(3), of rem] unfolding r by simp
    then have "unat (p_len ?b) = unat rem" using pool_qlen(1) [OF Suc.prems(3), of rem] by simp
    then have "pchain ?h (Some ?q) [?q]" "length (cdata ?h [?q]) = unat rem"
      using q pay length_pdata [OF pay] by simp_all
    moreover have "pbuf_pool_loop (Suc fuel) p last_q rem off h = Some (?p, ?h)"
      using st Suc.prems(1) False by (simp only: Let_def if_False simp_thms)
    ultimately show ?thesis
      using ok old q
      by (intro exI [of _ ?h] exI [of _ "[?q]"]) (simp add: sh(3-) all_freeable_def ref_of_def)
  next
    case True
    have lt: "unat ?rem < fuel"
      using Suc.prems(3,4) True pool_qlen(2) [OF Suc.prems(3), of rem] by (simp add: word_less_nat_alt)
    have nf: "\<forall>k. \<not> h_fail ?h k" using Suc.prems(1) sh(4) by simp
    obtain y where y: "?p = Some y" by (cases p) auto
    have pp: "Some y = None \<or> h_pbuf ?h ?q = Some ?b \<and> ?q < h_next ?h" using q sh(3) by simp
    have z: "unat (0 :: u16) < 1514" by simp
    obtain h' as where h': "pbuf_pool_loop fuel (Some y) ?q ?rem 0 ?h = Some (Some y, h')"
      "pchain h' (Some (Suc ?q)) as" "length (cdata h' as) = unat ?rem" "heap_ok h'"
      "\<forall>a\<in>set as. Suc ?q \<le> a \<and> block h' a = Some a \<and> ref_of h' a = 1" "all_freeable h' as"
      "h_fail h' = h_fail h" "h_fill h' = h_fill h" "Suc ?q < h_next h'"
      "\<forall>x < Suc ?q. h_mem h' x = h_mem ?h x \<and> h_pbuf h' x = (if x = ?q then Some (?b\<lparr>p_next := Some (Suc ?q)\<rparr>) else h_pbuf ?h x)"
      using Suc.IH [OF nf ok z lt pp] by (auto simp: sh(3-))
    let ?b' = "?b\<lparr>p_next := Some (Suc ?q)\<rparr>"
    have b': "h_pbuf h' ?q = Some ?b'" using h'(10) by simp
    have pay': "pay_ok h' ?b'" using pay pdata_same(2) [of ?b' h' ?h] h'(10) by simp
    have "pchain h' (Some ?q) (?q # as) \<and> length (cdata h' (?q # as)) = unat rem"
      using b' pay' h'(2,3) length_pdata [OF pay'] pool_qlen [OF Suc.prems(3), of rem] True
      by (simp add: word_less_nat_alt)
    moreover have "\<forall>x < ?q. h_mem h' x = h_mem h x \<and>
      h_pbuf h' x = (if p \<noteq> None \<and> x = last_q then Some (lb\<lparr>p_next := Some ?q\<rparr>) else h_pbuf h x)"
      using h'(10) old by simp
    moreover have "freeable ?b'" by simp
    then have "all_freeable h' (?q # as)" using h'(6) b' by (simp add: all_freeable_def)
    moreover have "\<forall>a\<in>set (?q # as). ?q \<le> a \<and> block h' a = Some a \<and> ref_of h' a = 1"
      using h'(5) b' by (auto simp: ref_of_def)
    moreover have "pbuf_pool_loop (Suc fuel) p last_q rem off h = Some (?p, h')"
      using st Suc.prems(1) True h'(1) unfolding y by (simp only: Let_def if_True simp_thms)
    moreover have "?q < h_next h'" using h'(9) by simp
    ultimately show ?thesis
      using h'(4,7,8) by (intro exI [of _ h'] exI [of _ "?q # as"] conjI) blast+
  qed
qed

lemma pbuf_alloc_pool_chain:
  assumes "heap_ok h" "\<forall>k. \<not> h_fail h k"
  shows "\<exists>h' as. pbuf_alloc l n PBUF_POOL h = Some (Some (h_next h), h') \<and>
    pchain h' (Some (h_next h)) as \<and> length (cdata h' as) = unat n \<and> heap_ok h' \<and> extends h h' \<and>
    (\<forall>a\<in>set as. h_next h \<le> a \<and> block h' a = Some a \<and> ref_of h' a = 1) \<and> all_freeable h' as"
proof -
  have "unat (layer_offset l) < 1514" using layer_offset_le [of l] by simp
  from pool_loop_success [OF assms(2,1) this, of n "Suc (unat n)" None 0 undefined]
  show ?thesis by (auto simp: pbuf_alloc_def extends_def simp del: pbuf_pool_loop.simps)
qed


text \<open>When an allocation fails, what was allocated so far is released: nothing is leaked.\<close>

lemma release_all:
  "distinct as \<Longrightarrow> \<forall>a\<in>set as. ref_of h a = 1 \<Longrightarrow>
   h_pbuf (release as h) = (\<lambda>x. if x \<in> set as then None else h_pbuf h x) \<and>
   h_mem (release as h) = (\<lambda>x. if x \<in> set as then None else h_mem h x)"
  using release_gone [of as _ h] release_other [of _ as h]
  by (auto simp: fun_eq_iff released_def takeWhile_eq_all_conv [THEN iffD2])

lemma linked_snoc:
  "linked h p as \<Longrightarrow> as \<noteq> [] \<Longrightarrow> distinct as \<Longrightarrow> h_pbuf h (last as) = Some lb \<Longrightarrow>
   (\<And>x. x \<in> set as \<Longrightarrow> x \<noteq> last as \<Longrightarrow> h_pbuf h' x = h_pbuf h x) \<Longrightarrow>
   h_pbuf h' (last as) = Some (lb\<lparr>p_next := Some q\<rparr>) \<Longrightarrow> h_pbuf h' q = Some b \<Longrightarrow> p_next b = None \<Longrightarrow>
   linked h' p (as @ [q])"
proof (induction as arbitrary: p)
  case (Cons a as)
  show ?case
  proof (cases "as = []")
    case True
    then show ?thesis using Cons.prems by simp
  next
    case False
    then have ne: "a \<noteq> last as" using Cons.prems(3) by auto
    obtain c where c: "h_pbuf h a = Some c" "linked h (p_next c) as" "p = Some a"
      using Cons.prems(1) by (auto split: option.splits)
    then have "h_pbuf h' a = Some c" using Cons.prems(5) [of a] ne False by simp
    then show ?thesis
      using c Cons.IH [OF c(2) False] Cons.prems False by simp
  qed
qed simp

lemma pool_loop_outcome:
  assumes "heap_ok h" "unat off < 1514" "unat rem < fuel"
    and "linked h p cs" "distinct cs" "all_freeable h cs" "\<forall>a\<in>set cs. ref_of h a = 1" "cs \<noteq> [] \<longrightarrow> last_q = last cs"
  shows "\<exists>r h'. pbuf_pool_loop fuel p last_q rem off h = Some (r, h') \<and>
    (r = None \<longrightarrow> h_pbuf h' = (\<lambda>x. if x \<in> set cs then None else h_pbuf h x) \<and>
                   h_mem h' = (\<lambda>x. if x \<in> set cs then None else h_mem h x))"
  using assms
proof (induction fuel arbitrary: p last_q rem off h cs)
  case 0
  then show ?case by simp
next
  case (Suc fuel)
  let ?q = "h_next h"
  have live: "x < ?q" if "x \<in> set cs" for x
  proof -
    have "h_pbuf h x \<noteq> None" using Suc.prems(6) that by (auto simp: all_freeable_def split: option.splits)
    then show ?thesis using Suc.prems(1) by (auto simp: heap_ok_def not_less [symmetric])
  qed
  show ?case
  proof (cases "h_fail h ?q")
    case True
    let ?h = "pbuf_pool_is_empty (h\<lparr>h_next := Suc ?q\<rparr>)"
    have e: "h_pbuf ?h = h_pbuf h" "h_mem ?h = h_mem h" "walk ?h = Suc (Suc ?q)"
      by (simp_all add: pbuf_pool_is_empty_def walk_def)
    show ?thesis
    proof (cases cs)
      case Nil
      then show ?thesis using True Suc.prems(4) e by (simp add: mem_malloc_fail Let_def)
    next
      case (Cons c cs')
      then have p: "p = Some c" using Suc.prems(4) by simp
      have "length cs < walk ?h"
        using distinct_card [OF Suc.prems(5)] live subset_eq_atLeast0_lessThan_card [of "set cs" ?q] e(3)
        by (fastforce simp: subset_iff)
      moreover have "linked ?h p cs" "all_freeable ?h cs" "\<forall>a\<in>set cs. ref_of ?h a = 1"
        using Suc.prems(4,6,7) linked_cong [of h p cs ?h] e by (simp_all add: all_freeable_def ref_of_def)
      ultimately have "pbuf_free p ?h = Some (of_nat (length (released ?h cs)), release cs ?h)"
        using pbuf_free_loop_linked [of ?h p cs "walk ?h" 0] Suc.prems(5) p by (simp add: pbuf_free_def)
      moreover note release_all [OF Suc.prems(5) \<open>\<forall>a\<in>set cs. ref_of ?h a = 1\<close>, unfolded e]
      ultimately show ?thesis using True p by (simp add: mem_malloc_fail Let_def)
    qed
  next
    case False
    define lb where "lb = the (h_pbuf h last_q)"
    have pre: "p = None \<or> h_pbuf h last_q = Some lb \<and> last_q \<noteq> ?q"
    proof (cases cs)
      case (Cons c cs')
      then have "last_q \<in> set cs" using Suc.prems(8) by auto
      then show ?thesis using Suc.prems(6) live unfolding lb_def
        by (fastforce simp: all_freeable_def split: option.splits)
    qed (use Suc.prems(4) in simp)
    let ?h = "pool_heap p last_q rem off h"
    let ?b = "pool_pbuf ?q rem off"
    let ?p = "if p = None then Some ?q else p"
    let ?rem = "rem - min rem (PBUF_POOL_BUFSIZE - off)"
    note sh = pool_heap_simps [OF pre, of rem off]
    note st = pool_loop_step [OF False Suc.prems(2) pre, of fuel rem]
    have nq: "?q \<notin> set cs" using live by auto
    have q: "h_pbuf ?h ?q = Some ?b" using sh(1) pre by auto
    show ?thesis
    proof (cases "?rem > 0")
      case True
      have lt: "unat ?rem < fuel"
        using Suc.prems(2,3) True pool_qlen(2) [OF Suc.prems(2), of rem] by (simp add: word_less_nat_alt)
      have ok: "heap_ok ?h" using Suc.prems(1) pre by (auto simp: heap_ok_def sh)
      have lk: "linked ?h ?p (cs @ [?q])"
      proof (cases cs)
        case Nil
        then show ?thesis using Suc.prems(4) q by simp
      next
        case (Cons c cs')
        then have ne: "cs \<noteq> []" "p \<noteq> None" "last_q = last cs" using Suc.prems(4,8) by auto
        have "h_pbuf ?h x = h_pbuf h x" if "x \<in> set cs" "x \<noteq> last cs" for x
          using that ne nq sh(1) by auto
        moreover have "h_pbuf ?h (last cs) = Some (lb\<lparr>p_next := Some ?q\<rparr>)" "h_pbuf h (last cs) = Some lb"
          using ne pre sh(1) by auto
        ultimately have "linked ?h p (cs @ [?q])"
          using linked_snoc [OF Suc.prems(4) ne(1) Suc.prems(5), of lb ?h ?q ?b] q by auto
        then show ?thesis using ne(2) by auto
      qed
      have fr: "all_freeable ?h (cs @ [?q])" "\<forall>a\<in>set (cs @ [?q]). ref_of ?h a = 1"
        using Suc.prems(4,6,7) q sh(1) pre
        by (auto simp: all_freeable_def ref_of_def split: option.splits if_splits)
      have dis: "distinct (cs @ [?q])" using Suc.prems(5) nq by simp
      obtain r h' where h': "pbuf_pool_loop fuel ?p ?q ?rem 0 ?h = Some (r, h')"
        "r = None \<longrightarrow> h_pbuf h' = (\<lambda>x. if x \<in> set (cs @ [?q]) then None else h_pbuf ?h x) \<and>
                     h_mem h' = (\<lambda>x. if x \<in> set (cs @ [?q]) then None else h_mem ?h x)"
      proof -
        have "unat (0 :: u16) < 1514" "cs @ [?q] \<noteq> [] \<longrightarrow> ?q = last (cs @ [?q])" by simp_all
        from Suc.IH [OF ok this(1) lt lk dis fr this(2)] that show thesis by blast
      qed
      have "h_pbuf h ?q = None" "h_mem h ?q = None" using Suc.prems(1) by (simp_all add: heap_ok_def)
      moreover have "p \<noteq> None \<Longrightarrow> last_q \<in> set cs" using Suc.prems(4,8) by (cases cs) auto
      ultimately have "r = None \<longrightarrow> h_pbuf h' = (\<lambda>x. if x \<in> set cs then None else h_pbuf h x) \<and>
                   h_mem h' = (\<lambda>x. if x \<in> set cs then None else h_mem h x)"
        using h'(2) sh(1,2) by (auto simp: fun_eq_iff)
      moreover have "pbuf_pool_loop (Suc fuel) p last_q rem off h = Some (r, h')"
        using st True h'(1) by (simp only: Let_def if_True)
      ultimately show ?thesis by blast
    next
      case False
      then have "pbuf_pool_loop (Suc fuel) p last_q rem off h = Some (?p, ?h)"
        using st by (simp only: Let_def if_False)
      then show ?thesis by (intro exI [of _ ?p] exI [of _ ?h]) (auto simp del: pbuf_pool_loop.simps)
    qed
  qed
qed

lemma pbuf_alloc_pool_none:
  assumes "heap_ok h" "pbuf_alloc l n PBUF_POOL h = Some (None, h')"
  shows "h_pbuf h' = h_pbuf h" "h_mem h' = h_mem h"
proof -
  have "unat (layer_offset l) < 1514" using layer_offset_le [of l] by simp
  from pool_loop_outcome [OF assms(1) this, of n "Suc (unat n)" None "[]" 0] assms(2)
  show "h_pbuf h' = h_pbuf h" "h_mem h' = h_mem h"
    by (simp_all add: pbuf_alloc_def all_freeable_def del: pbuf_pool_loop.simps)
qed

subsection \<open>Shrinking\<close>

text \<open>Every pbuf carries its data in its own allocation, as \<^verbatim>\<open>PBUF_RAM\<close> and \<^verbatim>\<open>PBUF_POOL\<close> pbufs do.\<close>

definition owned :: "heap \<Rightarrow> addr list \<Rightarrow> bool" where
  "owned h as = (\<forall>a\<in>set as. block h a = Some a)"

lemma owned_distinct_blocks: "owned h as \<Longrightarrow> distinct as \<Longrightarrow> distinct (map (block h) as)"
  by (auto simp: owned_def distinct_map inj_on_def)

lemma owned_blocks_live: "heap_ok h \<Longrightarrow> pchain h p as \<Longrightarrow> owned h as \<Longrightarrow> blocks_live h as"
  unfolding blocks_live_def owned_def
proof (intro ballI allI impI)
  fix a blk assume a: "heap_ok h" "pchain h p as" "\<forall>a\<in>set as. block h a = Some a" "a \<in> set as" "block h a = Some blk"
  then have "h_pbuf h a \<noteq> None" "blk = a" using pchain_live [OF a(2,4)] by auto
  then show "blk < h_next h" using a(1) by (auto simp: heap_ok_def not_less [symmetric])
qed

lemma pbuf_realloc_loop_chain:
  "pchain h (Some q) as \<Longrightarrow> unat rem \<le> length (cdata h as) \<Longrightarrow> length as < fuel \<Longrightarrow>
   \<exists>xs a ys r h'. pbuf_realloc_loop fuel q rem shrink h = Some (a, r, h') \<and> as = xs @ a # ys \<and>
     unat rem = length (cdata h xs) + unat r \<and> unat r \<le> length (adata h a) \<and>
     h_mem h' = h_mem h \<and> h_next h' = h_next h \<and>
     h_pbuf h' = (\<lambda>x. if x \<in> set xs then map_option (\<lambda>b. b\<lparr>p_tot_len := p_tot_len b - shrink\<rparr>) (h_pbuf h x) else h_pbuf h x)"
proof (induction as arbitrary: q rem fuel h)
  case (Cons a as)
  from Cons.prems obtain f where f: "fuel = Suc f" "length as < f" by (cases fuel) auto
  obtain b where b: "Some q = Some a" "h_pbuf h a = Some b" "pchain h (p_next b) as"
    "adata h a = pdata h b" "length (pdata h b) = unat (p_len b)"
    using Cons.prems(1) by (rule pchain_ConsE)
  show ?case
  proof (cases "rem > p_len b")
    case False
    then show ?thesis
      using f b by (intro exI [of _ "[]"] exI [of _ a] exI [of _ as] exI [of _ rem] exI [of _ h])
        (simp add: word_less_nat_alt)
  next
    case True
    let ?h = "set_pbuf a (b\<lparr>p_tot_len := p_tot_len b - shrink\<rparr>) h"
    have lt: "unat (p_len b) < unat rem" using True by (simp add: word_less_nat_alt)
    then have u: "unat (rem - p_len b) = unat rem - unat (p_len b)" by (simp add: unat_sub_le)
    have "as \<noteq> []" using Cons.prems(2) lt b(4,5) by auto
    then obtain q' where q': "p_next b = Some q'" using b(3) by (cases as) auto
    have na: "a \<notin> set as" using pchain_distinct [OF Cons.prems(1)] by simp
    note s = same_on_set_pbuf [OF na, of h "b\<lparr>p_tot_len := p_tot_len b - shrink\<rparr>"]
    have "unat (rem - p_len b) \<le> length (cdata ?h as)"
      using Cons.prems(2) u lt b(4,5) cdata_same_on [OF s] by simp
    then obtain xs c ys r h' where i: "pbuf_realloc_loop f q' (rem - p_len b) shrink ?h = Some (c, r, h')"
      "as = xs @ c # ys" "unat (rem - p_len b) = length (cdata ?h xs) + unat r" "unat r \<le> length (adata ?h c)"
      "h_mem h' = h_mem h" "h_next h' = h_next h"
      "h_pbuf h' = (\<lambda>x. if x \<in> set xs then map_option (\<lambda>b. b\<lparr>p_tot_len := p_tot_len b - shrink\<rparr>) (h_pbuf ?h x) else h_pbuf ?h x)"
      using Cons.IH [of ?h q' "rem - p_len b" f] pchain_same_on [OF b(3) s] q' f(2) by auto
    have sx: "same_on xs h ?h" "same_on [c] h ?h" using s i(2) by (simp_all add: same_on_def)
    have "h_pbuf h' = (\<lambda>x. if x \<in> set (a # xs) then map_option (\<lambda>b. b\<lparr>p_tot_len := p_tot_len b - shrink\<rparr>) (h_pbuf h x) else h_pbuf h x)"
      using i(7) b(2) na i(2) by (auto simp: fun_eq_iff)
    moreover have "unat rem = length (cdata h (a # xs)) + unat r"
      using i(3) u lt b(4,5) cdata_same_on [OF sx(1)] by simp
    moreover have "unat r \<le> length (adata h c)" using i(4) adata_same_on [OF sx(2), of c] by simp
    moreover have "pbuf_realloc_loop fuel q rem shrink h = Some (c, r, h')"
      using f b q' i(1) True by (simp add: Let_def)
    ultimately show ?thesis
      using i(2,5,6) by (intro exI [of _ "a # xs"] exI [of _ c] exI [of _ ys] exI [of _ r] exI [of _ h']) simp
  qed
qed simp

text \<open>The chain that remains.\<close>

lemma pchain_shrunk:
  "pchain h q (xs @ a # ys) \<Longrightarrow> h_pbuf h a = Some b \<Longrightarrow> unat r \<le> unat (p_len b) \<Longrightarrow>
   unat shrink = length (cdata h (a # ys)) - unat r \<Longrightarrow>
   (\<And>x. x \<in> set xs \<Longrightarrow> h_pbuf h' x = map_option (\<lambda>b. b\<lparr>p_tot_len := p_tot_len b - shrink\<rparr>) (h_pbuf h x)) \<Longrightarrow>
   h_pbuf h' a = Some (b\<lparr>p_len := r, p_tot_len := r, p_next := None\<rparr>) \<Longrightarrow>
   (\<And>x blk. x \<in> set (xs @ [a]) \<Longrightarrow> block h x = Some blk \<Longrightarrow> h_mem h' blk = h_mem h blk) \<Longrightarrow>
   pchain h' q (xs @ [a]) \<and> cdata h' (xs @ [a]) = cdata h xs @ take (unat r) (adata h a)"
proof (induction xs arbitrary: q)
  case Nil
  let ?b = "b\<lparr>p_len := r, p_tot_len := r, p_next := None\<rparr>"
  have b: "q = Some a" "pay_ok h b" using Nil.prems(1,2) by auto
  have "pdata h ?b = take (unat r) (pdata h b)"
    using Nil.prems(3) by (auto simp: pdata_def slice_def min_def split: option.split)
  moreover have "pay_ok h ?b"
    using b(2) Nil.prems(3) by (auto simp: pay_ok_def word_unat_eq_iff split: option.split)
  moreover have "pdata h' ?b = pdata h ?b" "pay_ok h' ?b = pay_ok h ?b"
    using pdata_same [of ?b h' h] Nil.prems(2,7) by auto
  ultimately show ?case using b Nil.prems(2,3,6) by (simp add: length_pdata)
next
  case (Cons x xs)
  obtain c where c: "q = Some x" "h_pbuf h x = Some c" "pay_ok h c" "pchain h (p_next c) (xs @ a # ys)"
    "unat (p_tot_len c) = unat (p_len c) + length (cdata h (xs @ a # ys))" "adata h x = pdata h c"
    "length (pdata h c) = unat (p_len c)"
    using Cons.prems(1) unfolding append_Cons by (rule pchain_ConsE)
  let ?c = "c\<lparr>p_tot_len := p_tot_len c - shrink\<rparr>"
  have i: "pchain h' (p_next c) (xs @ [a])" "cdata h' (xs @ [a]) = cdata h xs @ take (unat r) (adata h a)"
    using Cons.IH [OF c(4) Cons.prems(2-4)] Cons.prems(5-7) by auto
  have la: "length (adata h a) = unat (p_len b)"
    using pchain_append [OF c(4)] Cons.prems(2) by (auto simp: length_pdata)
  have "unat (p_tot_len c - shrink) = unat (p_tot_len c) - unat shrink"
    using c(5) Cons.prems(4) by (intro unat_sub_le) simp
  moreover have "h_mem h' blk = h_mem h blk" if "map_option fst (p_payload c) = Some blk" for blk
    using Cons.prems(7) [of x blk] c(2) that by simp
  then have "pdata h' ?c = pdata h c" "pay_ok h' ?c"
    using pdata_same [of c h' h] c(3) by simp_all
  moreover have "h_pbuf h' x = Some ?c" using Cons.prems(5) [of x] c(2) by simp
  ultimately show ?case
    using c i la Cons.prems(3,4) by simp
qed

lemma pbuf_realloc_chain:
  assumes h: "heap_ok h" "pchain h (Some p) as" "owned h as" "all_freeable h as" "unat n < length (cdata h as)"
  shows "\<exists>h' bs cs. pbuf_realloc (Some p) n h = Some h' \<and> as = bs @ cs \<and> pchain h' (Some p) bs \<and>
    cdata h' bs = take (unat n) (cdata h as)"
proof -
  obtain b0 where b0: "h_pbuf h p = Some b0" "unat (p_tot_len b0) = length (cdata h as)"
    using h(2) by (cases as) (auto split: option.splits)
  let ?sh = "p_tot_len b0 - n"
  have sh: "unat ?sh = length (cdata h as) - unat n" using b0(2) h(5) by (simp add: unat_sub_le)
  obtain xs a ys r h1 where l: "pbuf_realloc_loop (walk h) p n ?sh h = Some (a, r, h1)" "as = xs @ a # ys"
    "unat n = length (cdata h xs) + unat r" "unat r \<le> length (adata h a)" "h_mem h1 = h_mem h" "h_next h1 = h_next h"
    "h_pbuf h1 = (\<lambda>x. if x \<in> set xs then map_option (\<lambda>b. b\<lparr>p_tot_len := p_tot_len b - ?sh\<rparr>) (h_pbuf h x) else h_pbuf h x)"
    using pbuf_realloc_loop_chain [OF h(2) _ pchain_fuel [OF h(1,2)], of n ?sh] h(5) by auto
  have dist: "distinct (xs @ a # ys)" using pchain_distinct [OF h(2)] l(2) by simp
  obtain q where qc: "pchain h q (a # ys)" using pchain_append h(2) l(2) by blast
  then obtain b where b: "h_pbuf h a = Some b" "pchain h (p_next b) ys" "length (adata h a) = unat (p_len b)"
    by (rule pchain_ConsE) simp
  have b1: "h_pbuf h1 a = Some b" using l(7) b(1) dist by simp
  let ?b = "b\<lparr>p_len := r, p_tot_len := r\<rparr>"
  let ?h2 = "set_pbuf a ?b h1"
  let ?h3 = "release ys ?h2"
  let ?h4 = "set_pbuf a (?b\<lparr>p_next := None\<rparr>) ?h3"
  have y2: "h_pbuf ?h2 y = h_pbuf h y" if "y \<in> set ys" for y using that l(7) dist by auto
  have fr: "(case p_next b of None \<Rightarrow> Some ?h2 | Some n \<Rightarrow> map_option snd (pbuf_free (Some n) ?h2)) = Some ?h3"
  proof (cases ys)
    case (Cons y zs)
    have "p_next b = Some y" using b(2) Cons by simp
    then have k: "linked ?h2 (Some y) ys" using linked_cong [OF pchain_linked [OF b(2)] y2] by simp
    have "all_freeable ?h2 ys" using h(4) l(2) y2 by (auto simp: all_freeable_def)
    moreover have "length ys < walk ?h2"
      using pchain_fuel [OF h(1) qc] l(6) by (simp add: walk_def)
    ultimately have "pbuf_free (Some y) ?h2 = Some (of_nat (length (released ?h2 ys)), ?h3)"
      using pbuf_free_loop_linked [OF k, of "walk ?h2" 0] dist by (simp add: pbuf_free_def)
    then show ?thesis using b(2) Cons by simp
  qed (use b(2) in simp)
  have a3: "h_pbuf ?h3 a = Some ?b" using release_other [of a ys ?h2] dist by simp
  have "pbuf_realloc (Some p) n h = Some ?h4"
    using b0 l(1) h(5) b1 fr a3
    by (simp add: pbuf_realloc_def word_le_nat_alt Let_def)
  moreover have "pchain ?h4 (Some p) (xs @ [a]) \<and> cdata ?h4 (xs @ [a]) = cdata h xs @ take (unat r) (adata h a)"
  proof (rule pchain_shrunk)
    show "pchain h (Some p) (xs @ a # ys)" using h(2) l(2) by simp
    show "h_pbuf h a = Some b" "unat r \<le> unat (p_len b)" using b l(4) by simp_all
    show "unat ?sh = length (cdata h (a # ys)) - unat r" using sh l(2,3) by simp
    show "h_pbuf ?h4 x = map_option (\<lambda>b. b\<lparr>p_tot_len := p_tot_len b - ?sh\<rparr>) (h_pbuf h x)" if "x \<in> set xs" for x
    proof -
      have "x \<notin> set ys" "x \<noteq> a" using that dist by auto
      then show ?thesis using that release_other [of x ys ?h2] l(7) by simp
    qed
    show "h_pbuf ?h4 a = Some (b\<lparr>p_len := r, p_tot_len := r, p_next := None\<rparr>)" by simp
    show "h_mem ?h4 blk = h_mem h blk" if "x \<in> set (xs @ [a])" "block h x = Some blk" for x blk
    proof -
      have "blk = x" "x \<notin> set ys" using that h(3) l(2) dist by (auto simp: owned_def)
      then show ?thesis using release_other [of blk ys ?h2] l(5) by simp
    qed
  qed
  moreover have "take (unat n) (cdata h as) = cdata h xs @ take (unat r) (adata h a)"
    using l(2-4) by simp
  ultimately show ?thesis
    using l(2) by (intro exI [of _ ?h4] exI [of _ "xs @ [a]"] exI [of _ ys]) simp
qed

subsection \<open>Cloning\<close>

text \<open>No pbuf of the chain is empty, so that no pbuf looks like the end of a packet in a queue.\<close>

definition no_empty :: "heap \<Rightarrow> addr list \<Rightarrow> bool" where
  "no_empty h as = (\<forall>a\<in>set as. adata h a \<noteq> [])"

lemma no_empty_in_queue:
  assumes "pchain h p as" "no_empty h as"
  shows "pbuf_in_queue h p = Some False"
proof (cases as)
  case Nil
  then show ?thesis using assms(1) by (simp add: pbuf_in_queue_def)
next
  case (Cons a xs)
  obtain b where b: "p = Some a" "h_pbuf h a = Some b" "pchain h (p_next b) xs"
    "unat (p_tot_len b) = unat (p_len b) + length (cdata h xs)"
    using assms(1) unfolding Cons by (rule pchain_ConsE)
  have "p_next b = None" if "p_len b = p_tot_len b"
  proof (cases xs)
    case (Cons y ys)
    then have "adata h y \<noteq> []" using assms(2) \<open>as = a # xs\<close> by (simp add: no_empty_def)
    then show ?thesis using that b(4) Cons by simp
  qed (use b(3) in simp)
  then show ?thesis using b by (auto simp: pbuf_in_queue_def)
qed

text \<open>Copying a chain into one pbuf that has room for it.\<close>

lemma pbuf_copy_loop_single:
  "pchain h (Some t) [t] \<Longrightarrow> pchain h (Some f) as \<Longrightarrow> no_empty h as \<Longrightarrow> block h t \<notin> block h ` set as \<Longrightarrow>
   ot + length (cdata h as) \<le> length (adata h t) \<Longrightarrow> length as \<le> fuel \<Longrightarrow>
   \<exists>h'. pbuf_copy_loop fuel t f ot 0 h = Some (ERR_OK, h') \<and>
     adata h' t = overwrite ot (cdata h as) (adata h t) \<and> mem_frame {block h t} h h'"
proof (induction as arbitrary: f ot fuel h)
  case (Cons a as)
  obtain n where n: "fuel = Suc n" "length as \<le> n" using Cons.prems(6) by (cases fuel) auto
  obtain tb where t: "h_pbuf h t = Some tb" "pay_ok h tb" "p_next tb = None" "adata h t = pdata h tb"
    "length (pdata h tb) = unat (p_len tb)" "unat (p_tot_len tb) = unat (p_len tb)"
    using Cons.prems(1) by (rule pchain_ConsE) simp
  obtain b where b: "Some f = Some a" "h_pbuf h a = Some b" "pay_ok h b" "pchain h (p_next b) as"
    "adata h a = pdata h b" "length (pdata h b) = unat (p_len b)"
    using Cons.prems(2) by (rule pchain_ConsE)
  have len: "ot + unat (p_len b) \<le> unat (p_len tb)" using Cons.prems(5) t b by simp
  have rd: "mem_read h (p_payload b) 0 (unat (p_len b)) = Some (pdata h b)"
    using mem_read_pdata [OF b(3), of 0 "unat (p_len b)"] b(6) by (simp add: slice_def)
  obtain h1 where h1: "mem_write h (p_payload tb) ot (pdata h b) = Some h1"
    "pdata h1 tb = overwrite ot (pdata h b) (pdata h tb)" "mem_frame {block h t} h h1"
    using mem_write_pdata [OF t(2), of ot "pdata h b"] len b(6) t(1) by auto
  have disj: "{block h t} \<inter> block h ` set (a # as) = {}" using Cons.prems(4) by auto
  have s: "same_on (a # as) h h1" using mem_frame_same_on [OF h1(3) disj] .
  have blk: "block h1 = block h" "h_pbuf h1 = h_pbuf h" using h1(3) by (simp_all add: mem_frame_def block_def fun_eq_iff)
  have c1: "pchain h1 (p_next b) as" "cdata h1 as = cdata h as"
    using pchain_same_on [OF b(4) same_on_Cons [OF s]] cdata_same_on [OF same_on_Cons [OF s]] by blast+
  have ne: "no_empty h1 as"
    using Cons.prems(3) adata_same_on [OF s] by (simp add: no_empty_def)
  have q1: "pbuf_in_queue h1 (p_next b) = Some False" by (rule no_empty_in_queue [OF c1(1) ne])
  have q2: "pbuf_in_queue h1 (Some t) = Some False" "pbuf_in_queue h1 None = Some False"
    using t blk by (simp_all add: pbuf_in_queue_def)
  have m: "unat (p_len b) \<le> unat (p_len tb) - ot" using len by linarith
  show ?case
  proof (cases as)
    case Nil
    then have "p_next b = None" using b(4) by simp
    then have "pbuf_copy_step t f ot 0 h = Some (Inl ERR_OK, h1)"
      using t b len m rd h1(1) q1 q2 by (simp add: pbuf_copy_step_def Let_def)
    then show ?thesis using n h1 t b Nil blk by (intro exI [of _ h1]) simp
  next
    case (Cons a' as')
    then have nx: "p_next b = Some a'" using b(4) by simp
    have "0 < length (adata h a')" using Cons.prems(3) Cons by (simp add: no_empty_def)
    then have nd: "ot + unat (p_len b) \<noteq> unat (p_len tb)"
      using Cons.prems(5) t(4,5) b(5,6) Cons by (simp del: length_greater_0_conv)
    have step: "pbuf_copy_step t f ot 0 h = Some (Inr (t, a', ot + unat (p_len b), 0), h1)"
      using t b len m nd nx rd h1(1) q1 q2 by (simp add: pbuf_copy_step_def Let_def)
    have t1: "pchain h1 (Some t) [t]" "length (adata h1 t) = length (adata h t)"
      using pchain_mem_frame [OF h1(3) Cons.prems(1)] t blk h1(2) len b(6) by simp_all
    obtain h' where h': "pbuf_copy_loop n t a' (ot + unat (p_len b)) 0 h1 = Some (ERR_OK, h')"
      "adata h' t = overwrite (ot + unat (p_len b)) (cdata h1 as) (adata h1 t)" "mem_frame {block h1 t} h1 h'"
      using Cons.IH [of h1 a' "ot + unat (p_len b)" n] t1 c1 nx ne Cons.prems(4,5) n(2) blk b(5,6) by auto
    have "adata h' t = overwrite ot (cdata h (a # as)) (adata h t)"
      using h'(2) h1(2) c1(2) t(1,4,5) blk b(5,6) len Cons.prems(5)
        overwrite_append [of ot "pdata h b" "cdata h as" "pdata h tb"] by simp
    moreover have "mem_frame {block h t} h h'" using mem_frame_trans [OF h1(3) h'(3)] blk by simp
    ultimately show ?thesis using n step h'(1) by (intro exI [of _ h']) simp
  qed
qed simp

lemma pbuf_clone_chain:
  assumes h: "heap_ok h" "pchain h (Some p) as" "blocks_live h as" "no_empty h as" "\<not> h_fail h (h_next h)"
    and n: "unat (layer_offset l) + length (cdata h as) < 65536"
  shows "\<exists>h'. pbuf_clone l PBUF_RAM p h = Some (Some (h_next h), h') \<and>
    pchain h' (Some (h_next h)) [h_next h] \<and> cdata h' [h_next h] = cdata h as \<and>
    pchain h' (Some p) as \<and> cdata h' as = cdata h as"
proof -
  obtain b where b: "h_pbuf h p = Some b" "unat (p_tot_len b) = length (cdata h as)"
    using h(2) by (cases as) (auto split: option.splits)
  let ?t = "h_next h"
  obtain h1 tb where a: "pbuf_alloc l (p_tot_len b) PBUF_RAM h = Some (Some ?t, h1)" "heap_ok h1" "extends h h1"
    "pchain h1 (Some ?t) [?t]" "length (cdata h1 [?t]) = length (cdata h as)" "h_pbuf h1 ?t = Some tb"
    "p_payload tb = Some (?t, int (unat (layer_offset l)))"
    using pbuf_alloc_ram_chain [OF h(1,5), of l "p_tot_len b"] n b(2) by auto
  have c: "pchain h1 (Some p) as" "cdata h1 as = cdata h as" using pchain_extends [OF h(1) a(3) h(2,3)] .
  have live: "x < ?t" if "x \<in> set as" for x
    using pchain_live [OF h(2) that] h(1) by (auto simp: heap_ok_def not_less [symmetric])
  have ex: "h_pbuf h1 x = h_pbuf h x" "h_mem h1 x = h_mem h x" if "x < ?t" for x
    using a(3) that by (simp_all add: extends_def)
  have blk: "block h1 x = block h x" if "x \<in> set as" for x
    using live [OF that] ex by (simp add: block_def)
  have bt: "block h1 ?t = Some ?t" using a(6,7) by simp
  have "block h1 ?t \<notin> block h1 ` set as"
    using h(3) blk bt unfolding blocks_live_def by fastforce
  moreover have "adata h1 x = adata h x" if "x \<in> set as" for x
    using that live ex h(3) unfolding blocks_live_def adata_def
    by (auto simp: block_def split: option.splits intro!: pdata_same)
  then have "no_empty h1 as" using h(4) by (simp add: no_empty_def)
  ultimately obtain h' where h': "pbuf_copy_loop (2 * walk h1) ?t p 0 0 h1 = Some (ERR_OK, h')"
    "adata h' ?t = overwrite 0 (cdata h1 as) (adata h1 ?t)" "mem_frame {block h1 ?t} h1 h'"
    using pbuf_copy_loop_single [OF a(4) c(1), of 0 "2 * walk h1"] a(5) c(2) pchain_fuel [OF a(2) c(1)] by auto
  have p1: "h_pbuf h1 p = Some b" using b(1) c(1) ex live h(2) by (cases as) auto
  have "p_tot_len tb \<ge> p_tot_len b" using a(4,5,6) b(2) by (simp add: word_le_nat_alt)
  then have "pbuf_copy (Some ?t) (Some p) h1 = Some (ERR_OK, h')"
    using a(6) p1 h'(1) by (simp add: pbuf_copy_def)
  then have "pbuf_clone l PBUF_RAM p h = Some (Some ?t, h')"
    using b(1) a(1) by (simp add: pbuf_clone_def)
  moreover have "cdata h' [?t] = cdata h as"
    using h'(2) a(5) c(2) by (simp add: overwrite_def)
  moreover have "same_on as h1 h'"
    using mem_frame_same_on [OF h'(3)] \<open>block h1 ?t \<notin> block h1 ` set as\<close> by auto
  ultimately show ?thesis
    using pchain_mem_frame [OF h'(3) a(4)] pchain_mem_frame [OF h'(3) c(1)] c(2) cdata_same_on [of as h1 h']
    by (intro exI [of _ h'] conjI) (simp_all only:)
qed

text \<open>Allocating a \<^verbatim>\<open>PBUF_RAM\<close> pbuf and taking data into it, as the packet sources of the proxy do.\<close>

lemma pbuf_alloc_take:
  assumes "heap_ok h" "\<not> h_fail h (h_next h)" "unat (layer_offset l) + length data < 65536"
  shows "\<exists>h1 h2 b. pbuf_alloc l (of_nat (length data)) PBUF_RAM h = Some (Some (h_next h), h1) \<and>
    pbuf_take (Some (h_next h)) data h1 = Some (ERR_OK, h2) \<and> heap_ok h2 \<and> extends h h2 \<and>
    pchain h2 (Some (h_next h)) [h_next h] \<and> cdata h2 [h_next h] = data \<and> owned h2 [h_next h] \<and> all_freeable h2 [h_next h] \<and>
    h_pbuf h2 (h_next h) = Some b \<and> pay_ok h2 b \<and> pdata h2 b = data \<and> p_len b = of_nat (length data) \<and> 
    p_tot_len b = of_nat (length data) \<and> p_next b = None \<and> p_payload b = Some (h_next h, int (unat (layer_offset l)))"
proof -
  let ?a = "h_next h" and ?n = "of_nat (length data) :: u16"
  have n: "unat ?n = length data" using assms(3) by (simp add: unat_of_nat)
  obtain h1 b where h1: "pbuf_alloc l ?n PBUF_RAM h = Some (Some ?a, h1)" "heap_ok h1" "extends h h1"
    "pchain h1 (Some ?a) [?a]" "length (cdata h1 [?a]) = length data"
    and b: "h_pbuf h1 ?a = Some b" "p_payload b = Some (?a, int (unat (layer_offset l)))"
    "p_len b = ?n" "p_ref b = 1" "p_type b = 0x80" "p_flags b = 0" "p_next b = None"
    using pbuf_alloc_ram_chain [OF assms(1,2), of l ?n] assms(3) n by auto
  obtain h2 where h2: "pbuf_take (Some ?a) data h1 = Some (ERR_OK, h2)" "pchain h2 (Some ?a) [?a]"
    "cdata h2 [?a] = data" "mem_frame (block h1 ` set [?a]) h1 h2"
    using pbuf_take_chain [OF h1(2,4), of data] h1(5) by auto
  have b2: "h_pbuf h2 ?a = Some b" using h2(4) b(1) by (simp add: mem_frame_def)
  have blk: "block h1 ?a = Some ?a" using b by simp
  have ext: "extends h h2" using h2(4) h1(3) blk by (auto simp: mem_frame_def extends_def)
  have pl: "pay_ok h2 b" "pdata h2 b = data" "unat (p_tot_len b) = length data"
    using h2(2,3) b2 n b(3) by (auto)
  have "p_tot_len b = ?n" using pl(3) n by (simp add: word_unat_eq_iff)
  moreover have "all_freeable h2 [?a]" "owned h2 [?a]"
    using b b2 by (simp_all add: all_freeable_def freeable_def owned_def pbuf_get_allocsrc_def PBUF_TYPE_ALLOC_SRC_MASK_def
      PBUF_FLAG_IS_CUSTOM_def PBUF_TYPE_ALLOC_SRC_MASK_STD_HEAP_def)
  ultimately show ?thesis
    using h1(1) h2 mem_frame_heap_ok [OF h2(4) h1(2)] ext b2 pl b by blast
qed

end
