(* ===== verification/Pbuf_Props.thy ===== *)
theory Pbuf_Props
  imports Pbuf_Ops
begin

text \<open>
  The contract of packet buffers towards the code that fills and reads them, its interpretation on
  \<^verbatim>\<open>pbuf_take\<close> and \<^verbatim>\<open>pbuf_copy_partial\<close>, and the properties of \<^verbatim>\<open>pbuf.c\<close>. The witnesses run on a
  two-pbuf chain and on an empty heap.
\<close>

subsection \<open>The buffer interface\<close>

text \<open>\<open>holds h p xs\<close>: in state \<open>h\<close> the buffer \<open>p\<close> is writable and holds the bytes \<open>xs\<close>.\<close>

locale packet_buffer =
  fixes holds :: "'h \<Rightarrow> 'p \<Rightarrow> bytes \<Rightarrow> bool"
    and fill :: "'p \<Rightarrow> bytes \<Rightarrow> 'h \<Rightarrow> (err_t \<times> 'h) option"
    and fetch :: "'p \<Rightarrow> u16 \<Rightarrow> u16 \<Rightarrow> 'h \<Rightarrow> (u16 \<times> bytes) option"
  assumes holds_short: "holds h p xs \<Longrightarrow> length xs < 65536"
    and fill_fits: "holds h p xs \<Longrightarrow> length ys \<le> length xs \<Longrightarrow>
      \<exists>h'. fill p ys h = Some (ERR_OK, h') \<and> holds h' p (ys @ drop (length ys) xs)"
    and fill_refused: "holds h p xs \<Longrightarrow> length xs < length ys \<Longrightarrow> fill p ys h = Some (ERR_MEM, h)"
    and fetch_bytes: "holds h p xs \<Longrightarrow>
      fetch p n off h = (let r = take (unat n) (drop (unat off) xs) in Some (of_nat (length r), r))"
begin

lemma fetch_after_fill:
  assumes "holds h p xs" "length ys \<le> length xs"
  shows "\<exists>h'. fill p ys h = Some (ERR_OK, h') \<and> fetch p (of_nat (length ys)) 0 h' = Some (of_nat (length ys), ys)"
proof -
  obtain h' where h': "fill p ys h = Some (ERR_OK, h')" "holds h' p (ys @ drop (length ys) xs)"
    using fill_fits [OF assms] by blast
  have "unat (of_nat (length ys) :: u16) = length ys"
    using assms(2) holds_short [OF assms(1)] by (simp add: unat_of_nat)
  with fetch_bytes [OF h'(2), of "of_nat (length ys)" 0] h'(1) show ?thesis by (simp add: Let_def)
qed

lemma fill_preserves_rest:
  assumes "holds h p xs" "length ys \<le> length xs" "fill p ys h = Some (e, h')"
    and "unat off = length ys"
  shows "fetch p n off h' = fetch p n off h"
proof -
  obtain h2 where "fill p ys h = Some (ERR_OK, h2)" "holds h2 p (ys @ drop (length ys) xs)"
    using fill_fits [OF assms(1,2)] by blast
  then show ?thesis using assms by (simp add: fetch_bytes)
qed

end

definition pbuf_holds :: "heap \<Rightarrow> addr option \<Rightarrow> bytes \<Rightarrow> bool" where
  "pbuf_holds h p xs =
     (heap_ok h \<and> (\<exists>as. as \<noteq> [] \<and> pchain h p as \<and> distinct (map (block h) as) \<and> cdata h as = xs))"

lemma pbuf_holdsE:
  assumes "pbuf_holds h p xs"
  obtains a as where "heap_ok h" "p = Some a" "pchain h (Some a) as" "distinct (map (block h) as)" "cdata h as = xs"
proof -
  obtain as where as: "heap_ok h" "as \<noteq> []" "pchain h p as" "distinct (map (block h) as)" "cdata h as = xs"
    using assms by (auto simp: pbuf_holds_def)
  then obtain a where "p = Some a" by (cases as) auto
  then show thesis using as that by blast
qed

interpretation pb: packet_buffer pbuf_holds pbuf_take pbuf_copy_partial
proof
  fix h p xs assume H: "pbuf_holds h p xs"
  then obtain a as where as: "heap_ok h" "p = Some a" "pchain h (Some a) as" "distinct (map (block h) as)" "cdata h as = xs"
    by (rule pbuf_holdsE)
  show "length xs < 65536" using pchain_length_lt [OF as(3)] as(5) by simp
  show "pbuf_copy_partial p n off h = (let r = take (unat n) (drop (unat off) xs) in Some (of_nat (length r), r))" for n off
    using pbuf_copy_partial_chain [OF as(1,3)] as(2,5) by simp
  show "pbuf_take p ys h = Some (ERR_MEM, h)" if "length xs < length ys" for ys
    using pbuf_take_too_small [OF as(3)] as(2,5) that by simp
  show "\<exists>h'. pbuf_take p ys h = Some (ERR_OK, h') \<and> pbuf_holds h' p (ys @ drop (length ys) xs)"
    if le: "length ys \<le> length xs" for ys
  proof -
    obtain h' where h': "pbuf_take (Some a) ys h = Some (ERR_OK, h')" "pchain h' (Some a) as"
      "cdata h' as = ys @ drop (length ys) (cdata h as)" "mem_frame (block h ` set as) h h'"
      using pbuf_take_chain [OF as(1,3,4), of ys] as(5) le by auto
    have "block h' = block h" using h'(4) by (simp add: mem_frame_def block_def fun_eq_iff)
    moreover have "as \<noteq> []" using as(3) by auto
    ultimately show ?thesis
      using h' as mem_frame_heap_ok by (auto simp: pbuf_holds_def)
  qed
qed

subsection \<open>Sample heaps\<close>

definition empty_heap :: heap where
  "empty_heap = \<lparr>h_pbuf = Map.empty, h_mem = Map.empty, h_next = 0, h_fail = (\<lambda>_. False), h_fill = (\<lambda>_ _. 0),
                 pbuf_free_ooseq_pending = False\<rparr>"

definition sample_pbuf :: "addr \<Rightarrow> u16 \<Rightarrow> u16 \<Rightarrow> u8 \<Rightarrow> addr option \<Rightarrow> pbuf" where
  "sample_pbuf a tot n r nx =
     \<lparr>p_next = nx, p_payload = Some (a, 0), p_tot_len = tot, p_len = n, p_type = 0x80, p_flags = 0, p_ref = r,
      p_if_idx = 0, p_custom = None\<rparr>"

definition sample_heap :: heap where
  "sample_heap = empty_heap\<lparr>h_next := 3,
     h_pbuf := [0 \<mapsto> sample_pbuf 0 5 3 1 (Some 1), 1 \<mapsto> sample_pbuf 1 2 2 2 None, 2 \<mapsto> sample_pbuf 2 2 2 1 None],
     h_mem := [0 \<mapsto> [1, 2, 3], 1 \<mapsto> [4, 5], 2 \<mapsto> [6, 7]]\<rparr>"

lemmas sample_simps = sample_heap_def empty_heap_def sample_pbuf_def pay_ok_def pdata_def adata_def slice_def
  block_def freeable_def pbuf_get_allocsrc_def PBUF_TYPE_ALLOC_SRC_MASK_def PBUF_FLAG_IS_CUSTOM_def
  PBUF_TYPE_ALLOC_SRC_MASK_STD_HEAP_def all_freeable_def ref_of_def owned_def no_empty_def blocks_live_def

lemma sample_chain:
  "heap_ok sample_heap" "pchain sample_heap (Some 0) [0, 1]" "pchain sample_heap (Some 2) [2]"
  "cdata sample_heap [0, 1] = [1, 2, 3, 4, 5]" "cdata sample_heap [2] = [6, 7]"
  "all_freeable sample_heap [0, 1]" "owned sample_heap [0, 1]"
  "blocks_live sample_heap [0, 1]" "no_empty sample_heap [0, 1]"
  by (auto simp: sample_simps heap_ok_def)

lemma sample_fields:
  "h_next sample_heap = 3" "\<not> h_fail sample_heap k" "h_pbuf sample_heap 0 = Some (sample_pbuf 0 5 3 1 (Some 1))"
  "released sample_heap [0, 1] = [0]"
  by (simp_all add: sample_simps released_def)

lemma empty_heap_ok: "heap_ok empty_heap"
  by (simp add: empty_heap_def heap_ok_def)

subsection \<open>Properties\<close>

text \<open>C27: \<^verbatim>\<open>pbuf_copy_partial\<close> after \<^verbatim>\<open>pbuf_take\<close> returns exactly the bytes taken, for every chain with
  separate buffers and every data that fits it, however the chain is cut into buffers.\<close>

theorem pbuf_take_copy_roundtrip:
  assumes "pbuf_holds h p xs" "length data \<le> length xs"
  shows "\<exists>h'. pbuf_take p data h = Some (ERR_OK, h') \<and>
    pbuf_copy_partial p (of_nat (length data)) 0 h' = Some (of_nat (length data), data)"
  by (rule pb.fetch_after_fill [OF assms])

theorem pbuf_take_copy_roundtrip_witness:
  "\<exists>h'. pbuf_take (Some 0) [9, 8, 7, 6] sample_heap = Some (ERR_OK, h') \<and>
    pbuf_copy_partial (Some 0) (of_nat 4) 0 h' = Some (of_nat 4, [9, 8, 7, 6])"
proof -
  have "pbuf_holds sample_heap (Some 0) [1, 2, 3, 4, 5]"
    using sample_chain(1,2,4) unfolding pbuf_holds_def
    by (intro conjI exI [of _ "[0, 1]"]) (auto simp: sample_simps)
  then show ?thesis using pbuf_take_copy_roundtrip [of sample_heap "Some 0" "[1, 2, 3, 4, 5]" "[9, 8, 7, 6]"] by simp
qed

text \<open>C28: \<^verbatim>\<open>pbuf_free\<close> deallocates exactly the pbufs before the first one that has another reference and
  returns their number; that one loses one reference and nothing else in the heap changes.\<close>

theorem pbuf_free_references:
  assumes "heap_ok h" "pchain h (Some p) as" "all_freeable h as"
  shows "\<exists>h'. pbuf_free (Some p) h = Some (of_nat (length (released h as)), h') \<and>
    (\<forall>x. h_pbuf h' x =
       (if x \<in> set (released h as) then None
        else if length (released h as) < length as \<and> x = as ! length (released h as)
             then map_option (\<lambda>b. b\<lparr>p_ref := p_ref b - 1\<rparr>) (h_pbuf h x)
        else h_pbuf h x)) \<and>
    (\<forall>x. h_mem h' x = (if x \<in> set (released h as) then None else h_mem h x))"
  using pbuf_free_chain [OF assms(1,2) _ assms(3)] release_effect [OF pchain_distinct [OF assms(2)] assms(3)] assms(2)
  by (cases as) auto

theorem pbuf_free_references_witness:
  "\<exists>h'. pbuf_free (Some 0) sample_heap = Some (1, h') \<and> h_pbuf h' 0 = None \<and> ref_of h' 1 = 1"
proof -
  have "h_pbuf sample_heap 1 = Some (sample_pbuf 1 2 2 2 None)" by (simp add: sample_simps)
  with pbuf_free_references [OF sample_chain(1,2,6), unfolded sample_fields(4)] show ?thesis
    by (auto simp: ref_of_def sample_pbuf_def)
qed

text \<open>C29: \<^verbatim>\<open>pbuf_cat\<close> appends the tail's bytes to the head's, keeps the chain well formed (in particular
  every \<^verbatim>\<open>tot_len\<close>) and every reference count, when the total fits the 16-bit length.\<close>

theorem pbuf_cat_appends:
  assumes "heap_ok h" "pchain h (Some p) as" "pchain h (Some t) bs" "set as \<inter> set bs = {}"
    and "length (cdata h as) + length (cdata h bs) < 65536"
  shows "\<exists>h'. pbuf_cat (Some p) (Some t) h = Some h' \<and> pchain h' (Some p) (as @ bs) \<and>
    cdata h' (as @ bs) = cdata h as @ cdata h bs \<and> (\<forall>x. ref_of h' x = ref_of h x)"
  using pbuf_cat_chain [OF assms] by blast

theorem pbuf_cat_appends_witness:
  "\<exists>h'. pbuf_cat (Some 0) (Some 2) sample_heap = Some h' \<and> cdata h' [0, 1, 2] = [1, 2, 3, 4, 5, 6, 7]"
proof -
  have "set [0, 1] \<inter> set [2 :: addr] = {}"
    "length (cdata sample_heap [0, 1]) + length (cdata sample_heap [2]) < 65536"
    by (simp_all add: sample_chain(4,5) del: cdata_simps One_nat_def)
  from pbuf_cat_appends [OF sample_chain(1-3) this] show ?thesis
    unfolding sample_chain(4,5) append_Cons append_Nil by blast
qed



text \<open>C31: a pool allocation that gets its memory returns a well-formed chain of exactly the requested
  length, whose pbufs are fresh, own their data and have one reference.\<close>

theorem pbuf_alloc_pool_complete:
  assumes "heap_ok h" "\<forall>k. \<not> h_fail h k"
  shows "\<exists>h' as. pbuf_alloc layer plen PBUF_POOL h = Some (Some (h_next h), h') \<and>
    pchain h' (Some (h_next h)) as \<and> length (cdata h' as) = unat plen \<and> heap_ok h' \<and> extends h h' \<and>
    (\<forall>a\<in>set as. h_next h \<le> a \<and> block h' a = Some a \<and> ref_of h' a = 1) \<and> all_freeable h' as"
  by (rule pbuf_alloc_pool_chain [OF assms])

theorem pbuf_alloc_pool_complete_witness:
  "\<exists>h' as. pbuf_alloc PBUF_RAW 4000 PBUF_POOL empty_heap = Some (Some 0, h') \<and> length (cdata h' as) = 4000"
  using pbuf_alloc_pool_complete [OF empty_heap_ok, of PBUF_RAW 4000] by (auto simp: empty_heap_def)

text \<open>a pool allocation never aborts, and one that runs out of memory part of the way returns a
  null pointer and leaks nothing: the pbufs and blocks of the heap are those it started with.\<close>

theorem pbuf_alloc_pool_no_leak:
  assumes "heap_ok h"
  shows "\<exists>r h'. pbuf_alloc layer plen PBUF_POOL h = Some (r, h') \<and>
    (r = None \<longrightarrow> h_pbuf h' = h_pbuf h \<and> h_mem h' = h_mem h)"
proof -
  have "unat (layer_offset layer) < 1514" using layer_offset_le [of layer] by simp
  from pool_loop_outcome [OF assms this, of plen "Suc (unat plen)" None "[]" 0]
  show ?thesis by (auto simp: pbuf_alloc_def all_freeable_def simp del: pbuf_pool_loop.simps)
qed

theorem pbuf_alloc_pool_no_leak_witness:
  "\<exists>r h'. pbuf_alloc PBUF_RAW 3000 PBUF_POOL (sample_heap\<lparr>h_fail := (\<lambda>k. k = 4)\<rparr>) = Some (r, h') \<and>
    (r = None \<longrightarrow> h_pbuf h' = h_pbuf sample_heap)"
proof -
  have "heap_ok (sample_heap\<lparr>h_fail := (\<lambda>k. k = 4)\<rparr>)"
    using sample_chain(1) by (simp add: heap_ok_def)
  from pbuf_alloc_pool_no_leak [OF this, of PBUF_RAW 3000] show ?thesis by auto
qed

text \<open>\<^verbatim>\<open>pbuf_memfind\<close> returns the first position at or after \<^verbatim>\<open>start_offset\<close> where the chain's bytes
  match, also across buffer boundaries, and \<^verbatim>\<open>0xFFFF\<close> when there is none; the loop terminates.\<close>

theorem pbuf_memfind_first:
  assumes "heap_ok h" "pchain h (Some p) as" "length pat \<le> 65535"
  shows "pbuf_memfind p pat off h =
    Some (case find (\<lambda>j. take (length pat) (drop j (cdata h as)) = pat)
                 [unat off..<Suc (length (cdata h as) - length pat)] of
            Some j \<Rightarrow> of_nat j | None \<Rightarrow> 0xFFFF)"
  using pbuf_memfind_chain [OF assms] by (simp add: occurrence_def)

theorem pbuf_memfind_first_witness: "pbuf_memfind 0 [3, 4] 0 sample_heap = Some 2"
  using pbuf_memfind_first [OF sample_chain(1,2), of "[3, 4]" 0]
  unfolding sample_chain(4) by (simp add: upt_rec)

text \<open>\<^verbatim>\<open>pbuf_remove_header\<close> hides the first bytes of the chain, and \<^verbatim>\<open>pbuf_add_header\<close> of the same
  size then restores the heap exactly.\<close>

theorem pbuf_header_roundtrip:
  assumes "pchain h (Some a) (a # as)" "h_pbuf h a = Some b" "n \<le> unat (p_len b)"
    and "p_type b AND PBUF_TYPE_FLAG_STRUCT_DATA_CONTIGUOUS \<noteq> 0" "p_payload b = Some (a, off)" "0 \<le> off"
  shows "\<exists>h'. pbuf_remove_header (Some a) n h = Some (0, h') \<and> pchain h' (Some a) (a # as) \<and>
    cdata h' (a # as) = drop n (cdata h (a # as)) \<and> pbuf_add_header (Some a) n h' = Some (0, h)"
proof -
  have "p_len b \<le> p_tot_len b" using assms(1,2) by (simp add: word_le_nat_alt length_pdata)
  then show ?thesis
    using pbuf_remove_header_chain [OF assms(1-3)] pbuf_add_header_after_remove [OF assms(2,3) _ assms(4-6)] by blast
qed

theorem pbuf_header_roundtrip_witness:
  "\<exists>h'. pbuf_remove_header (Some 0) 2 sample_heap = Some (0, h') \<and> cdata h' [0, 1] = [3, 4, 5] \<and>
    pbuf_add_header (Some 0) 2 h' = Some (0, sample_heap)"
proof -
  let ?b = "sample_pbuf 0 5 3 1 (Some 1)"
  have "2 \<le> unat (p_len ?b)" "p_type ?b AND PBUF_TYPE_FLAG_STRUCT_DATA_CONTIGUOUS \<noteq> 0" "p_payload ?b = Some (0, 0)"
    by (simp_all add: sample_pbuf_def PBUF_TYPE_FLAG_STRUCT_DATA_CONTIGUOUS_def)
  from pbuf_header_roundtrip [OF sample_chain(2) sample_fields(3) this] show ?thesis
    unfolding sample_chain(4) by auto
qed

text \<open>\<^verbatim>\<open>pbuf_clone\<close> into \<^verbatim>\<open>PBUF_RAM\<close> never trips its assertion: when the memory is there it returns a
  fresh single pbuf with the bytes of the whole chain and leaves the chain as it was.\<close>

theorem pbuf_clone_copies:
  assumes "heap_ok h" "pchain h (Some p) as" "blocks_live h as" "no_empty h as" "\<not> h_fail h (h_next h)"
    and "unat (layer_offset layer) + length (cdata h as) < 65536"
  shows "\<exists>h'. pbuf_clone layer PBUF_RAM p h = Some (Some (h_next h), h') \<and>
    pchain h' (Some (h_next h)) [h_next h] \<and> cdata h' [h_next h] = cdata h as \<and>
    pchain h' (Some p) as \<and> cdata h' as = cdata h as"
  by (rule pbuf_clone_chain [OF assms])

theorem pbuf_clone_copies_witness:
  "\<exists>h'. pbuf_clone PBUF_RAW PBUF_RAM 0 sample_heap = Some (Some 3, h') \<and> cdata h' [3] = [1, 2, 3, 4, 5]"
proof -
  have "unat (layer_offset PBUF_RAW) + length (cdata sample_heap [0, 1]) < 65536"
    by (simp add: sample_chain(4) del: cdata_simps One_nat_def)
  from pbuf_clone_copies [OF sample_chain(1,2,8,9) sample_fields(2) this] show ?thesis
    unfolding sample_chain(4) sample_fields(1) by blast
qed

end
