(* ===== verification/Socks5.thy ===== *)
theory Socks5
  imports Ip4_Addr
begin

text \<open>
  The SOCKS5 messages: \<^verbatim>\<open>net/protocol/socks5_protocol.h\<close> and \<^verbatim>\<open>net/protocol/socks5_protocol_helper.h\<close>.
  Messages are byte buffers; writing outside a buffer is \<open>None\<close>. The C library functions the helpers
  call (\<^verbatim>\<open>strtok\<close>, \<^verbatim>\<open>atoi\<close>, \<^verbatim>\<open>inet_ntoa\<close>, \<^verbatim>\<open>std::to_string\<close>) are modelled on the inputs they get. The
  lemmas show that the constructed headers are the ones of RFC 1928 and that parsing inverts
  construction.
\<close>

subsection \<open>Library functions\<close>

text \<open>The tokens successive calls of \<^verbatim>\<open>strtok\<close> with one delimiter return.\<close>

fun strtok_tokens :: "char \<Rightarrow> string \<Rightarrow> string \<Rightarrow> string list" where
  "strtok_tokens d acc [] = (if acc = [] then [] else [rev acc])"
| "strtok_tokens d acc (c # cs) =
     (if c = d then (if acc = [] then strtok_tokens d [] cs else rev acc # strtok_tokens d [] cs)
      else strtok_tokens d (c # acc) cs)"

definition strtok_all :: "char \<Rightarrow> string \<Rightarrow> string list" where
  "strtok_all d s = strtok_tokens d [] s"

fun atoi_digits :: "int \<Rightarrow> string \<Rightarrow> int" where
  "atoi_digits n [] = n"
| "atoi_digits n (c # cs) =
     (if lwip_isdigit c then atoi_digits (n * 10 + int (char_code c - char_code CHR ''0'')) cs else n)"

definition atoi :: "string \<Rightarrow> int" where
  "atoi s =
     (let s = dropWhile lwip_isspace s in
      case s of
        CHR ''-'' # cs \<Rightarrow> - atoi_digits 0 cs
      | CHR ''+'' # cs \<Rightarrow> atoi_digits 0 cs
      | _ \<Rightarrow> atoi_digits 0 s)"

definition inet_ntoa :: "u32 \<Rightarrow> string" where
  "inet_ntoa addr = dotted_quad addr"

text \<open>\<^verbatim>\<open>inet_addr\<close>: the address in network byte order, all ones for a malformed string.\<close>

definition inet_addr :: "string \<Rightarrow> u32" where
  "inet_addr s = ipaddr_addr s"

text \<open>One store into a buffer.\<close>

definition put8 :: "nat \<Rightarrow> u8 \<Rightarrow> bytes \<Rightarrow> bytes option" where
  "put8 i v buf = (if i < length buf then Some (buf[i := v]) else None)"

definition get8 :: "nat \<Rightarrow> bytes \<Rightarrow> u8 option" where
  "get8 i buf = (if i < length buf then Some (buf ! i) else None)"

subsection \<open>Messages\<close>

definition DEFAULT_METHOD_REQUEST :: bytes where
  "DEFAULT_METHOD_REQUEST = [0x05, 0x01, 0x00]"

definition DEFAULT_METHOD_REPLY :: bytes where
  "DEFAULT_METHOD_REPLY = [0x05, 0x00]"

definition DEFAULT_SOCKS_REPLY :: bytes where
  "DEFAULT_SOCKS_REPLY = [0x05, 0x00, 0x00, 0x01, 0x00, 0x00, 0x00, 0x00, 0x10, 0x10]"

definition DEFAULT_UDP_REQ_REPLY :: bytes where
  "DEFAULT_UDP_REQ_REPLY = [0x05, 0x00, 0x00, 0x01, 0x0A, 0xD3, 0x37, 0x02, 0x04, 0x38]"

text \<open>The loop all constructors share: the address bytes, one per token, from index \<open>pos\<close>.\<close>

fun put_ip_frags :: "nat \<Rightarrow> string list \<Rightarrow> bytes \<Rightarrow> bytes option" where
  "put_ip_frags pos [] buf = Some buf"
| "put_ip_frags pos (tok # toks) buf =
     do { buf \<leftarrow> put8 pos (word_of_int (atoi tok)) buf; put_ip_frags (Suc pos) toks buf }"

text \<open>\<open>port\<close> is the value of the \<^verbatim>\<open>unsigned short\<close>, whose bytes in memory are \<open>lo8\<close> and \<open>hi8\<close>.\<close>

definition ConstructSocks5RequestFromIpStringAndPort :: "bytes \<Rightarrow> string \<Rightarrow> u16 \<Rightarrow> bytes option" where
  "ConstructSocks5RequestFromIpStringAndPort data_in ip port =
     do {
       buf \<leftarrow> put8 1 0x01 data_in;
       buf \<leftarrow> put8 3 0x01 buf;
       buf \<leftarrow> put_ip_frags 4 (strtok_all CHR ''.'' ip) buf;
       buf \<leftarrow> put8 8 (hi8 port) buf;
       put8 9 (lo8 port) buf
     }"

definition has_ffff_prefix :: "string \<Rightarrow> bool" where
  "has_ffff_prefix ip = (\<exists>i < length ip. take 7 (drop i ip) = ''::ffff:'')"

definition ConstructSocks5UdpPacketFromIpStringAndPort :: "bytes \<Rightarrow> string \<Rightarrow> u16 \<Rightarrow> bytes option" where
  "ConstructSocks5UdpPacketFromIpStringAndPort data_in_out ip port =
     do {
       buf \<leftarrow> put8 0 0x00 data_in_out;
       buf \<leftarrow> put8 1 0x00 buf;
       buf \<leftarrow> put8 2 0x00 buf;
       buf \<leftarrow> put8 3 0x01 buf;
       let str = (if \<not> has_ffff_prefix ip then ip else drop 7 ip);
       buf \<leftarrow> put_ip_frags 4 (strtok_all CHR ''.'' str) buf;
       buf \<leftarrow> put8 8 (lo8 port) buf;
       put8 9 (hi8 port) buf
     }"

text \<open>The static reply buffer is the argument and the result.\<close>

definition SetUdpSocks5ReplyEndpoint :: "bytes \<Rightarrow> string \<Rightarrow> u16 \<Rightarrow> bytes option" where
  "SetUdpSocks5ReplyEndpoint reply ip port =
     do {
       buf \<leftarrow> put8 1 0x00 reply;
       buf \<leftarrow> put8 2 0x00 buf;
       buf \<leftarrow> put8 3 0x01 buf;
       buf \<leftarrow> put_ip_frags 4 (strtok_all CHR ''.'' ip) buf;
       buf \<leftarrow> put8 8 (hi8 port) buf;
       put8 9 (lo8 port) buf
     }"

text \<open>\<^verbatim>\<open>ipPattern\<close>: four octets without leading zeros, separated by dots.\<close>

definition in_chars :: "char \<Rightarrow> char \<Rightarrow> char \<Rightarrow> bool" where
  "in_chars lo hi c = in_range c lo hi"

definition octet_pattern :: "string \<Rightarrow> bool" where
  "octet_pattern s =
     (case s of
        [a] \<Rightarrow> in_chars CHR ''0'' CHR ''9'' a
      | [a, b] \<Rightarrow> in_chars CHR ''1'' CHR ''9'' a \<and> in_chars CHR ''0'' CHR ''9'' b
      | [a, b, c] \<Rightarrow>
          a = CHR ''2'' \<and> b = CHR ''5'' \<and> in_chars CHR ''0'' CHR ''5'' c \<or>
          a = CHR ''2'' \<and> in_chars CHR ''0'' CHR ''4'' b \<and> in_chars CHR ''0'' CHR ''9'' c \<or>
          a = CHR ''1'' \<and> in_chars CHR ''0'' CHR ''9'' b \<and> in_chars CHR ''0'' CHR ''9'' c
      | _ \<Rightarrow> False)"

fun split_on :: "char \<Rightarrow> string \<Rightarrow> string list" where
  "split_on d [] = [[]]"
| "split_on d (c # cs) =
     (if c = d then [] # split_on d cs
      else case split_on d cs of [] \<Rightarrow> [[c]] | w # ws \<Rightarrow> (c # w) # ws)"

definition ipPattern :: "string \<Rightarrow> bool" where
  "ipPattern s = (let parts = split_on CHR ''.'' s in length parts = 4 \<and> list_all octet_pattern parts)"

text \<open>The parsers return the string, or \<open>None\<close> for the value \<^verbatim>\<open>false\<close>; the outer \<open>option\<close> is a read
  outside the message.\<close>

definition parseIpPortFromSocks5Request :: "bytes \<Rightarrow> (string \<times> u16) option option" where
  "parseIpPortFromSocks5Request request =
     (if length request < 10 then None
      else
        (let temp = take 10 request;
             ip_out = concat (map (\<lambda>i. dec_string (unat (temp ! i)) @ ''.'') [4, 5, 6]) @ dec_string (unat (temp ! 7))
         in if ipPattern ip_out then Some (Some (ip_out, le16 (temp ! 9) (temp ! 8))) else Some None))"

definition parseIpPortFromSocks5UdpPacket :: "bytes \<Rightarrow> (string \<times> u16) option option" where
  "parseIpPortFromSocks5UdpPacket packet = parseIpPortFromSocks5Request packet"

text \<open>\<^verbatim>\<open>boost::regex_match\<close> against \<^verbatim>\<open>domainPattern\<close> is the parameter \<open>domainPattern\<close>. The length is a
  \<^verbatim>\<open>char\<close>, so it is negative from \<^verbatim>\<open>0x80\<close> on: no character is read then.\<close>

definition parseDomainPortFromSocks5Request ::
  "(bytes \<Rightarrow> bool) \<Rightarrow> bytes \<Rightarrow> (bytes \<times> u16) option option" where
  "parseDomainPortFromSocks5Request domainPattern request =
     do {
       n \<leftarrow> get8 4 request;
       let domain_length = sint n;
       if 5 + nat domain_length > length request then None
       else
         (let domain_out = slice 5 (nat domain_length) request in
          if domainPattern domain_out then
            do {
              if domain_length + 5 < 0 then None
              else do {
                p0 \<leftarrow> get8 (nat (domain_length + 6)) request;
                p1 \<leftarrow> get8 (nat (domain_length + 5)) request;
                Some (Some (domain_out, le16 p0 p1))
              }
            }
          else Some None)
     }"

definition isDnsPacket :: "bytes \<Rightarrow> bool option" where
  "isDnsPacket packet =
     do { p0 \<leftarrow> get8 9 packet; p1 \<leftarrow> get8 8 packet; Some (le16 p0 p1 = 53) }"

definition IsUdpSocks5PacketValid :: "bytes \<Rightarrow> bool option" where
  "IsUdpSocks5PacketValid request =
     do { atyp \<leftarrow> get8 3 request; Some (if atyp = 0x01 then False else True) }"

subsection \<open>Tokens of a dotted address\<close>

lemma strtok_tokens_append:
  "d \<notin> set w \<Longrightarrow> strtok_tokens d acc (w @ rest) = strtok_tokens d (rev w @ acc) rest"
  by (induction w arbitrary: acc) auto

lemma strtok_all_join:
  "d \<notin> set w \<Longrightarrow> w \<noteq> [] \<Longrightarrow> strtok_all d (w @ d # rest) = w # strtok_all d rest"
  "d \<notin> set w \<Longrightarrow> w \<noteq> [] \<Longrightarrow> strtok_all d w = [w]"
  using strtok_tokens_append [of d w "[]" "[]"] by (auto simp: strtok_all_def strtok_tokens_append)

lemma dot_notin_dec_string: "CHR ''.'' \<notin> set (dec_string n)"
proof
  assume "CHR ''.'' \<in> set (dec_string n)"
  then obtain d where "d < 10" "digit_char d = CHR ''.''" using set_dec_string [of n] by fastforce
  then show False using digit_char_neq(1) by blast
qed

lemma dotted_quad_le32:
  "dotted_quad (le32 a b c d) =
     dec_string (unat a) @ CHR ''.'' # dec_string (unat b) @ CHR ''.'' # dec_string (unat c) @ CHR ''.'' # dec_string (unat d)"
  by (simp add: dotted_quad_def dotted_def bytes_of32_def butlast_append)

lemma strtok_dotted_quad:
  "strtok_all CHR ''.'' (dotted_quad (le32 a b c d)) = map (\<lambda>x. dec_string (unat x)) [a, b, c, d]"
  by (simp add: dotted_quad_le32 strtok_all_join dot_notin_dec_string)

lemma atoi_digits_dec: "atoi_digits 0 (dec_string n @ rest) = atoi_digits (int n) rest"
proof (induction n arbitrary: rest rule: dec_string.induct)
  case (1 n)
  show ?case
  proof (cases "n < 10")
    case True
    then show ?thesis by (simp add: dec_string_small lwip_isdigit_digit_char char_code_def)
  next
    case False
    have "int (n div 10) * 10 + int (n mod 10) = int n" by presburger
    then show ?thesis
      using False 1 by (simp add: dec_string_step [of n] lwip_isdigit_digit_char char_code_def)
  qed
qed

lemma atoi_dec_string: "atoi (dec_string n) = int n"
proof -
  obtain c cs where c: "dec_string n = c # cs" by (cases "dec_string n") auto
  then obtain d where d: "d < 10" "c = digit_char d" using set_dec_string [of n] by fastforce
  have "\<not> lwip_isspace c"
    using d by (auto simp: lwip_isspace_def dest!: arg_cong [where f = "of_char :: char \<Rightarrow> nat"])
  moreover have "c \<noteq> CHR ''-''" "c \<noteq> CHR ''+''"
    using d by (auto dest!: arg_cong [where f = "of_char :: char \<Rightarrow> nat"])
  ultimately have "atoi (dec_string n) = atoi_digits 0 (dec_string n)"
    using c by (auto simp: atoi_def Let_def split: char.splits bool.splits)
  then show ?thesis using atoi_digits_dec [of n "[]"] by simp
qed

lemma put8_ok: "i < length buf \<Longrightarrow> put8 i v buf = Some (buf[i := v])"
  by (simp add: put8_def)

lemma put_ip_frags_quad:
  assumes "8 \<le> length buf"
  shows "put_ip_frags 4 (strtok_all CHR ''.'' (dotted_quad (le32 a b c d))) buf = Some (overwrite 4 [a, b, c, d] buf)"
proof -
  have "word_of_int (atoi (dec_string (unat (x :: u8)))) = x" for x by (simp add: atoi_dec_string)
  moreover have "buf[4 := a, 5 := b, 6 := c, 7 := d] = overwrite 4 [a, b, c, d] buf"
    using assms by (intro nth_equalityI) (auto simp: nth_overwrite nth_list_update less_Suc_eq numeral_eq_Suc)
  ultimately show ?thesis
    using assms by (simp add: strtok_dotted_quad put8_ok)
qed

subsection \<open>The address pattern\<close>

lemma split_on_word: "d \<notin> set w \<Longrightarrow> split_on d w = [w]"
  by (induction w) auto

lemma split_on_join: "d \<notin> set w \<Longrightarrow> split_on d (w @ d # rest) = w # split_on d rest"
  by (induction w) auto

lemma in_chars_digit:
  assumes "d < 10"
  shows "in_chars CHR ''0'' CHR ''9'' (digit_char d)" "in_chars CHR ''1'' CHR ''9'' (digit_char d) \<longleftrightarrow> 1 \<le> d"
    "in_chars CHR ''0'' CHR ''4'' (digit_char d) \<longleftrightarrow> d \<le> 4" "in_chars CHR ''0'' CHR ''5'' (digit_char d) \<longleftrightarrow> d \<le> 5"
    "digit_char d = CHR ''1'' \<longleftrightarrow> d = 1" "digit_char d = CHR ''2'' \<longleftrightarrow> d = 2" "digit_char d = CHR ''5'' \<longleftrightarrow> d = 5"
proof -
  have c: "digit_char 1 = CHR ''1''" "digit_char 2 = CHR ''2''" "digit_char 5 = CHR ''5''" by code_simp+
  show "digit_char d = CHR ''1'' \<longleftrightarrow> d = 1" "digit_char d = CHR ''2'' \<longleftrightarrow> d = 2" "digit_char d = CHR ''5'' \<longleftrightarrow> d = 5"
    using digit_char_inj [OF assms, of 1] digit_char_inj [OF assms, of 2] digit_char_inj [OF assms, of 5] unfolding c by auto
qed (use assms in \<open>auto simp: in_chars_def in_range_def char_code_def\<close>)

lemma octet_pattern_dec: "n < 256 \<Longrightarrow> octet_pattern (dec_string n)"
proof -
  assume n: "n < 256"
  consider "n < 10" | "10 \<le> n" "n < 100" | "100 \<le> n" by linarith
  then show ?thesis
  proof cases
    case 1
    then show ?thesis by (simp add: dec_string_small octet_pattern_def in_chars_digit)
  next
    case 2
    then have "dec_string n = [digit_char (n div 10), digit_char (n mod 10)]" "n div 10 < 10" "1 \<le> n div 10"
      by (auto simp: dec_string_step dec_string_small)
    then show ?thesis by (simp add: octet_pattern_def in_chars_digit)
  next
    case 3
    let ?a = "n div 100" and ?b = "n div 10 mod 10" and ?c = "n mod 10"
    have "n div 10 div 10 = ?a" "10 \<le> n div 10" "?a < 10" using 3 n by (simp_all add: div_mult2_eq [symmetric])
    then have d: "dec_string n = [digit_char ?a, digit_char ?b, digit_char ?c]"
      using 3 by (simp add: dec_string_step [of n] dec_string_step [of "n div 10"] dec_string_small [of ?a])
    have "n div 10 = 10 * ?a + ?b" "n = 10 * (n div 10) + ?c" "?b < 10" "?c < 10"
      using mult_div_mod_eq [of 10 "n div 10"] \<open>n div 10 div 10 = ?a\<close> by simp_all
    then have "?a = 1 \<or> ?a = 2 \<and> ?b \<le> 4 \<or> ?a = 2 \<and> ?b = 5 \<and> ?c \<le> 5" using 3 n by linarith
    then show ?thesis unfolding d by (auto simp: octet_pattern_def in_chars_digit)
  qed
qed

lemma ipPattern_dotted_quad: "ipPattern (dotted_quad (le32 a b c d))"
  by (simp add: ipPattern_def dotted_quad_le32 split_on_join split_on_word dot_notin_dec_string
      octet_pattern_dec unat_u8_lt Let_def)

text \<open>What a parser reads from a message that starts with a four-byte header and an address.\<close>

lemma parseIpPort_bytes:
  "parseIpPortFromSocks5Request (v # w # x # y # a # b # c # d # p1 # p0 # rest) =
     Some (Some (inet_ntoa (le32 a b c d), le16 p0 p1))"
  using ipPattern_dotted_quad [of a b c d]
  by (simp add: parseIpPortFromSocks5Request_def inet_ntoa_def dotted_quad_le32 Let_def)

lemma take10: "10 \<le> length buf \<Longrightarrow> \<exists>b0 b1 b2 b3 b4 b5 b6 b7 b8 b9 rest.
    buf = b0 # b1 # b2 # b3 # b4 # b5 # b6 # b7 # b8 # b9 # rest"
  by (auto simp: Suc_le_length_iff numeral_eq_Suc)

lemma request_bytes:
  assumes "10 \<le> length buf"
  shows "ConstructSocks5RequestFromIpStringAndPort buf (inet_ntoa ip) port =
    Some ([buf ! 0, 0x01, buf ! 2, 0x01] @ bytes_of32 ip @ [hi8 port, lo8 port] @ drop 10 buf)"
proof -
  obtain a b c d where ip: "ip = le32 a b c d" by (metis le32_byte_of32)
  obtain b0 b1 b2 b3 b4 b5 b6 b7 b8 b9 rest where buf: "buf = b0 # b1 # b2 # b3 # b4 # b5 # b6 # b7 # b8 # b9 # rest"
    using take10 [OF assms] by blast
  show ?thesis
    using put_ip_frags_quad [of "[b0, 1, b2, 1, b4, b5, b6, b7, b8, b9] @ rest" a b c d]
    by (simp add: ConstructSocks5RequestFromIpStringAndPort_def buf ip inet_ntoa_def put8_def overwrite_def bytes_of32_def)
qed

lemma no_ffff: "\<not> has_ffff_prefix (dotted_quad (le32 a b c d))"
proof
  have s: "set (dotted_quad (le32 a b c d)) \<subseteq> insert CHR ''.'' (digit_char ` {..<10})"
    using set_dec_string by (auto simp: dotted_quad_le32)
  have colon: "CHR '':'' \<notin> insert CHR ''.'' (digit_char ` {..<10})"
    by (auto dest!: arg_cong [where f = "of_char :: char \<Rightarrow> nat"])
  assume "has_ffff_prefix (dotted_quad (le32 a b c d))"
  then obtain i where "take 7 (drop i (dotted_quad (le32 a b c d))) = ''::ffff:''"
    by (auto simp: has_ffff_prefix_def)
  then have "CHR '':'' \<in> set (take 7 (drop i (dotted_quad (le32 a b c d))))" by simp
  then have "CHR '':'' \<in> set (dotted_quad (le32 a b c d))" by (meson in_set_dropD in_set_takeD)
  then show False using s colon by blast
qed

lemma udp_packet_bytes:
  assumes "10 \<le> length buf"
  shows "ConstructSocks5UdpPacketFromIpStringAndPort buf (inet_ntoa ip) port =
    Some ([0x00, 0x00, 0x00, 0x01] @ bytes_of32 ip @ [lo8 port, hi8 port] @ drop 10 buf)"
proof -
  obtain a b c d where ip: "ip = le32 a b c d" by (metis le32_byte_of32)
  obtain b0 b1 b2 b3 b4 b5 b6 b7 b8 b9 rest where buf: "buf = b0 # b1 # b2 # b3 # b4 # b5 # b6 # b7 # b8 # b9 # rest"
    using take10 [OF assms] by blast
  show ?thesis
    using put_ip_frags_quad [of "[0, 0, 0, 1, b4, b5, b6, b7, b8, b9] @ rest" a b c d] no_ffff [of a b c d]
    by (simp add: ConstructSocks5UdpPacketFromIpStringAndPort_def buf ip inet_ntoa_def put8_def overwrite_def bytes_of32_def)
qed

subsection \<open>Properties\<close>

text \<open>C33: the CONNECT request the proxy builds carries the command, the IPv4 address type, the
  destination address in network byte order and the port in network byte order, and parsing it gives
  back address and port; the version and reserved bytes are whatever the buffer held before.\<close>

theorem socks5_request_roundtrip:
  assumes "10 \<le> length buf"
  shows "\<exists>req. ConstructSocks5RequestFromIpStringAndPort buf (inet_ntoa ip) port = Some req \<and>
    take 10 req = [buf ! 0, 0x01, buf ! 2, 0x01] @ bytes_of32 ip @ [hi8 port, lo8 port] \<and>
    drop 10 req = drop 10 buf \<and>
    parseIpPortFromSocks5Request req = Some (Some (inet_ntoa ip, port))"
proof -
  obtain a b c d where ip: "ip = le32 a b c d" by (metis le32_byte_of32)
  show ?thesis using request_bytes [OF assms, of ip port] by (simp add: ip bytes_of32_def parseIpPort_bytes)
qed

theorem socks5_request_roundtrip_witness:
  "\<exists>req. ConstructSocks5RequestFromIpStringAndPort (replicate 10 5) (inet_ntoa 0x0101a8c0) 443 = Some req \<and>
    parseIpPortFromSocks5Request req = Some (Some (inet_ntoa 0x0101a8c0, 443))"
  using socks5_request_roundtrip [of "replicate 10 5" "0x0101a8c0" 443] by auto

text \<open>C34: the UDP relay header written over the ten bytes before a datagram's payload is the one of
  RFC 1928, and parsing it gives back the address and the port in host byte order, for every
  address and every port given in network byte order.\<close>

theorem socks5_udp_header_roundtrip:
  assumes "10 \<le> length buf"
  shows "\<exists>pkt. ConstructSocks5UdpPacketFromIpStringAndPort buf (inet_ntoa ip) (lwip_htons port) = Some pkt \<and>
    pkt = [0, 0, 0, 1] @ bytes_of32 ip @ [hi8 port, lo8 port] @ drop 10 buf \<and>
    parseIpPortFromSocks5UdpPacket pkt = Some (Some (inet_ntoa ip, port))"
proof -
  obtain a b c d where ip: "ip = le32 a b c d" by (metis le32_byte_of32)
  have "lo8 (lwip_htons port) = hi8 port" "hi8 (lwip_htons port) = lo8 port"
    by (simp_all add: lwip_htons_bytes [of port])
  then show ?thesis
    using udp_packet_bytes [OF assms, of ip "lwip_htons port"]
    by (simp add: ip bytes_of32_def parseIpPortFromSocks5UdpPacket_def parseIpPort_bytes)
qed

theorem socks5_udp_header_roundtrip_witness:
  "\<exists>pkt. ConstructSocks5UdpPacketFromIpStringAndPort (replicate 12 7) (inet_ntoa 0x08080808) (lwip_htons 53) = Some pkt \<and>
    parseIpPortFromSocks5UdpPacket pkt = Some (Some (inet_ntoa 0x08080808, 53))"
  using socks5_udp_header_roundtrip [of "replicate 12 7" "0x08080808" 53] by auto

text \<open>the validity test for UDP relay packets rejects every packet whose address type is IPv4,
  the only type the constructors produce: what the constructor builds, the test calls invalid.\<close>

theorem constructed_udp_packet_called_invalid:
  assumes "10 \<le> length buf" "ConstructSocks5UdpPacketFromIpStringAndPort buf (inet_ntoa ip) port = Some pkt"
  shows "IsUdpSocks5PacketValid pkt = Some False"
  using udp_packet_bytes [OF assms(1), of ip port] assms(2) by (auto simp: IsUdpSocks5PacketValid_def get8_def)

theorem constructed_udp_packet_called_invalid_witness:
  "\<exists>pkt. ConstructSocks5UdpPacketFromIpStringAndPort (replicate 10 0) (inet_ntoa 0) 53 = Some pkt \<and>
    IsUdpSocks5PacketValid pkt = Some False"
  using constructed_udp_packet_called_invalid [of "replicate 10 0" 0 53] udp_packet_bytes [of "replicate 10 0" 0 53] by simp

end
