(* ===== verification/Session_Map.thy ===== *)
theory Session_Map
  imports Prelude
begin

text \<open>
  The session tables of the proxy. Both are hash maps whose key equality is a function object of
  the program (\<^verbatim>\<open>UDP_HEADER_EQUAL\<close>, \<^verbatim>\<open>TCP_PCB_EQUAL\<close>), not structural equality, so the map is the list
  of its entries and every operation takes the equality. The locale states what the container
  needs of the key functions: an equivalence that the hash respects; its lemmas are the laws of
  the table that the handlers use, proved once and interpreted for both keys.
\<close>

type_synonym ('k, 'v) umap = "('k \<times> 'v) list"

definition umap_find :: "('k \<Rightarrow> 'k \<Rightarrow> bool) \<Rightarrow> 'k \<Rightarrow> ('k, 'v) umap \<Rightarrow> 'v option" where
  "umap_find EQUAL k m = map_option snd (List.find (\<lambda>(k', v). EQUAL k' k) m)"

text \<open>\<^verbatim>\<open>insert\<close> does nothing when an equal key is present.\<close>

definition umap_insert :: "('k \<Rightarrow> 'k \<Rightarrow> bool) \<Rightarrow> 'k \<Rightarrow> 'v \<Rightarrow> ('k, 'v) umap \<Rightarrow> ('k, 'v) umap" where
  "umap_insert EQUAL k v m = (if umap_find EQUAL k m = None then (k, v) # m else m)"

definition umap_erase :: "('k \<Rightarrow> 'k \<Rightarrow> bool) \<Rightarrow> 'k \<Rightarrow> ('k, 'v) umap \<Rightarrow> ('k, 'v) umap" where
  "umap_erase EQUAL k m = filter (\<lambda>(k', v). \<not> EQUAL k' k) m"

locale session_key =
  fixes EQUAL :: "'k \<Rightarrow> 'k \<Rightarrow> bool"
    and HASHER :: "('h \<Rightarrow> 'w \<Rightarrow> 'h) \<Rightarrow> 'h \<Rightarrow> 'k \<Rightarrow> 'h"
  assumes equal_refl: "EQUAL k k"
    and equal_sym: "EQUAL k k' \<Longrightarrow> EQUAL k' k"
    and equal_trans: "EQUAL k k' \<Longrightarrow> EQUAL k' k'' \<Longrightarrow> EQUAL k k''"
    and equal_hash: "EQUAL k k' \<Longrightarrow> HASHER hash_combine seed k = HASHER hash_combine seed k'"
begin

lemma equal_cong: "EQUAL k k' \<Longrightarrow> EQUAL x k \<longleftrightarrow> EQUAL x k'"
  by (rule iffI) (erule (1) equal_trans, erule equal_trans, erule equal_sym)

lemma find_equal: "EQUAL k k' \<Longrightarrow> umap_find EQUAL k m = umap_find EQUAL k' m"
  by (simp add: umap_find_def equal_cong [of k k'])

lemma find_Cons:
  "umap_find EQUAL k ((k', v) # m) = (if EQUAL k' k then Some v else umap_find EQUAL k m)"
  by (simp add: umap_find_def)

lemma find_insert:
  "umap_find EQUAL k' (umap_insert EQUAL k v m) =
     (if EQUAL k k' \<and> umap_find EQUAL k m = None then Some v else umap_find EQUAL k' m)"
  by (simp add: umap_insert_def find_Cons)

lemma erase_Cons:
  "umap_erase EQUAL k ((k', v) # m) = (if EQUAL k' k then umap_erase EQUAL k m else (k', v) # umap_erase EQUAL k m)"
  by (simp add: umap_erase_def)

lemma find_erase:
  "umap_find EQUAL k' (umap_erase EQUAL k m) = (if EQUAL k k' then None else umap_find EQUAL k' m)"
proof (induction m)
  case Nil
  then show ?case by (simp add: umap_find_def umap_erase_def)
next
  case (Cons x m)
  obtain a b where x: "x = (a, b)" by (cases x)
  consider "EQUAL k k'" | "\<not> EQUAL k k'" "EQUAL a k" | "\<not> EQUAL k k'" "\<not> EQUAL a k" by blast
  then show ?case
  proof cases
    case 1
    then show ?thesis using Cons equal_cong [OF 1, of a] by (simp add: x erase_Cons find_Cons)
  next
    case 2
    then have "\<not> EQUAL a k'" using equal_sym [OF 2(2)] equal_trans [of k a k'] by blast
    then show ?thesis using Cons 2 by (simp add: x erase_Cons find_Cons)
  next
    case 3
    then show ?thesis using Cons by (simp add: x erase_Cons find_Cons)
  qed
qed

end

end
