(* ===== verification/Udp_Proxy.thy ===== *)
theory Udp_Proxy
  imports Inet_Chksum Socks5 Pbuf_Props Session_Map
begin

text \<open>
  The UDP half of the proxy: the destination filter (\<^verbatim>\<open>net/filter/udp_filter.h\<close>), the NAT table
  (\<^verbatim>\<open>net/udp/udp_session_map_def.h\<close>), \<^verbatim>\<open>UdpHandler::Handle\<close> (\<^verbatim>\<open>net/udp/udphandler.cpp\<close>) and \<^verbatim>\<open>UdpSession\<close>
  (\<^verbatim>\<open>net/udp/udp_session.h\<close>). A packet is the byte buffer read from the TUN device; header fields are
  read and written at their offsets, in network byte order as the code does. An access outside a
  buffer and a failed \<^verbatim>\<open>assert\<close> give \<open>None\<close>. What the asynchronous socket delivers is an argument of
  the handler that resumes.
\<close>

subsection \<open>Filter\<close>

definition isMulticast :: "u32 \<Rightarrow> bool" where
  "isMulticast ip = (let i = unat (byte_of32 0 ip) in if 224 \<le> i \<and> i \<le> 239 then True else False)"

definition isReservedAddress :: "u32 \<Rightarrow> bool" where
  "isReservedAddress ip = (let i = unat (byte_of32 0 ip) in if i = 10 \<or> i = 127 then True else False)"

definition Pass :: "u32 \<Rightarrow> bool" where
  "Pass ip_dst = (\<not> isMulticast ip_dst \<and> \<not> isReservedAddress ip_dst)"

subsection \<open>Headers in a packet\<close>

record udp_hdr =
  uh_src :: u16
  uh_dest :: u16
  uh_len :: u16
  uh_chksum :: u16

definition put_bytes :: "nat \<Rightarrow> bytes \<Rightarrow> bytes \<Rightarrow> bytes option" where
  "put_bytes off ys buf = (if off + length ys \<le> length buf then Some (overwrite off ys buf) else None)"

definition get_bytes :: "nat \<Rightarrow> nat \<Rightarrow> bytes \<Rightarrow> bytes option" where
  "get_bytes off n buf = (if off + n \<le> length buf then Some (slice off n buf) else None)"

definition get16 :: "nat \<Rightarrow> bytes \<Rightarrow> u16 option" where
  "get16 off buf = (if off + 2 \<le> length buf then Some (le16 (buf ! off) (buf ! (off + 1))) else None)"

definition get32 :: "nat \<Rightarrow> bytes \<Rightarrow> u32 option" where
  "get32 off buf =
     (if off + 4 \<le> length buf then Some (le32 (buf ! off) (buf ! (off + 1)) (buf ! (off + 2)) (buf ! (off + 3))) else None)"

definition udp_hdr_at :: "nat \<Rightarrow> bytes \<Rightarrow> udp_hdr option" where
  "udp_hdr_at off buf =
     do {
       s \<leftarrow> get16 off buf;
       d \<leftarrow> get16 (off + 2) buf;
       l \<leftarrow> get16 (off + 4) buf;
       c \<leftarrow> get16 (off + 6) buf;
       Some \<lparr>uh_src = s, uh_dest = d, uh_len = l, uh_chksum = c\<rparr>
     }"

text \<open>\<^verbatim>\<open>4 * (ip_header->_v_hl & 0x0f)\<close>.\<close>

definition ip_hdr_bytes :: "u8 \<Rightarrow> nat" where
  "ip_hdr_bytes v_hl = 4 * unat (v_hl AND 0x0f)"

text \<open>The value of a word as the two bytes \<^verbatim>\<open>htons\<close> stores.\<close>

definition net16 :: "u16 \<Rightarrow> bytes" where
  "net16 v = [hi8 v, lo8 v]"

subsection \<open>The NAT table\<close>

definition UDP_HEADER_EQUAL :: "udp_hdr \<Rightarrow> udp_hdr \<Rightarrow> bool" where
  "UDP_HEADER_EQUAL lhs rhs = (uh_src lhs = uh_src rhs)"

definition UDP_HEADER_HASHER :: "('h \<Rightarrow> u16 \<Rightarrow> 'h) \<Rightarrow> 'h \<Rightarrow> udp_hdr \<Rightarrow> 'h" where
  "UDP_HEADER_HASHER hash_combine seed udp_header = hash_combine seed (uh_src udp_header)"

interpretation udp_map: session_key UDP_HEADER_EQUAL UDP_HEADER_HASHER
  by unfold_locales (auto simp: UDP_HEADER_EQUAL_def UDP_HEADER_HASHER_def)

subsection \<open>Sessions\<close>

datatype SESSION_STATUS = CLOSED | RELAYING

type_synonym endpoint = "string \<times> u16"

record udp_session =
  us_status :: SESSION_STATUS
  us_recv_ep :: endpoint
  us_recv_buff :: bytes
  us_ip_udp_header :: bytes
  us_last_update_time :: int

definition UDP_REMOTE_RECV_BUFF_SIZE :: nat where
  "UDP_REMOTE_RECV_BUFF_SIZE = 1500"

text \<open>The constructor, with the uninitialised receive buffer \<open>fill\<close>. The status, too, is not initialised
  before \<open>Run\<close>, and nothing reads it before; it starts as \<open>CLOSED\<close> here.\<close>

definition UdpSession_new :: "int \<Rightarrow> (nat \<Rightarrow> u8) \<Rightarrow> udp_session" where
  "UdpSession_new now fill =
     \<lparr>us_status = CLOSED, us_recv_ep = (''0.0.0.0'', 0),
      us_recv_buff = map fill [0..<UDP_REMOTE_RECV_BUFF_SIZE], us_ip_udp_header = [],
      us_last_update_time = now\<rparr>"

definition UdpSession_Run :: "udp_session \<Rightarrow> udp_session" where
  "UdpSession_Run s = s\<lparr>us_status := RELAYING\<rparr>"

text \<open>\<^verbatim>\<open>boost::asio::ip::address::from_string\<close> is the parameter \<open>from_string\<close>; it is \<open>None\<close> when it throws.\<close>

definition SetSocks5ServerEndpoint ::
  "(string \<Rightarrow> string option) \<Rightarrow> string \<Rightarrow> u16 \<Rightarrow> udp_session \<Rightarrow> udp_session option" where
  "SetSocks5ServerEndpoint from_string ip port s =
     do { a \<leftarrow> from_string ip; Some (s\<lparr>us_recv_ep := (a, port)\<rparr>) }"

definition swap_fields :: "nat \<Rightarrow> nat \<Rightarrow> nat \<Rightarrow> bytes \<Rightarrow> bytes option" where
  "swap_fields a b n buf =
     do {
       x \<leftarrow> get_bytes a n buf;
       y \<leftarrow> get_bytes b n buf;
       buf \<leftarrow> put_bytes b x buf;
       put_bytes a y buf
     }"

text \<open>\<open>SetNatInfo\<close> keeps the IP and UDP headers with source and destination swapped; \<open>pkt\<close> starts at
  the IP header.\<close>

definition SetNatInfo :: "bytes \<Rightarrow> bytes option" where
  "SetNatInfo pkt =
     do {
       v_hl \<leftarrow> get8 0 pkt;
       saved \<leftarrow> get_bytes 0 (ip_hdr_bytes v_hl + 8) pkt;
       saved \<leftarrow> swap_fields 12 16 4 saved;
       swap_fields (ip_hdr_bytes v_hl) (ip_hdr_bytes v_hl + 2) 2 saved
     }"

text \<open>Sending: the datagram is copied into a fresh pbuf, whose payload the socket sends. The result is
  the pbuf and its bytes, or nothing when \<^verbatim>\<open>pbuf_take\<close> refuses.\<close>

definition SendPacketToRemote :: "bytes \<Rightarrow> nat \<Rightarrow> heap \<Rightarrow> ((addr \<times> bytes) option \<times> heap) option" where
  "SendPacketToRemote data size_t h =
     (if length data < unat (of_nat size_t :: u16) then None
      else do {
        (p, h) \<leftarrow> pbuf_alloc PBUF_RAW (of_nat size_t) PBUF_RAM h;
        (err, h) \<leftarrow> pbuf_take p (take (unat (of_nat size_t :: u16)) data) h;
        if err \<noteq> ERR_OK then Some (None, h)
        else do {
          a \<leftarrow> p;
          b \<leftarrow> h_pbuf h a;
          if size_t \<noteq> unat (p_tot_len b) then None
          else do {
            bs \<leftarrow> mem_read h (p_payload b) 0 (unat (p_tot_len b));
            Some (Some (a, bs), h)
          }
        }
      })"

definition handlerOnRemoteSent :: "bool \<Rightarrow> addr \<Rightarrow> udp_session \<Rightarrow> heap \<Rightarrow> (udp_session \<times> heap) option" where
  "handlerOnRemoteSent ec p s h =
     (if ec then Some (s\<lparr>us_status := CLOSED\<rparr>, h)
      else do { (c, h) \<leftarrow> pbuf_free (Some p) h; Some (s, h) })"

text \<open>The timer. The handlers close or cancel the remote socket.\<close>

datatype socket_call = Socket_close | Socket_cancel

definition updateActivity :: "int \<Rightarrow> udp_session \<Rightarrow> udp_session" where
  "updateActivity now s = s\<lparr>us_last_update_time := now\<rparr>"

definition isTimeOut :: "int \<Rightarrow> udp_session \<Rightarrow> bool" where
  "isTimeOut now s = (if now - us_last_update_time s > 5 then True else False)"

definition handlerOnTimeUp :: "bool \<Rightarrow> int \<Rightarrow> udp_session \<Rightarrow> socket_call option" where
  "handlerOnTimeUp ec now s =
     (if ec then None
      else case us_status s of
             RELAYING \<Rightarrow> if isTimeOut now s then Some Socket_cancel else None
           | CLOSED \<Rightarrow> Some Socket_close)"

definition handlerOnLocalSent :: "bool \<Rightarrow> udp_session \<Rightarrow> udp_session" where
  "handlerOnLocalSent ec s = (if ec then s\<lparr>us_status := CLOSED\<rparr> else s)"

subsection \<open>Checksums\<close>

text \<open>The loop \<^verbatim>\<open>while (sum >> 16)\<close> on a \<^verbatim>\<open>long\<close>, which the sums do not overflow.\<close>

function fold_sum :: "nat \<Rightarrow> nat" where
  "fold_sum n = (if n div 65536 \<noteq> 0 then fold_sum (n mod 65536 + n div 65536) else n)"
  by auto
termination
proof (relation "measure id")
  fix n :: nat assume "n div 65536 \<noteq> 0"
  then have "n mod 65536 + n div 65536 < n" using div_mult_mod_eq [of n 65536] by linarith
  then show "(n mod 65536 + n div 65536, n) \<in> measure id" by simp
qed simp

declare fold_sum.simps [simp del]

fun sum_words :: "nat \<Rightarrow> bytes \<Rightarrow> nat" where
  "sum_words s (a # b # rest) = sum_words (s + unat (le16 a b)) rest"
| "sum_words s [a] = s + unat (le16 a 0)"
| "sum_words s [] = s"

definition getChecksum :: "bytes \<Rightarrow> u16" where
  "getChecksum data = NOT (of_nat (fold_sum (sum_words 0 data)))"

text \<open>\<^verbatim>\<open>calculateIpCheckSum\<close> on the IP header at \<open>off\<close> of the buffer.\<close>

definition calculateIpCheckSum :: "nat \<Rightarrow> bytes \<Rightarrow> bytes option" where
  "calculateIpCheckSum off buf =
     do {
       buf \<leftarrow> put_bytes (off + 10) [0x00, 0x00] buf;
       v_hl \<leftarrow> get8 off buf;
       hdr \<leftarrow> get_bytes off (ip_hdr_bytes v_hl) buf;
       let c = (NOT (of_nat (fold_sum (sum_words 0 hdr))) :: u16);
       put_bytes (off + 10) [lo8 c, hi8 c] buf
     }"

subsection \<open>The downstream path\<close>

text \<open>Building the packet for the TUN device in the receive buffer, after \<open>bytes_read\<close> bytes of a relay
  packet from source \<open>src_ip_uint32\<close>, \<open>src_port\<close> arrived. The pseudo header overlays the IP header from
  its TTL field: \<^verbatim>\<open>mbz\<close> is at offset 12 of the buffer and \<^verbatim>\<open>udpl\<close> at 14.\<close>

definition build_packet :: "nat \<Rightarrow> u32 \<Rightarrow> u16 \<Rightarrow> bytes \<Rightarrow> bytes \<Rightarrow> bytes option" where
  "build_packet bytes_read src_ip_uint32 src_port ip_udp_header buf =
     do {
       buf \<leftarrow> put_bytes 4 ip_udp_header buf;
       v_hl \<leftarrow> get8 4 buf;
       let ihl = ip_hdr_bytes v_hl;
       buf \<leftarrow> put_bytes 16 (bytes_of32 src_ip_uint32) buf;
       saved_mbz \<leftarrow> get8 12 buf;
       buf \<leftarrow> put8 12 0x00 buf;
       saved_udpl \<leftarrow> get8 12 buf;
       let udpl = (of_nat bytes_read - 10 + 8 :: u16);
       buf \<leftarrow> put_bytes 14 (net16 udpl) buf;
       buf \<leftarrow> put_bytes (4 + ihl) (net16 src_port) buf;
       buf \<leftarrow> put_bytes (4 + ihl + 4) (net16 udpl) buf;
       buf \<leftarrow> put_bytes (4 + ihl + 6) [0x00, 0x00] buf;
       let checksum_len = 12 + 8 + bytes_read - 10;
       let paddle_len = checksum_len mod 2;
       buf \<leftarrow> (if paddle_len \<noteq> 0 then put8 (12 + checksum_len) 0x00 buf else Some buf);
       covered \<leftarrow> get_bytes 12 (checksum_len + paddle_len) buf;
       let udp_checksum = getChecksum covered;
       buf \<leftarrow> put_bytes (4 + ihl + 6) [lo8 udp_checksum, hi8 udp_checksum] buf;
       buf \<leftarrow> put8 12 saved_mbz buf;
       buf \<leftarrow> put_bytes 14 [saved_udpl, 0x00] buf;
       buf \<leftarrow> put_bytes 6 (net16 (of_nat bytes_read - 10 + of_nat ihl + 8)) buf;
       buf \<leftarrow> put8 12 64 buf;
       calculateIpCheckSum 4 buf
     }"

text \<open>What is handed to \<^verbatim>\<open>TuntapHelper::Inject\<close> on each platform.\<close>

definition inject_packet :: "platform \<Rightarrow> nat \<Rightarrow> bytes \<Rightarrow> (bytes option \<times> bytes) option" where
  "inject_packet pf bytes_read buf =
     do {
       v_hl \<leftarrow> get8 4 buf;
       case pf of
         Windows \<Rightarrow> do {
           pkt \<leftarrow> get_bytes 4 (ip_hdr_bytes v_hl + 8 + bytes_read - 10) buf;
           Some (Some pkt, buf) }
       | Apple \<Rightarrow> do {
           buf \<leftarrow> put_bytes 0 [0, 0, 0, 2] buf;
           pkt \<leftarrow> get_bytes 0 (ip_hdr_bytes v_hl + 8 + bytes_read - 10 + 4) buf;
           Some (Some pkt, buf) }
       | Linux \<Rightarrow> Some (None, buf)
     }"

text \<open>One pass of the read loop. The completion is an error, or the sender's endpoint and the datagram
  (cut to the room the receive call offers). The result is whether the loop goes on, the packet
  injected, and the session.\<close>

definition readFromRemote ::
  "platform \<Rightarrow> (endpoint \<times> bytes) option \<Rightarrow> udp_session \<Rightarrow> (bool \<times> bytes option \<times> udp_session) option" where
  "readFromRemote pf completion s =
     (case completion of
        None \<Rightarrow> Some (False, None, s\<lparr>us_status := CLOSED\<rparr>)
      | Some (sender, datagram) \<Rightarrow>
          (let H = length (us_ip_udp_header s);
               at = 4 + H - 10;
               room = UDP_REMOTE_RECV_BUFF_SIZE - 4 - 10 - H;
               data = take room datagram;
               bytes_read = length data
           in do {
             buf \<leftarrow> put_bytes at data (us_recv_buff s);
             let s = s\<lparr>us_recv_ep := sender, us_recv_buff := buf\<rparr>;
             parsed \<leftarrow> parseIpPortFromSocks5UdpPacket (drop at buf);
             (case parsed of
                None \<Rightarrow> Some (True, None, s)
              | Some (src_ip, src_port) \<Rightarrow>
                  (let src_ip_uint32 = inet_addr src_ip in
                   if src_ip_uint32 = IPADDR_NONE then Some (True, None, s)
                   else do {
                     buf \<leftarrow> build_packet bytes_read src_ip_uint32 src_port (us_ip_udp_header s) buf;
                     (injected, buf) \<leftarrow> inject_packet pf bytes_read buf;
                     Some (True, injected, s\<lparr>us_recv_buff := buf\<rparr>)
                   }))
           }))"

subsection \<open>The handler\<close>

text \<open>\<open>ust_fill n\<close> is the uninitialised receive buffer of the \<open>n\<close>-th session.\<close>

record udp_state =
  ust_map :: "(udp_hdr, nat) umap"
  ust_sessions :: "nat \<Rightarrow> udp_session option"
  ust_next :: nat
  ust_heap :: heap
  ust_fill :: "nat \<Rightarrow> nat \<Rightarrow> u8"

text \<open>The string \<^verbatim>\<open>ip4addr_ntoa\<close> leaves in its static buffer.\<close>

definition ntoa_str :: "u32 \<Rightarrow> string" where
  "ntoa_str addr = (case ip4addr_ntoa (replicate IP4ADDR_STRLEN_MAX CHR 0x00) addr of None \<Rightarrow> [] | Some buf \<Rightarrow> c_str buf)"

text \<open>The relay header is written over the two bytes before the UDP header at \<open>u\<close> and over the UDP
  header itself; the datagram sent is everything from there.\<close>

definition relay_packet :: "nat \<Rightarrow> nat \<Rightarrow> udp_hdr \<Rightarrow> bytes \<Rightarrow> bytes option" where
  "relay_packet off u udp_header pkt =
     do {
       dest \<leftarrow> get32 (off + 16) pkt;
       if u < 2 then None
       else do {
         tail \<leftarrow> ConstructSocks5UdpPacketFromIpStringAndPort (drop (u - 2) pkt) (ntoa_str dest) (uh_dest udp_header);
         Some (take (u - 2) pkt @ tail)
       }
     }"

text \<open>\<open>off\<close> is the offset of the IP header in the packet read from the device and \<open>socks_info\<close> the
  address and port of the SOCKS5 server. The result is the session, the pbuf and the bytes of the
  send that was started.\<close>

definition UdpHandler_Handle ::
  "(string \<Rightarrow> string option) \<Rightarrow> string \<times> u16 \<Rightarrow> int \<Rightarrow> nat \<Rightarrow> bytes \<Rightarrow> udp_state \<Rightarrow>
     ((nat \<times> endpoint \<times> addr \<times> bytes) option \<times> bytes \<times> udp_state) option" where
  "UdpHandler_Handle from_string socks_info now off pkt st =
     do {
       v_hl \<leftarrow> get8 off pkt;
       let u = off + ip_hdr_bytes v_hl;
       udp_header \<leftarrow> udp_hdr_at u pkt;
       let send_length = unat (lwip_ntohs (uh_len udp_header)) + 2;
       (case umap_find UDP_HEADER_EQUAL udp_header (ust_map st) of
          None \<Rightarrow> do {
            let sid = ust_next st;
            let s = UdpSession_new now (ust_fill st sid);
            s \<leftarrow> SetSocks5ServerEndpoint from_string (fst socks_info) (snd socks_info) s;
            saved \<leftarrow> SetNatInfo (drop off pkt);
            let s = s\<lparr>us_ip_udp_header := saved\<rparr>;
            pkt \<leftarrow> relay_packet off u udp_header pkt;
            (sent, h) \<leftarrow> SendPacketToRemote (drop (u - 2) pkt) send_length (ust_heap st);
            let s = UdpSession_Run s;
            Some (map_option (\<lambda>(p, bs). (sid, us_recv_ep s, p, bs)) sent, pkt,
                  st\<lparr>ust_map := umap_insert UDP_HEADER_EQUAL udp_header sid (ust_map st),
                     ust_sessions := (ust_sessions st)(sid \<mapsto> s), ust_next := Suc sid, ust_heap := h\<rparr>)
          }
        | Some sid \<Rightarrow> do {
            s \<leftarrow> ust_sessions st sid;
            pkt \<leftarrow> relay_packet off u udp_header pkt;
            (sent, h) \<leftarrow> SendPacketToRemote (drop (u - 2) pkt) send_length (ust_heap st);
            Some (map_option (\<lambda>(p, bs). (sid, us_recv_ep s, p, bs)) sent, pkt, st\<lparr>ust_heap := h\<rparr>)
          })
     }"

subsection \<open>Checksum lemmas\<close>

lemma sum_words_ocsum: "sum_words s data = s + ocsum data"
  by (induction s data rule: sum_words.induct) (simp_all add: word_nat)

lemma oceq_carry: "n div 65536 \<noteq> 0 \<Longrightarrow> oceq (n mod 65536 + n div 65536) n"
proof -
  assume "n div 65536 \<noteq> 0"
  then have "n mod 65536 + n div 65536 \<noteq> 0" "n \<noteq> 0" by auto
  moreover have "n = n mod 65536 + n div 65536 + n div 65536 * 65535"
    using div_mult_mod_eq [of n 65536] by linarith
  then have "n mod 65535 = (n mod 65536 + n div 65536) mod 65535" by (metis mod_mult_self1)
  ultimately show ?thesis unfolding oceq_def by simp
qed

lemma fold_sum_bounds: "fold_sum n \<le> 65535 \<and> oceq (fold_sum n) n"
proof (induction n rule: fold_sum.induct)
  case (1 n)
  show ?case
  proof (cases "n div 65536 \<noteq> 0")
    case True
    then have "oceq (n mod 65536 + n div 65536) n"
      by (rule oceq_carry)
    then show ?thesis using 1 True oceq_trans by (subst (1 2) fold_sum.simps) auto
  next
    case False
    then have "n \<le> 65535" by (simp add: div_eq_0_iff)
    then show ?thesis using False by (subst (1 2) fold_sum.simps) simp
  qed
qed

lemma fold_sum_fold16: "fold_sum n = fold16 n"
  using fold16_unique [of "fold_sum n" n] fold_sum_bounds [of n] by blast

lemma unat_NOT_fold: "unat (NOT (of_nat (fold_sum (sum_words 0 data))) :: u16) = 65535 - fold16 (ocsum data)"
  using fold16_le [of "ocsum data"]
  by (simp add: unat_NOT_u16 fold_sum_fold16 sum_words_ocsum unat_of_nat)

lemma unat_getChecksum: "unat (getChecksum data) = 65535 - fold16 (ocsum data)"
  by (simp add: getChecksum_def unat_NOT_fold)

subsection \<open>Buffers with a literal front\<close>

definition glue :: "bytes \<Rightarrow> bytes \<Rightarrow> bytes" where
  "glue L z = L @ z"

lemma put_bytes_glue: "k + length ys \<le> length L \<Longrightarrow> put_bytes k ys (glue L z) = Some (glue (overwrite k ys L) z)"
  by (simp add: put_bytes_def glue_def overwrite_def)

lemma put8_glue: "k < length L \<Longrightarrow> put8 k v (glue L z) = Some (glue (L[k := v]) z)"
  by (simp add: put8_def glue_def list_update_append)

lemma put8_glue_out: "length L \<le> k \<Longrightarrow> k < length L + length z \<Longrightarrow> put8 k v (glue L z) = Some (glue L (z[k - length L := v]))"
  by (simp add: put8_def glue_def list_update_append)

lemma get8_glue: "k < length L \<Longrightarrow> get8 k (glue L z) = Some (L ! k)"
  by (simp add: get8_def glue_def nth_append)

lemma get_bytes_glue: "k + n \<le> length L \<Longrightarrow> get_bytes k n (glue L z) = Some (slice k n L)"
  by (simp add: get_bytes_def glue_def slice_def add.commute)

lemma get_bytes_glue_out:
  "k \<le> length L \<Longrightarrow> length L \<le> k + n \<Longrightarrow> k + n \<le> length L + length z \<Longrightarrow>
   get_bytes k n (glue L z) = Some (drop k L @ take (k + n - length L) z)"
  by (simp add: get_bytes_def glue_def slice_def add.commute)

lemmas glue_simps = put_bytes_glue put8_glue get8_glue get_bytes_glue

lemma literal4: "length xs = 4 \<Longrightarrow> \<exists>a b c d. xs = [a, b, c, d]"
  by (auto simp: length_Suc_conv numeral_eq_Suc)

lemma literal_split: "4 + n \<le> length xs \<Longrightarrow> \<exists>a b c d ys. xs = a # b # c # d # ys \<and> n \<le> length ys"
  by (auto simp: Suc_le_length_iff numeral_eq_Suc)

text \<open>What \<open>build_packet\<close> computes for a saved header without IP options: the header bytes are named by
  position, \<open>z\<close> is the buffer after them.\<close>

definition reply_udp :: "u16 \<Rightarrow> u8 \<Rightarrow> u8 \<Rightarrow> u16 \<Rightarrow> u16 \<Rightarrow> bytes" where
  "reply_udp src_port d0 d1 udpl ck = net16 src_port @ [d0, d1] @ net16 udpl @ [lo8 ck, hi8 ck]"

definition psd_bytes :: "u8 \<Rightarrow> u16 \<Rightarrow> u32 \<Rightarrow> bytes \<Rightarrow> bytes" where
  "psd_bytes proto udpl src dst = [0, proto] @ net16 udpl @ bytes_of32 src @ dst"

definition pad0 :: "nat \<Rightarrow> bytes \<Rightarrow> bytes" where
  "pad0 n z = (if odd n then z[n := 0] else z)"

lemma build_packet_literal:
  assumes "length z = 28 + k" "n + n mod 2 \<le> k" "h0 AND 0x0f = 5" 
  shows "build_packet (n + 10) src sp
     [h0, h1, h2, h3, h4, h5, h6, h7, h8, h9, h10, h11, h12, h13, h14, h15, h16, h17, h18, h19,
      h20, h21, h22, h23, h24, h25, h26, h27] (p0 # p1 # p2 # p3 # z) =
   (let udpl = of_nat (n + 8);
        ck = getChecksum (psd_bytes h9 udpl src [h16, h17, h18, h19] @ reply_udp sp h22 h23 udpl 0 @ take (n + n mod 2) (pad0 n (drop 28 z)));
        iph = (\<lambda>c0 c1. [h0, h1] @ net16 (of_nat (n + 28)) @ [h4, h5, h6, h7, 64, h9, c0, c1] @ bytes_of32 src @ [h16, h17, h18, h19]);
        ic = getChecksum (iph 0 0)
    in Some ([p0, p1, p2, p3] @ iph (lo8 ic) (hi8 ic) @ reply_udp sp h22 h23 udpl ck @ pad0 n (drop 28 z)))"
proof -
  define H where "H = [h0, h1, h2, h3, h4, h5, h6, h7, h8, h9, h10, h11, h12, h13, h14, h15, h16, h17, h18, h19,
      h20, h21, h22, h23, h24, h25, h26, h27]"
  let ?z = "drop 28 z"
  have put: "put_bytes 4 H (p0 # p1 # p2 # p3 # z) = Some (glue ([p0, p1, p2, p3] @ H) ?z)"
    using assms by (simp add: put_bytes_def H_def overwrite_def glue_def)
  have ihl: "ip_hdr_bytes h0 = 20" using assms by (simp add: ip_hdr_bytes_def)
  have lp: "length (pad0 n ?z) = k" using assms by (simp add: pad0_def)
  have o: "overwrite a ys (x # xs) = x # overwrite (a - 1) ys xs" if "0 < a" for a and ys xs :: bytes and x
    using that by (cases a) (simp_all add: overwrite_def)
  have z0: "lo8 0 = 0" "hi8 0 = 0" by (simp_all add: lo8_def hi8_def)
  have o0: "overwrite 0 ys xs = ys @ drop (length ys) xs" for ys xs :: bytes by (simp add: overwrite_def)
  have pad: "put8 (n + 32) 0 (glue L ?z) = Some (glue L (pad0 n ?z))" if "length L = 32" "odd n" for L
    using assms that by (auto simp: put8_glue_out pad0_def odd_iff_mod_2_eq_one)
  have ck: "(NOT (of_nat (fold_sum (sum_words 0 d))) :: u16) = getChecksum d" for d
    by (simp add: getChecksum_def)
  show ?thesis
  proof (cases "odd n")
    case True
    then have m: "n mod 2 = 1" "(n + 20) mod 2 = 1" by presburger+
    show ?thesis
      unfolding H_def [symmetric]
      unfolding build_packet_def put
      using lp assms(2) True
      by (simp add: H_def glue_simps get_bytes_glue_out ihl Let_def net16_def bytes_of32_def o o0 slice_def m pad add_ac
         calculateIpCheckSum_def reply_udp_def psd_bytes_def ck) (simp add: glue_def z0)
  next
    case False
    then have m: "n mod 2 = 0" "(n + 20) mod 2 = 0" by presburger+
    have p: "pad0 n ?z = ?z" using False by (simp add: pad0_def)
    show ?thesis
      unfolding H_def [symmetric]
      unfolding build_packet_def put p
      using lp assms(2) False
      by (simp add: H_def glue_simps get_bytes_glue_out ihl Let_def net16_def bytes_of32_def o o0 slice_def m p add_ac
         calculateIpCheckSum_def reply_udp_def psd_bytes_def ck) (simp add: glue_def z0)
  qed
qed

lemma getChecksum_verifies:
  assumes "even (length a)" "ck = getChecksum (a @ [0, 0] @ b)" "ocsum b' = ocsum b"
  shows "fold16 (ocsum (a @ [lo8 ck, hi8 ck] @ b')) = 65535"
proof -
  have "unat ck = 65535 - fold16 (ocsum a + ocsum b)"
    using assms by (simp add: unat_getChecksum ocsum_append_even)
  then have "ocsum (a @ [lo8 ck, hi8 ck] @ b') = (ocsum a + ocsum b) + (65535 - fold16 (ocsum a + ocsum b))"
    using assms unat_le16 [of "lo8 ck" "hi8 ck"] by (simp add: ocsum_append_even)
  then show ?thesis by (simp only: fold16_verify)
qed

lemma ocsum_snoc0: "ocsum (xs @ [0]) = ocsum xs"
  by (induction xs rule: ocsum.induct) auto

lemma take_pad0:
  assumes "odd (length pl) \<longrightarrow> rest \<noteq> []"
  shows "take (length pl + length pl mod 2) (pad0 (length pl) (pl @ rest)) = pl @ (if odd (length pl) then [0] else [])"
  using assms by (cases rest) (auto simp: pad0_def list_update_append odd_iff_mod_2_eq_one even_iff_mod_2_eq_zero)

lemma inet_chksum_zero:
  assumes "fold16 (ocsum d) = 65535" "length d \<le> 65535"
  shows "inet_chksum lwip_standard_chksum a d = 0"
  using chksum_v2.inet_chksum_spec [OF assms(2), of a] assms(1) by (simp add: unat_eq_zero)

lemma ip_chksum_pseudo_zero:
  assumes "fold16 (ocsum (pseudo_header src dst proto len @ d)) = 65535" "length d \<le> 65535"
  shows "ip_chksum_pseudo lwip_standard_chksum [(a, d)] proto len src dst = 0"
  using chksum_v2.inet_chksum_pseudo_spec [of "[(a, d)]" proto len src dst] assms
  by (simp add: ip_chksum_pseudo_def short_bufs_def chain_bytes_def unat_eq_zero)

text \<open>The relay datagram in the receive buffer: its payload ends up right after the rebuilt headers.\<close>

lemma inet_addr_ntoa: "inet_addr (inet_ntoa ip) = ip"
  by (simp add: inet_addr_def inet_ntoa_def ipaddr_addr_def ip4addr_aton_dotted)

lemma literal28:
  assumes "length hdr = 28"
  obtains h0 h1 h2 h3 h4 h5 h6 h7 h8 h9 h10 h11 h12 h13 h14 h15 h16 h17 h18 h19 h20 h21 h22 h23 h24 h25 h26 h27 where
   "hdr = [h0, h1, h2, h3, h4, h5, h6, h7, h8, h9, h10, h11, h12, h13, h14, h15, h16, h17, h18, h19,
      h20, h21, h22, h23, h24, h25, h26, h27]"
proof -
  have "28 \<le> length hdr" using assms by simp
  then have l: "4 + 24 \<le> length hdr" by simp
  obtain h0 h1 h2 h3 t where 1: "hdr = h0 # h1 # h2 # h3 # t" "24 \<le> length t" using literal_split [OF l] by blast
  then have l: "4 + 20 \<le> length t" by simp
  obtain h4 h5 h6 h7 u where 2: "t = h4 # h5 # h6 # h7 # u" "20 \<le> length u" using literal_split [OF l] by blast
  then have l: "4 + 16 \<le> length u" by simp
  obtain h8 h9 h10 h11 v where 3: "u = h8 # h9 # h10 # h11 # v" "16 \<le> length v" using literal_split [OF l] by blast
  then have l: "4 + 12 \<le> length v" by simp
  obtain h12 h13 h14 h15 w where 4: "v = h12 # h13 # h14 # h15 # w" "12 \<le> length w" using literal_split [OF l] by blast
  then have l: "4 + 8 \<le> length w" by simp
  obtain h16 h17 h18 h19 x where 5: "w = h16 # h17 # h18 # h19 # x" "8 \<le> length x" using literal_split [OF l] by blast
  then have l: "4 + 4 \<le> length x" by simp
  obtain h20 h21 h22 h23 y where 6: "x = h20 # h21 # h22 # h23 # y" "4 \<le> length y" using literal_split [OF l] by blast
  then have "length y = 4" using assms 1 2 3 4 5 by simp
  then obtain h24 h25 h26 h27 where 7: "y = [h24, h25, h26, h27]" using literal4 by blast
  show thesis by (rule that) (use 1 2 3 4 5 6 7 in simp)
qed

lemma SetNatInfo_literal:
  assumes "h0 AND 0x0f = 5"
  shows "SetNatInfo ([h0, h1, h2, h3, h4, h5, h6, h7, h8, h9, h10, h11, h12, h13, h14, h15, h16, h17, h18, h19,
      h20, h21, h22, h23, h24, h25, h26, h27] @ data) =
   Some [h0, h1, h2, h3, h4, h5, h6, h7, h8, h9, h10, h11, h16, h17, h18, h19, h12, h13, h14, h15,
      h22, h23, h20, h21, h24, h25, h26, h27]"
proof -
  have ihl: "ip_hdr_bytes h0 = 20" using assms by (simp add: ip_hdr_bytes_def)
  show ?thesis
    by (simp add: SetNatInfo_def swap_fields_def get8_def ihl get_bytes_def put_bytes_def slice_def overwrite_def)
qed

text \<open>A relay datagram of RFC 1928 from \<open>src\<close> and \<open>port\<close>, and the IP header of the packet built from it.\<close>

definition relay_datagram :: "u32 \<Rightarrow> u16 \<Rightarrow> bytes \<Rightarrow> bytes" where
  "relay_datagram src port payload = [0x00, 0x00, 0x00, 0x01] @ bytes_of32 src @ net16 port @ payload"

definition reply_ip :: "bytes \<Rightarrow> u32 \<Rightarrow> nat \<Rightarrow> u8 \<Rightarrow> u8 \<Rightarrow> bytes" where
  "reply_ip orig src n c0 c1 =
     slice 0 2 orig @ net16 (of_nat (n + 28)) @ slice 4 4 orig @ [64, orig ! 9, c0, c1] @ bytes_of32 src @ slice 12 4 orig"

lemma readFromRemote_build:
  assumes H: "length (us_ip_udp_header s) = 28" and buf: "length (us_recv_buff s) = 1500"
    and src: "src \<noteq> IPADDR_NONE" and len: "length payload \<le> 1448"
  obtains p0 p1 p2 p3 z rest where
    "length z = 28 + 1468" "drop 28 z = payload @ rest" "rest \<noteq> []"
    "readFromRemote pf (Some (sender, relay_datagram src port payload)) s =
       do { buf \<leftarrow> build_packet (length payload + 10) src port (us_ip_udp_header s) (p0 # p1 # p2 # p3 # z);
            (injected, buf) \<leftarrow> inject_packet pf (length payload + 10) buf;
            Some (True, injected, s\<lparr>us_recv_ep := sender, us_recv_buff := buf\<rparr>) }"
proof -
  let ?b = "us_recv_buff s" and ?R = "relay_datagram src port payload"
  define rest where "rest = drop (32 + length payload) ?b"
  have R: "length ?R = 10 + length payload" by (simp add: relay_datagram_def net16_def)
  have "4 + 1496 \<le> length ?b" using buf by simp
  then obtain p0 p1 p2 p3 y where y: "?b = p0 # p1 # p2 # p3 # y" using literal_split by blast
  define z where "z = take 18 y @ ?R @ rest"
  have ly: "length y = 1496" using buf y by simp
  have put: "put_bytes 22 ?R ?b = Some (p0 # p1 # p2 # p3 # z)"
    using buf R len y by (simp add: put_bytes_def overwrite_def z_def rest_def)
  have d: "drop 22 (p0 # p1 # p2 # p3 # z) = ?R @ rest" using ly by (simp add: z_def)
  have parse: "parseIpPortFromSocks5UdpPacket (?R @ rest) = Some (Some (inet_ntoa src, port))"
    by (simp add: parseIpPortFromSocks5UdpPacket_def relay_datagram_def bytes_of32_def net16_def parseIpPort_bytes)
  have t: "take 1458 ?R = ?R" using R len by simp
  define B where "B = p0 # p1 # p2 # p3 # z"
  show thesis
  proof (rule that)
    show "length z = 28 + 1468" "rest \<noteq> []" using ly R len buf by (simp_all add: z_def rest_def)
    show "drop 28 z = payload @ rest"
      using ly by (simp add: z_def relay_datagram_def net16_def bytes_of32_def)
    show "readFromRemote pf (Some (sender, ?R)) s =
       do { buf \<leftarrow> build_packet (length payload + 10) src port (us_ip_udp_header s) (p0 # p1 # p2 # p3 # z);
            (injected, buf) \<leftarrow> inject_packet pf (length payload + 10) buf;
            Some (True, injected, s\<lparr>us_recv_ep := sender, us_recv_buff := buf\<rparr>) }"
      unfolding readFromRemote_def H UDP_REMOTE_RECV_BUFF_SIZE_def B_def [symmetric]
      using src by (simp add: t R put [folded B_def] d [folded B_def] parse Let_def inet_addr_ntoa add.commute [of 10])
  qed
qed

lemma inject_windows:
  assumes "length I = 20" "length U = 8" "I ! 0 AND 0x0f = 5"
  shows "inject_packet Windows (length payload + 10) ([p0, p1, p2, p3] @ I @ U @ pad0 (length payload) (payload @ rest)) =
    Some (Some (I @ U @ payload), [p0, p1, p2, p3] @ I @ U @ pad0 (length payload) (payload @ rest))"
proof -
  have i: "ip_hdr_bytes (I ! 0) = 20" using assms(3) by (simp add: ip_hdr_bytes_def)
  have v: "get8 4 ([p0, p1, p2, p3] @ I @ ys) = Some (I ! 0)" for ys
    using assms(1) by (simp add: get8_def nth_append)
  have g: "get_bytes 4 (28 + length payload) ([p0, p1, p2, p3] @ I @ U @ pad0 (length payload) (payload @ rest)) = Some (I @ U @ payload)"
    using assms by (simp add: get_bytes_def slice_def pad0_def list_update_append)
  show ?thesis
    using g by (simp only: inject_packet_def v bind.bind_lunit platform.case i) simp
qed

lemma readFromRemote_reply:
  fixes port :: u16
  assumes nat: "SetNatInfo orig = Some (us_ip_udp_header s)" "28 \<le> length orig" "orig ! 0 AND 0x0f = 5"
    and buf: "length (us_recv_buff s) = 1500"
    and src: "src \<noteq> IPADDR_NONE" and len: "length payload \<le> 1448"
  defines "udpl \<equiv> of_nat (length payload + 8)"
  defines "padded \<equiv> payload @ (if odd (length payload) then [0] else [])"
  defines "ck \<equiv> getChecksum (psd_bytes (orig ! 9) udpl src (slice 12 4 orig) @ reply_udp port (orig ! 20) (orig ! 21) udpl 0 @ padded)"
  defines "ic \<equiv> getChecksum (reply_ip orig src (length payload) 0 0)"
  shows "\<exists>s'. readFromRemote Windows (Some (sender, relay_datagram src port payload)) s =
    Some (True, Some (reply_ip orig src (length payload) (lo8 ic) (hi8 ic) @ reply_udp port (orig ! 20) (orig ! 21) udpl ck @ payload), s') \<and>
    us_status s' = us_status s \<and> us_recv_ep s' = sender"
proof -
  have "length (take 28 orig) = 28" using nat(2) by simp
  then obtain h0 h1 h2 h3 h4 h5 h6 h7 h8 h9 h10 h11 h12 h13 h14 h15 h16 h17 h18 h19 h20 h21 h22 h23 h24 h25 h26 h27 where
   t: "take 28 orig = [h0, h1, h2, h3, h4, h5, h6, h7, h8, h9, h10, h11, h12, h13, h14, h15, h16, h17, h18, h19,
      h20, h21, h22, h23, h24, h25, h26, h27]"
    by (rule literal28)
  define d where "d = drop 28 orig"
  have o: "orig = [h0, h1, h2, h3, h4, h5, h6, h7, h8, h9, h10, h11, h12, h13, h14, h15, h16, h17, h18, h19,
      h20, h21, h22, h23, h24, h25, h26, h27] @ d"
    using append_take_drop_id [of 28 orig] unfolding t d_def by simp
  have h: "h0 AND 0x0f = 5" using nat(3) o by simp
  have H: "us_ip_udp_header s = [h0, h1, h2, h3, h4, h5, h6, h7, h8, h9, h10, h11, h16, h17, h18, h19, h12, h13, h14, h15,
      h22, h23, h20, h21, h24, h25, h26, h27]"
    using nat(1) SetNatInfo_literal [OF h] unfolding o by simp
  have HL: "length (us_ip_udp_header s) = 28" by (simp add: H)
  obtain p0 p1 p2 p3 z rest where z: "length z = 28 + 1468" "drop 28 z = payload @ rest" "rest \<noteq> []"
    and step: "readFromRemote Windows (Some (sender, relay_datagram src port payload)) s =
       do { buf \<leftarrow> build_packet (length payload + 10) src port (us_ip_udp_header s) (p0 # p1 # p2 # p3 # z);
            (injected, buf) \<leftarrow> inject_packet Windows (length payload + 10) buf;
            Some (True, injected, s\<lparr>us_recv_ep := sender, us_recv_buff := buf\<rparr>) }"
    using HL buf src len by (rule readFromRemote_build)
  have le: "length payload + length payload mod 2 \<le> 1468"
    using len mod_less_divisor [of 2 "length payload"] by linarith
  have pad: "take (length payload + length payload mod 2) (pad0 (length payload) (payload @ rest)) = padded"
    using take_pad0 [of payload rest] z(3) by (simp add: padded_def)
  have b: "build_packet (length payload + 10) src port (us_ip_udp_header s) (p0 # p1 # p2 # p3 # z) =
    Some ([p0, p1, p2, p3] @ reply_ip orig src (length payload) (lo8 ic) (hi8 ic) @ reply_udp port h20 h21 udpl ck @
          pad0 (length payload) (payload @ rest))"
    unfolding H build_packet_literal [OF z(1) le h] z(2) pad
    by (simp add: ck_def ic_def udpl_def reply_ip_def o slice_def Let_def)
  have I: "length (reply_ip orig src (length payload) a b) = 20" "reply_ip orig src (length payload) a b ! 0 AND 0x0f = 5"
    and U: "length (reply_udp port h20 h21 udpl ck) = 8" for a b
    using h by (simp_all add: reply_ip_def reply_udp_def o slice_def net16_def)
  have "orig ! 20 = h20" "orig ! 21 = h21" by (simp_all add: o)
  then show ?thesis
    by (simp only: step b bind.bind_lunit inject_windows [OF I(1) U I(2)] prod.case) simp
qed

lemma slice_nth:
  "k + 2 \<le> length xs \<Longrightarrow> slice k 2 xs = [xs ! k, xs ! Suc k]"
  "k + 4 \<le> length xs \<Longrightarrow> slice k 4 xs = [xs ! k, xs ! Suc k, xs ! Suc (Suc k), xs ! Suc (Suc (Suc k))]"
  by (simp_all add: slice_def Cons_nth_drop_Suc [symmetric] take_Suc_conv_app_nth numeral_eq_Suc)

lemma get32_slice:
  assumes "get32 k xs = Some v"
  shows "slice k 4 xs = bytes_of32 v"
proof -
  have 3: "k + 3 = Suc (Suc (Suc k))" by simp
  show ?thesis using assms unfolding get32_def 3 by (auto simp: slice_nth bytes_of32_def split: if_splits)
qed

text \<open>C18: the packet injected for a relay datagram, when the original packet had no IP options, is a
  correct IPv4/UDP packet from the relayed source to the original client: it carries the payload
  without the SOCKS5 header, its addresses and ports are those of the relay header and, swapped, of
  the original packet, its lengths are right, and lwIP's own IP and UDP checksum tests accept it.\<close>

theorem udp_reply_packet_valid:
  assumes "SetNatInfo orig = Some (us_ip_udp_header s)" "28 \<le> length orig" "orig ! 0 AND 0x0f = 5" "orig ! 9 = 17"
    and "length (us_recv_buff s) = 1500" "src \<noteq> IPADDR_NONE" "length payload \<le> 1448"
    and "get32 12 orig = Some client"
  shows "\<exists>pkt s'. readFromRemote Windows (Some (sender, relay_datagram src port payload)) s = Some (True, Some pkt, s') \<and>
    drop 28 pkt = payload \<and> length pkt = 28 + length payload \<and>
    get32 12 pkt = Some src \<and> get32 16 pkt = Some client \<and>
    udp_hdr_at 20 pkt = Some \<lparr>uh_src = lwip_htons port, uh_dest = le16 (orig ! 20) (orig ! 21),
      uh_len = lwip_htons (of_nat (8 + length payload)), uh_chksum = le16 (pkt ! 26) (pkt ! 27)\<rparr> \<and>
    get16 2 pkt = Some (lwip_htons (of_nat (length pkt))) \<and>
    inet_chksum lwip_standard_chksum a (take 20 pkt) = 0 \<and>
    ip_chksum_pseudo lwip_standard_chksum [(a, drop 20 pkt)] 17 (of_nat (8 + length payload)) src client = 0"
proof -
  define ic where "ic = getChecksum (reply_ip orig src (length payload) 0 0)"
  define udpl :: u16 where "udpl = of_nat (length payload + 8)"
  define padded where "padded = payload @ (if odd (length payload) then [0] else [])"
  define psd where "psd = psd_bytes (orig ! 9) udpl src (slice 12 4 orig)"
  define ck where "ck = getChecksum (psd @ reply_udp port (orig ! 20) (orig ! 21) udpl 0 @ padded)"
  define I where "I = reply_ip orig src (length payload) (lo8 ic) (hi8 ic)"
  define U where "U = reply_udp port (orig ! 20) (orig ! 21) udpl ck"
  obtain s' where s': "readFromRemote Windows (Some (sender, relay_datagram src port payload)) s = Some (True, Some (I @ U @ payload), s')"
    using readFromRemote_reply [OF assms(1,2,3,5,6,7), of sender port]
    unfolding I_def U_def ic_def ck_def udpl_def padded_def psd_def by blast
  have client: "slice 12 4 orig = bytes_of32 client" by (rule get32_slice [OF assms(8)])
  have z0: "lo8 0 = 0" "hi8 0 = 0" by (simp_all add: lo8_def hi8_def)
  have IP: "fold16 (ocsum I) = 65535"
    using getChecksum_verifies [of "slice 0 2 orig @ net16 (of_nat (length payload + 28)) @ slice 4 4 orig @ [64, orig ! 9]" ic
        "bytes_of32 src @ slice 12 4 orig" "bytes_of32 src @ slice 12 4 orig"] assms(2)
    by (simp add: I_def ic_def reply_ip_def net16_def)
  have "ocsum padded = ocsum payload" by (simp add: padded_def ocsum_snoc0)
  then have "fold16 (ocsum (psd @ U @ payload)) = 65535"
    using getChecksum_verifies [of "psd @ net16 port @ [orig ! 20, orig ! 21] @ net16 udpl" ck padded payload] assms(2)
    by (simp add: U_def ck_def psd_def psd_bytes_def reply_udp_def net16_def z0 client)
  then have UP: "fold16 (ocsum (pseudo_header src client 17 udpl @ U @ payload)) = 65535"
    using assms(2,4)
    by (simp add: psd_def psd_bytes_def client pseudo_header_def bytes_of32_def net16_def add_ac)
  have len: "length I = 20" "length U = 8"
    using assms(2) by (simp_all add: I_def U_def reply_ip_def reply_udp_def net16_def)
  have "inet_chksum lwip_standard_chksum a I = 0" "ip_chksum_pseudo lwip_standard_chksum [(a, U @ payload)] 17 udpl src client = 0"
    using inet_chksum_zero [OF IP, of a] ip_chksum_pseudo_zero [OF UP, of a] len assms(7) by simp_all
  moreover have "get32 12 (I @ U @ payload) = Some src" "get32 16 (I @ U @ payload) = Some client"
      "get16 2 (I @ U @ payload) = Some (lwip_htons (of_nat (28 + length payload)))"
    using assms(2) by (simp_all add: I_def reply_ip_def client net16_def slice_nth get32_def get16_def bytes_of32_def lwip_htons_bytes add.commute)
  moreover have "udp_hdr_at 20 (I @ U @ payload) = Some \<lparr>uh_src = lwip_htons port, uh_dest = le16 (orig ! 20) (orig ! 21),
      uh_len = lwip_htons udpl, uh_chksum = le16 ((I @ U @ payload) ! 26) ((I @ U @ payload) ! 27)\<rparr>"
    using len by (simp add: udp_hdr_at_def get16_def nth_append U_def reply_udp_def net16_def lwip_htons_bytes)
  ultimately show ?thesis
    using s' len by (intro exI [of _ "I @ U @ payload"] exI [of _ s']) (simp add: udpl_def add.commute)
qed


text \<open>A packet of 30 bytes from 10.0.0.1 port 1024 to 8.8.8.8 port 53, and a session for it.\<close>

definition sample_packet :: bytes where
  "sample_packet = [0x45, 0, 0, 30, 0, 1, 0, 0, 64, 17, 0, 0, 10, 0, 0, 1, 8, 8, 8, 8, 4, 0, 0, 53, 0, 10, 0, 0, 7, 9]"

definition sample_session :: udp_session where
  "sample_session = \<lparr>us_status = RELAYING, us_recv_ep = (''127.0.0.1'', 1080), us_recv_buff = replicate 1500 0,
     us_ip_udp_header = [0x45, 0, 0, 30, 0, 1, 0, 0, 64, 17, 0, 0, 8, 8, 8, 8, 10, 0, 0, 1, 0, 53, 4, 0, 0, 10, 0, 0],
     us_last_update_time = 0\<rparr>"

lemma sample_nat: "SetNatInfo sample_packet = Some (us_ip_udp_header sample_session)"
  using SetNatInfo_literal [of "0x45" 0 0 30 0 1 0 0 64 17 0 0 10 0 0 1 8 8 8 8 4 0 0 53 0 10 0 0 "[7, 9]"]
  by (simp add: sample_packet_def sample_session_def)

theorem udp_reply_packet_valid_witness:
  "\<exists>pkt s'. readFromRemote Windows (Some ((''127.0.0.1'', 1080), relay_datagram 0x08080808 53 [1, 2, 3])) sample_session =
      Some (True, Some pkt, s') \<and> drop 28 pkt = [1, 2, 3] \<and> get32 16 pkt = Some 0x0100000a"
proof -
  have "get32 12 sample_packet = Some 0x0100000a" by (simp add: sample_packet_def get32_def le32_def)
  then show ?thesis
    using udp_reply_packet_valid [OF sample_nat, of "0x08080808" "[1, 2, 3]" "0x0100000a" "(''127.0.0.1'', 1080)" 53 False]
    by (auto simp: sample_packet_def sample_session_def IPADDR_NONE_def)
qed

text \<open>the checksum loop of the UDP session computes the same checksum as lwIP's \<^verbatim>\<open>inet_chksum\<close>, on
  every buffer an IP packet can fill.\<close>

theorem getChecksum_inet_chksum:
  assumes "length data \<le> 65535"
  shows "getChecksum data = inet_chksum lwip_standard_chksum a data"
  using chksum_v2.inet_chksum_spec [OF assms, of a] by (simp add: word_unat_eq_iff unat_getChecksum)

theorem getChecksum_inet_chksum_witness:
  "getChecksum [0x45, 0, 0xff, 3, 9] = inet_chksum lwip_standard_chksum True [0x45, 0, 0xff, 3, 9]"
  using getChecksum_inet_chksum [of "[0x45, 0, 0xff, 3, 9]" True] by simp

text \<open>The UDP filter lets a destination pass exactly when lwIP does not call it multicast and it is
  in neither 10.0.0.0/8 nor 127.0.0.0/8.\<close>

theorem Pass_iff:
  "Pass ip \<longleftrightarrow> \<not> ip4_addr_ismulticast ip \<and> \<not> ip4_addr_netcmp ip 0x0000000a 0x000000ff \<and>
     \<not> ip4_addr_netcmp ip 0x0000007f 0x000000ff"
proof -
  have a: "unat (byte_of32 0 ip) = unat ip mod 256"
    by (simp add: byte_of32_def unsigned_ucast_eq take_bit_eq_mod)
  have m: "(0xff :: u32) = mask 8" "(0xf0 :: u32) = push_bit 4 (mask 4)" by (simp_all add: mask_eq_exp_minus_1 push_bit_eq_mult)
  have ff: "unat (x AND 0xff) = unat x mod 256" for x :: u32
    unfolding m take_bit_eq_mask [symmetric] unsigned_take_bit_eq by (simp add: take_bit_eq_mod)
  have f0: "ip AND 0xf0 = push_bit 4 (take_bit 4 (drop_bit 4 ip))"
    unfolding m by (rule bit_word_eqI) (auto simp: bit_simps)
  have net: "ip4_addr_netcmp ip (of_nat k) 0xff \<longleftrightarrow> unat ip mod 256 = k" if "k < 256" for k
    using that by (simp add: ip4_addr_netcmp_def ff word_unat_eq_iff unat_of_nat)
  have htonl: "PP_HTONL 0xf0000000 = 0xf0" "PP_HTONL 0xe0000000 = 0xe0" by code_simp+
  have n: "unat (push_bit 4 (take_bit 4 (drop_bit 4 ip))) = 16 * (unat ip div 16 mod 16)"
    unfolding unsigned_push_bit_eq unsigned_take_bit_eq unsigned_drop_bit_eq
    using unat_u32_lt [of ip] by (simp add: take_bit_eq_mod push_bit_eq_mult drop_bit_eq_div)
  have "ip4_addr_ismulticast ip \<longleftrightarrow> unat ip div 16 mod 16 = 14"
    by (simp add: ip4_addr_ismulticast_def htonl f0 word_unat_eq_iff n)
  also have "\<dots> \<longleftrightarrow> 224 \<le> unat ip mod 256 \<and> unat ip mod 256 \<le> 239"
  proof -
    have "unat ip mod 256 = 16 * (unat ip div 16 mod 16) + unat ip mod 16"
      using mod_mult2_eq [of "unat ip" 16 16] by simp
    moreover have "unat ip mod 16 < 16" by simp
    ultimately show ?thesis by linarith
  qed
  finally show ?thesis
    using net [of 10] net [of 127] by (simp add: Pass_def isMulticast_def isReservedAddress_def a Let_def)
qed

lemma SendPacketToRemote_sends:
  assumes "heap_ok h" "\<not> h_fail h (h_next h)" "n < 65536" "n \<le> length data"
  shows "\<exists>h'. SendPacketToRemote data n h = Some (Some (h_next h, take n data), h') \<and> heap_ok h' \<and> extends h h' \<and>
    pchain h' (Some (h_next h)) [h_next h] \<and> all_freeable h' [h_next h]"
proof -
  have n: "unat (of_nat n :: u16) = n" using assms(3) by (simp add: unat_of_nat)
  have l: "length (take n data) = n" using assms(4) by simp
  obtain h1 h2 b where h: "pbuf_alloc PBUF_RAW (of_nat n) PBUF_RAM h = Some (Some (h_next h), h1)"
    "pbuf_take (Some (h_next h)) (take n data) h1 = Some (ERR_OK, h2)" "heap_ok h2" "extends h h2"
    "pchain h2 (Some (h_next h)) [h_next h]" "all_freeable h2 [h_next h]"
    "h_pbuf h2 (h_next h) = Some b" "pay_ok h2 b" "pdata h2 b = take n data" "p_len b = of_nat n" "p_tot_len b = of_nat n"
    using pbuf_alloc_take [OF assms(1,2), of PBUF_RAW "take n data"] assms(3) unfolding l by auto
  have "mem_read h2 (p_payload b) 0 n = Some (take n data)"
    using mem_read_pdata [OF h(8), of 0 n] h(9,10) n by (simp add: slice_def)
  then show ?thesis
    using h assms(4) n by (simp add: SendPacketToRemote_def)
qed

lemma SendPacketToRemote_out_of_memory:
  assumes "h_fail h (h_next h)" "n < 65536" "n \<le> length data"
  shows "\<exists>h'. SendPacketToRemote data n h = Some (None, h') \<and> h_pbuf h' = h_pbuf h \<and> h_mem h' = h_mem h"
proof -
  have n: "unat (of_nat n :: u16) = n" using assms(2) by (simp add: unat_of_nat)
  obtain h' where "pbuf_alloc PBUF_RAW (of_nat n) PBUF_RAM h = Some (None, h')" "h_pbuf h' = h_pbuf h" "h_mem h' = h_mem h"
    using pbuf_alloc_ram_none [of PBUF_RAW "of_nat n" h] assms(1) by auto
  then show ?thesis using assms(3) n by (simp add: SendPacketToRemote_def pbuf_take_def)
qed

text \<open>The relay header over the last two bytes before the UDP header and the header itself.\<close>

lemma ntoa_str_dotted: "ntoa_str ip = inet_ntoa ip"
proof -
  have "length (replicate IP4ADDR_STRLEN_MAX CHR 0x00) = IP4ADDR_STRLEN_MAX" by simp
  from ip4addr_ntoa_r_result [OF this, of ip] show ?thesis
    using dotted_quad_length [of ip] by (auto simp: ntoa_str_def ip4addr_ntoa_def inet_ntoa_def)
qed

lemma relay_packet_bytes:
  assumes "2 \<le> u" "u + 8 \<le> length pkt" "get32 (off + 16) pkt = Some dest"
  shows "\<exists>pkt'. relay_packet off u uh pkt = Some pkt' \<and> length pkt' = length pkt \<and>
    drop (u - 2) pkt' = relay_datagram dest (lwip_htons (uh_dest uh)) (drop (u + 8) pkt)"
proof -
  have "10 \<le> length (drop (u - 2) pkt)" using assms(1,2) by simp
  from udp_packet_bytes [OF this, of dest "uh_dest uh"] show ?thesis
    using assms by (auto simp: relay_packet_def ntoa_str_dotted relay_datagram_def net16_def lwip_htons_bytes add.commute)
qed


text \<open>A UDP packet as the handler reads it: the IP header at \<open>off\<close> has at least 20 bytes, the UDP header
  \<open>uh\<close> at \<open>u\<close> announces \<open>n\<close> bytes of payload, and they are there.\<close>

definition udp_request :: "nat \<Rightarrow> bytes \<Rightarrow> nat \<Rightarrow> udp_hdr \<Rightarrow> u32 \<Rightarrow> nat \<Rightarrow> bool" where
  "udp_request off pkt u uh dest n =
     (map_option (\<lambda>v. off + ip_hdr_bytes v) (get8 off pkt) = Some u \<and> off + 20 \<le> u \<and>
      udp_hdr_at u pkt = Some uh \<and> get32 (off + 16) pkt = Some dest \<and>
      unat (lwip_ntohs (uh_len uh)) = 8 + n \<and> u + 8 + n \<le> length pkt \<and> n + 10 < 65536)"

lemma relay_and_send:
  assumes "udp_request off pkt u uh dest n" "heap_ok h" "\<not> h_fail h (h_next h)"
  obtains pkt' h' where "relay_packet off u uh pkt = Some pkt'"
    "SendPacketToRemote (drop (u - 2) pkt') (unat (lwip_ntohs (uh_len uh)) + 2) h =
      Some (Some (h_next h, relay_datagram dest (lwip_ntohs (uh_dest uh)) (slice (u + 8) n pkt)), h')"
    "heap_ok h'" "extends h h'"
proof -
  have u: "2 \<le> u" "u + 8 \<le> length pkt" "get32 (off + 16) pkt = Some dest" "n + 10 < 65536" "u + 8 + n \<le> length pkt"
    and len: "unat (lwip_ntohs (uh_len uh)) + 2 = n + 10"
    using assms(1) by (simp_all add: udp_request_def)
  obtain pkt' where pkt': "relay_packet off u uh pkt = Some pkt'" "length pkt' = length pkt"
    "drop (u - 2) pkt' = relay_datagram dest (lwip_htons (uh_dest uh)) (drop (u + 8) pkt)"
    using relay_packet_bytes [OF u(1-3)] by blast
  have "n + 10 \<le> length (drop (u - 2) pkt')" using pkt'(2) u by simp
  from SendPacketToRemote_sends [OF assms(2,3) u(4) this] obtain h' where h':
    "SendPacketToRemote (drop (u - 2) pkt') (n + 10) h = Some (Some (h_next h, take (n + 10) (drop (u - 2) pkt')), h')"
    "heap_ok h'" "extends h h'" by blast
  have "take (n + 10) (drop (u - 2) pkt') = relay_datagram dest (lwip_ntohs (uh_dest uh)) (slice (u + 8) n pkt)"
    unfolding pkt'(3) by (simp add: relay_datagram_def net16_def bytes_of32_def slice_def take_Cons')
  with h' pkt'(1) show thesis using that unfolding len by simp
qed

lemma SetNatInfo_total:
  assumes "get8 0 pkt = Some v" "20 \<le> ip_hdr_bytes v" "ip_hdr_bytes v + 8 \<le> length pkt"
  shows "\<exists>saved. SetNatInfo pkt = Some saved \<and> length saved = ip_hdr_bytes v + 8"
  using assms by (simp add: SetNatInfo_def swap_fields_def get_bytes_def put_bytes_def)

lemma readFromRemote_sender:
  assumes "readFromRemote pf (Some (sender, d)) s = Some (cont, out, s')"
  shows "us_recv_ep s' = sender"
  using assms by (auto simp: readFromRemote_def Let_def split: bind_splits option.splits if_splits prod.splits)


text \<open>C15: the first packet of a flow creates its session: the datagram of RFC 1928 with the packet's
  destination and payload is sent to the SOCKS5 server, the session remembers the swapped headers,
  and afterwards the table maps exactly the packet's source port to it, every other port as before.\<close>

theorem udp_new_flow:
  assumes req: "udp_request off pkt u uh dest n" and new: "umap_find UDP_HEADER_EQUAL uh (ust_map st) = None"
    and server: "from_string ip = Some a" and heap: "heap_ok (ust_heap st)" "\<not> h_fail (ust_heap st) (h_next (ust_heap st))"
  shows "\<exists>pkt' st' s. UdpHandler_Handle from_string (ip, port) now off pkt st =
      Some (Some (ust_next st, (a, port), h_next (ust_heap st),
                  relay_datagram dest (lwip_ntohs (uh_dest uh)) (slice (u + 8) n pkt)), pkt', st') \<and>
    ust_sessions st' (ust_next st) = Some s \<and> us_status s = RELAYING \<and> us_recv_ep s = (a, port) \<and>
    SetNatInfo (drop off pkt) = Some (us_ip_udp_header s) \<and> length (us_recv_buff s) = UDP_REMOTE_RECV_BUFF_SIZE \<and>
    (\<forall>k. umap_find UDP_HEADER_EQUAL k (ust_map st') =
       (if uh_src k = uh_src uh then Some (ust_next st) else umap_find UDP_HEADER_EQUAL k (ust_map st)))"
proof -
  obtain pkt' h' where send: "relay_packet off u uh pkt = Some pkt'"
    "SendPacketToRemote (drop (u - 2) pkt') (unat (lwip_ntohs (uh_len uh)) + 2) (ust_heap st) =
      Some (Some (h_next (ust_heap st), relay_datagram dest (lwip_ntohs (uh_dest uh)) (slice (u + 8) n pkt)), h')"
    using req heap by (rule relay_and_send)
  obtain v where v: "get8 off pkt = Some v" "u = off + ip_hdr_bytes v" "20 \<le> ip_hdr_bytes v"
    using req by (auto simp: udp_request_def)
  then have "get8 0 (drop off pkt) = Some v" by (auto simp: get8_def split: if_splits)
  moreover have "ip_hdr_bytes v + 8 \<le> length (drop off pkt)" using v(2) req by (auto simp: udp_request_def)
  ultimately obtain saved where saved: "SetNatInfo (drop off pkt) = Some saved"
    using SetNatInfo_total v(3) by blast
  have "udp_hdr_at u pkt = Some uh" using req by (simp add: udp_request_def)
  then show ?thesis
    using v(1) send saved server new
    by (simp add: v(2) UdpHandler_Handle_def SetSocks5ServerEndpoint_def UdpSession_new_def UdpSession_Run_def
        udp_map.find_insert UDP_HEADER_EQUAL_def Let_def eq_commute [of "uh_src uh"])
qed

text \<open>C19: packets of a known flow are sent through its session, to the endpoint the session holds; the
  table does not change. That endpoint is the sender of the last datagram the session received, since
  the receive call stores the sender there: whoever sends a datagram to the session's socket gets the
  flow's next packets in place of the SOCKS5 server.\<close>

theorem udp_reply_redirects_flow:
  assumes req: "udp_request off pkt u uh dest n" and known: "umap_find UDP_HEADER_EQUAL uh (ust_map st) = Some sid"
    and heap: "heap_ok (ust_heap st)" "\<not> h_fail (ust_heap st) (h_next (ust_heap st))"
    and reply: "readFromRemote pf (Some (sender, d)) s = Some (cont, out, s')" "ust_sessions st sid = Some s'"
  shows "\<exists>pkt' h'. UdpHandler_Handle from_string server now off pkt st =
      Some (Some (sid, sender, h_next (ust_heap st),
                  relay_datagram dest (lwip_ntohs (uh_dest uh)) (slice (u + 8) n pkt)), pkt', st\<lparr>ust_heap := h'\<rparr>)"
proof -
  obtain pkt' h' where send: "relay_packet off u uh pkt = Some pkt'"
    "SendPacketToRemote (drop (u - 2) pkt') (unat (lwip_ntohs (uh_len uh)) + 2) (ust_heap st) =
      Some (Some (h_next (ust_heap st), relay_datagram dest (lwip_ntohs (uh_dest uh)) (slice (u + 8) n pkt)), h')"
    using req heap by (rule relay_and_send)
  obtain v where v: "get8 off pkt = Some v" "u = off + ip_hdr_bytes v" "udp_hdr_at u pkt = Some uh"
    using req by (auto simp: udp_request_def)
  then show ?thesis
    using send known reply(2) readFromRemote_sender [OF reply(1)]
    by (intro exI [of _ pkt'] exI [of _ h']) (simp add: UdpHandler_Handle_def Let_def)
qed

text \<open>The sample packet on an empty state, and on the state after it with one session.\<close>

definition sample_state :: udp_state where
  "sample_state = \<lparr>ust_map = [], ust_sessions = Map.empty, ust_next = 0, ust_heap = empty_heap, ust_fill = (\<lambda>_ _. 0)\<rparr>"

definition sample_hdr :: udp_hdr where
  "sample_hdr = \<lparr>uh_src = le16 4 0, uh_dest = le16 0 53, uh_len = le16 0 10, uh_chksum = le16 0 0\<rparr>"

lemma sample_request: "udp_request 0 sample_packet 20 sample_hdr 0x08080808 2"
  by (simp add: udp_request_def sample_packet_def sample_hdr_def get8_def ip_hdr_bytes_def udp_hdr_at_def get16_def
      get32_def lwip_htons_le16 unat_le16 le32_def)

theorem udp_new_flow_witness:
  "\<exists>pkt' st'. UdpHandler_Handle Some (''127.0.0.1'', 1080) 0 0 sample_packet sample_state =
     Some (Some (0, (''127.0.0.1'', 1080), 0, [0, 0, 0, 1, 8, 8, 8, 8, 0, 53, 7, 9]), pkt', st')"
proof -
  have "relay_datagram 0x08080808 (lwip_ntohs (uh_dest sample_hdr)) (slice 28 2 sample_packet) = [0, 0, 0, 1, 8, 8, 8, 8, 0, 53, 7, 9]"
    by (simp add: relay_datagram_def sample_hdr_def sample_packet_def slice_def net16_def lwip_htons_le16 bytes_of32_def byte_of32_def)
  then show ?thesis
    using udp_new_flow [OF sample_request, of sample_state Some "''127.0.0.1''" "''127.0.0.1''" 1080 0] empty_heap_ok
    by (auto simp: sample_state_def empty_heap_def umap_find_def)
qed

theorem udp_reply_redirects_flow_witness:
  "\<exists>s' pkt' h'. UdpHandler_Handle Some (''127.0.0.1'', 1080) 0 0 sample_packet
       (sample_state\<lparr>ust_map := [(sample_hdr, 5)], ust_sessions := [5 \<mapsto> s']\<rparr>) =
     Some (Some (5, (''6.6.6.6'', 6), 0, [0, 0, 0, 1, 8, 8, 8, 8, 0, 53, 7, 9]), pkt',
           sample_state\<lparr>ust_map := [(sample_hdr, 5)], ust_sessions := [5 \<mapsto> s'], ust_heap := h'\<rparr>)"
proof -
  have l: "length (us_recv_buff sample_session) = 1500" "28 \<le> length sample_packet" "sample_packet ! 0 AND 0x0f = 5"
    by (simp_all add: sample_session_def sample_packet_def)
  obtain s' out where s': "readFromRemote Windows (Some ((''6.6.6.6'', 6), relay_datagram 0x08080808 53 [])) sample_session = Some (True, out, s')"
    using readFromRemote_reply [OF sample_nat l(2,3,1), of "0x08080808" "[]" "(''6.6.6.6'', 6)" 53] by (auto simp: IPADDR_NONE_def)
  have "relay_datagram 0x08080808 (lwip_ntohs (uh_dest sample_hdr)) (slice 28 2 sample_packet) = [0, 0, 0, 1, 8, 8, 8, 8, 0, 53, 7, 9]"
    by (simp add: relay_datagram_def sample_hdr_def sample_packet_def slice_def net16_def lwip_htons_le16 bytes_of32_def byte_of32_def)
  then show ?thesis
    using udp_reply_redirects_flow [OF sample_request, of "sample_state\<lparr>ust_map := [(sample_hdr, 5)], ust_sessions := [5 \<mapsto> s']\<rparr>" 5
        Windows "(''6.6.6.6'', 6)" "relay_datagram 0x08080808 53 []" sample_session True out s' Some "(''127.0.0.1'', 1080)" 0] s' empty_heap_ok
    by (auto simp: sample_state_def empty_heap_def umap_find_def UDP_HEADER_EQUAL_def)
qed

end
