(* ===== verification/Tcp_Session.thy ===== *)
theory Tcp_Session
  imports Socks5 Pbuf_Props
begin

text \<open>
  \<^verbatim>\<open>TcpSession\<close> (\<^verbatim>\<open>net/tcp/tcp_session.h\<close>): one proxied TCP connection. The class is a state machine driven
  by three kinds of stackful coroutines: the main one that \<^verbatim>\<open>Start\<close> spawns (connect, SOCKS5 handshake,
  flush of the early packets, downstream loop), the upstream one that \<^verbatim>\<open>ProxyTcpPacket\<close> spawns and the
  downstream one that \<^verbatim>\<open>ReadFromRemote\<close> spawns. A coroutine is its program counter, that is the
  asynchronous operation it waits for; the code between two suspensions is one step, a function of the
  operation's completion. The steps return what they ask of the socket and of lwIP as a list of calls,
  and \<open>None\<close> when an assertion fails or memory is accessed that is not there. \<open>tcp_sndbuf\<close> after a
  write is the argument \<open>sndbuf\<close>.
\<close>

subsection \<open>State\<close>

datatype TcpSessionStatus = SESSION_INIT | SESSION_HANDSHAKING | SESSION_RELAYING | SESSION_CLOSE

text \<open>The address quadruple of a \<^verbatim>\<open>tcp_pcb\<close>, which is what the session and its table read of it. A
  connected pcb keeps its quadruple, so the copy taken at construction has the values the session
  reads through \<^verbatim>\<open>original_pcb\<close>.\<close>

record tcp_key =
  local_ip :: u32
  remote_ip :: u32
  local_port :: u16
  remote_port :: u16

datatype main_pc =
    M_spawned | M_connect | M_method_write | M_method_read | M_request_write | M_request_read
  | M_flush addr | M_read

text \<open>\<open>U_write p q\<close>: writing the buffer \<open>q\<close> of the chain that starts at \<open>p\<close>.\<close>

datatype up_pc = U_spawned | U_write addr addr

datatype down_pc = D_spawned | D_read

record tcp_session =
  ts_status :: TcpSessionStatus
  ts_pcb :: nat
  ts_pcb_copy :: tcp_key
  ts_queue :: "addr list"
  ts_remote_ep :: "string \<times> u16"
  ts_recv_buff :: bytes
  ts_should_read :: bool
  ts_sending :: bool
  ts_main :: "main_pc option"
  ts_up :: "up_pc option"
  ts_down :: "down_pc option"

text \<open>\<open>Sock_write\<close> and \<open>Sock_send\<close> are both \<^verbatim>\<open>async_write\<close>: of a handshake message and of proxied data.\<close>

datatype tcp_call =
    Sock_connect | Sock_write bytes | Sock_send bytes | Sock_read_some nat | Sock_read nat | Sock_cancel
  | Lwip_recved nat | Lwip_write bytes | Lwip_output | Lwip_clear_arg

type_synonym outcome = "(tcp_session \<times> tcp_call list \<times> heap) option"

text \<open>How an operation completed: with an error, done (a write: with the number of bytes), with the bytes
  read.\<close>

datatype completion = Failed | Done nat | Received bytes

definition TCP_LOCAL_RECV_BUFF_SIZE :: nat where
  "TCP_LOCAL_RECV_BUFF_SIZE = 1500 - 60 - 4"

text \<open>The macro is not parenthesised, so \<^verbatim>\<open>2 * TCP_LOCAL_RECV_BUFF_SIZE\<close> is \<^verbatim>\<open>2 * 1500 - 60 - 4\<close>.\<close>

definition twice_TCP_LOCAL_RECV_BUFF_SIZE :: nat where
  "twice_TCP_LOCAL_RECV_BUFF_SIZE = 2 * 1500 - 60 - 4"

definition TcpSession_new :: "nat \<Rightarrow> tcp_key \<Rightarrow> (nat \<Rightarrow> u8) \<Rightarrow> tcp_session" where
  "TcpSession_new pcb key fill =
     \<lparr>ts_status = SESSION_INIT, ts_pcb = pcb, ts_pcb_copy = key, ts_queue = [], ts_remote_ep = (''0.0.0.0'', 0),
      ts_recv_buff = map fill [0..<TCP_LOCAL_RECV_BUFF_SIZE], ts_should_read = True, ts_sending = False,
      ts_main = None, ts_up = None, ts_down = None\<rparr>"

definition TcpSession_SetSocks5ServerEndpoint ::
  "(string \<Rightarrow> string option) \<Rightarrow> string \<Rightarrow> u16 \<Rightarrow> tcp_session \<Rightarrow> tcp_session option" where
  "TcpSession_SetSocks5ServerEndpoint from_string ip port s =
     do { a \<leftarrow> from_string ip; Some (s\<lparr>ts_remote_ep := (a, port)\<rparr>) }"

text \<open>The destructor frees the packets still queued.\<close>

fun TcpSession_destroy :: "addr list \<Rightarrow> heap \<Rightarrow> heap option" where
  "TcpSession_destroy [] h = Some h"
| "TcpSession_destroy (p # ps) h = do { (c, h) \<leftarrow> pbuf_free (Some p) h; TcpSession_destroy ps h }"

subsection \<open>The main coroutine\<close>

text \<open>\<^verbatim>\<open>openRemoteSocket\<close>: the three socket calls fail or not; the first failure decides.\<close>

definition openRemoteSocket :: "bool \<Rightarrow> bool \<Rightarrow> bool \<Rightarrow> bool" where
  "openRemoteSocket open_ec reuse_ec nodelay_ec =
     (if open_ec then False else if reuse_ec then False else if nodelay_ec then False else True)"

definition Start :: "bool \<Rightarrow> bool \<Rightarrow> bool \<Rightarrow> tcp_session \<Rightarrow> tcp_session" where
  "Start open_ec reuse_ec nodelay_ec s =
     (if \<not> openRemoteSocket open_ec reuse_ec nodelay_ec then s\<lparr>ts_status := SESSION_CLOSE\<rparr>
      else s\<lparr>ts_main := Some M_spawned\<rparr>)"

text \<open>The coroutine body: a step that returned false closes the session and ends the coroutine.\<close>

definition main_return_false :: "tcp_session \<Rightarrow> tcp_session" where
  "main_return_false s = s\<lparr>ts_status := SESSION_CLOSE, ts_main := None\<rparr>"

definition connectToRemote :: "tcp_session \<Rightarrow> heap \<Rightarrow> outcome" where
  "connectToRemote s h = Some (s\<lparr>ts_main := Some M_connect\<rparr>, [Sock_connect], h)"

definition handleMethodSelection :: "tcp_session \<Rightarrow> heap \<Rightarrow> outcome" where
  "handleMethodSelection s h =
     Some (s\<lparr>ts_status := SESSION_HANDSHAKING, ts_main := Some M_method_write\<rparr>, [Sock_write DEFAULT_METHOD_REQUEST], h)"

definition handleSocks5Request :: "tcp_session \<Rightarrow> heap \<Rightarrow> outcome" where
  "handleSocks5Request s h =
     do {
       buf \<leftarrow> ConstructSocks5RequestFromIpStringAndPort (ts_recv_buff s)
               (inet_ntoa (local_ip (ts_pcb_copy s))) (local_port (ts_pcb_copy s));
       Some (s\<lparr>ts_recv_buff := buf, ts_main := Some M_request_write\<rparr>, [Sock_write (take 10 buf)], h)
     }"

text \<open>The loop over the packets that arrived during the handshake, from its test on; then the first
  read of the downstream loop.\<close>

definition flush_next :: "tcp_session \<Rightarrow> heap \<Rightarrow> outcome" where
  "flush_next s h =
     (case ts_queue s of
        [] \<Rightarrow> Some (s\<lparr>ts_main := Some M_read\<rparr>, [Sock_read_some TCP_LOCAL_RECV_BUFF_SIZE], h)
      | front # rest \<Rightarrow>
          do {
            b \<leftarrow> h_pbuf h front;
            if p_len b \<noteq> p_tot_len b then None
            else do {
              bs \<leftarrow> mem_read h (p_payload b) 0 (unat (p_tot_len b));
              Some (s\<lparr>ts_queue := rest, ts_main := Some (M_flush front)\<rparr>, [Sock_send bs], h)
            }
          })"

definition flush_written :: "addr \<Rightarrow> nat \<Rightarrow> tcp_session \<Rightarrow> heap \<Rightarrow> outcome" where
  "flush_written front bytes_write s h =
     do {
       (c, h) \<leftarrow> pbuf_free (Some front) h;
       if ts_status s = SESSION_CLOSE then Some (main_return_false s, [], h)
       else do {
         (s, calls, h) \<leftarrow> flush_next s h;
         Some (s, Lwip_recved bytes_write # calls, h)
       }
     }"

definition handleRemoteRead :: "tcp_session \<Rightarrow> heap \<Rightarrow> outcome" where
  "handleRemoteRead s h = flush_next (s\<lparr>ts_status := SESSION_RELAYING\<rparr>) h"

text \<open>One completed read of the downstream loop; the loop is left when lwIP's send buffer runs short,
  and then, too, the function returns false.\<close>

definition main_read :: "u16 \<Rightarrow> bytes \<Rightarrow> tcp_session \<Rightarrow> heap \<Rightarrow> outcome" where
  "main_read sndbuf bs s h =
     (let s = s\<lparr>ts_recv_buff := overwrite 0 bs (ts_recv_buff s)\<rparr> in
      if ts_status s = SESSION_CLOSE then Some (main_return_false s, [], h)
      else if unat sndbuf < twice_TCP_LOCAL_RECV_BUFF_SIZE
      then Some (main_return_false (s\<lparr>ts_should_read := False\<rparr>), [Lwip_write bs, Lwip_output], h)
      else Some (s, [Lwip_write bs, Lwip_output, Sock_read_some TCP_LOCAL_RECV_BUFF_SIZE], h))"

text \<open>Resuming the main coroutine. A completion that does not fit the pending operation is refused:
  a write completes with the number of bytes written, a read with at most what it asked for.\<close>

definition main_resume :: "completion \<Rightarrow> u16 \<Rightarrow> tcp_session \<Rightarrow> heap \<Rightarrow> outcome" where
  "main_resume c sndbuf s h =
     (case ts_main s of
        None \<Rightarrow> None
      | Some M_spawned \<Rightarrow> connectToRemote s h
      | Some pc \<Rightarrow>
          (if c = Failed then Some (main_return_false s, [], h)
           else case (pc, c) of
             (M_connect, Done n) \<Rightarrow> handleMethodSelection s h
           | (M_method_write, Done n) \<Rightarrow> Some (s\<lparr>ts_main := Some M_method_read\<rparr>, [Sock_read_some 2], h)
           | (M_method_read, Received bs) \<Rightarrow>
               (if length bs \<in> {1..2}
                then handleSocks5Request (s\<lparr>ts_recv_buff := overwrite 0 bs (ts_recv_buff s)\<rparr>) h else None)
           | (M_request_write, Done n) \<Rightarrow> Some (s\<lparr>ts_main := Some M_request_read\<rparr>, [Sock_read 10], h)
           | (M_request_read, Received bs) \<Rightarrow>
               (if length bs = 10
                then (let s = s\<lparr>ts_recv_buff := overwrite 0 bs (ts_recv_buff s)\<rparr> in
                      if le32 (bs ! 0) (bs ! 1) (bs ! 2) (bs ! 3) \<noteq> 16777221 then Some (main_return_false s, [], h)
                      else handleRemoteRead s h)
                else None)
           | (M_flush front, Done n) \<Rightarrow> flush_written front n s h
           | (M_read, Received bs) \<Rightarrow>
               (if length bs \<in> {1..TCP_LOCAL_RECV_BUFF_SIZE} then main_read sndbuf bs s h else None)
           | _ \<Rightarrow> None))"

subsection \<open>Upstream\<close>

definition up_write :: "addr \<Rightarrow> addr \<Rightarrow> tcp_session \<Rightarrow> heap \<Rightarrow> outcome" where
  "up_write front q s h =
     do {
       b \<leftarrow> h_pbuf h q;
       bs \<leftarrow> mem_read h (p_payload b) 0 (unat (p_len b));
       Some (s\<lparr>ts_up := Some (U_write front q)\<rparr>, [Sock_send bs], h)
     }"

text \<open>The outer loop of the upstream coroutine, from its test on.\<close>

definition up_next :: "tcp_session \<Rightarrow> heap \<Rightarrow> outcome" where
  "up_next s h =
     (case ts_queue s of
        [] \<Rightarrow> Some (s\<lparr>ts_sending := False, ts_up := None\<rparr>, [], h)
      | front # rest \<Rightarrow> up_write front front (s\<lparr>ts_queue := rest\<rparr>) h)"

definition up_written :: "addr \<Rightarrow> addr \<Rightarrow> nat \<Rightarrow> tcp_session \<Rightarrow> heap \<Rightarrow> outcome" where
  "up_written front_for_free front bytes_send s h =
     (if ts_status s = SESSION_CLOSE then Some (s\<lparr>ts_up := None\<rparr>, [], h)
      else do {
        b \<leftarrow> h_pbuf h front;
        (s, calls, h) \<leftarrow>
          (case p_next b of
             Some q \<Rightarrow> up_write front_for_free q s h
           | None \<Rightarrow> do { (c, h) \<leftarrow> pbuf_free (Some front_for_free) h; up_next s h });
        Some (s, Lwip_recved bytes_send # calls, h)
      })"

definition up_resume :: "completion \<Rightarrow> tcp_session \<Rightarrow> heap \<Rightarrow> outcome" where
  "up_resume c s h =
     (case ts_up s of
        None \<Rightarrow> None
      | Some U_spawned \<Rightarrow> up_next s h
      | Some (U_write front_for_free front) \<Rightarrow>
          (case c of
             Failed \<Rightarrow> Some (s\<lparr>ts_status := SESSION_CLOSE, ts_up := None\<rparr>, [], h)
           | Done n \<Rightarrow> up_written front_for_free front n s h
           | Received bs \<Rightarrow> None))"

definition EnqueuePacket :: "addr \<Rightarrow> tcp_session \<Rightarrow> tcp_session" where
  "EnqueuePacket p s = s\<lparr>ts_queue := ts_queue s @ [p]\<rparr>"

definition ProxyTcpPacket :: "addr \<Rightarrow> tcp_session \<Rightarrow> tcp_session" where
  "ProxyTcpPacket p s =
     (let s = EnqueuePacket p s in
      if ts_status s \<noteq> SESSION_RELAYING then s
      else if ts_sending s then s
      else s\<lparr>ts_sending := True, ts_up := Some U_spawned\<rparr>)"

text \<open>The completion handler of an earlier upstream path, which is still in the class.\<close>

definition handlerOnRemoteSend :: "bool \<Rightarrow> nat \<Rightarrow> addr \<Rightarrow> tcp_session \<Rightarrow> heap \<Rightarrow> outcome" where
  "handlerOnRemoteSend ec n p s h =
     (if ec then Some (s\<lparr>ts_status := SESSION_CLOSE\<rparr>, [], h)
      else if ts_status s = SESSION_CLOSE then Some (s, [], h)
      else do { (c, h) \<leftarrow> pbuf_free (Some p) h; Some (s, [Lwip_recved n], h) })"

subsection \<open>Downstream\<close>

definition IsRemoteReadable :: "u16 \<Rightarrow> bool" where
  "IsRemoteReadable sndbuf = (unat sndbuf > twice_TCP_LOCAL_RECV_BUFF_SIZE)"

definition ReadFromRemote :: "tcp_session \<Rightarrow> tcp_session" where
  "ReadFromRemote s =
     (if ts_should_read s then s else s\<lparr>ts_should_read := True, ts_down := Some D_spawned\<rparr>)"

definition down_resume :: "completion \<Rightarrow> u16 \<Rightarrow> tcp_session \<Rightarrow> heap \<Rightarrow> outcome" where
  "down_resume c sndbuf s h =
     (case (ts_down s, c) of
        (None, _) \<Rightarrow> None
      | (Some D_spawned, _) \<Rightarrow> Some (s\<lparr>ts_down := Some D_read\<rparr>, [Sock_read_some TCP_LOCAL_RECV_BUFF_SIZE], h)
      | (Some D_read, Failed) \<Rightarrow> Some (s\<lparr>ts_down := None\<rparr>, [], h)
      | (Some D_read, Done n) \<Rightarrow> None
      | (Some D_read, Received bs) \<Rightarrow>
          (if length bs \<notin> {1..TCP_LOCAL_RECV_BUFF_SIZE} then None
           else
             (let s = s\<lparr>ts_recv_buff := overwrite 0 bs (ts_recv_buff s)\<rparr> in
              if ts_status s = SESSION_CLOSE then Some (s\<lparr>ts_down := None\<rparr>, [], h)
              else if unat sndbuf < twice_TCP_LOCAL_RECV_BUFF_SIZE
              then Some (s\<lparr>ts_should_read := False, ts_down := None\<rparr>, [Lwip_write bs, Lwip_output], h)
              else Some (s, [Lwip_write bs, Lwip_output, Sock_read_some TCP_LOCAL_RECV_BUFF_SIZE], h))))"

subsection \<open>Stop\<close>

definition Stop :: "tcp_session \<Rightarrow> tcp_session \<times> tcp_call list" where
  "Stop s =
     (if ts_status s = SESSION_CLOSE then (s, [])
      else (s\<lparr>ts_status := SESSION_CLOSE\<rparr>, [Sock_cancel, Lwip_clear_arg]))"

subsection \<open>Events and runs\<close>

datatype session_event =
  Resume_main completion u16 | Resume_up completion | Resume_down completion u16 | Packet addr | Ack u16 | Stopped

text \<open>What can happen to a session: a coroutine resumes, \<^verbatim>\<open>TcpHandler::Handle\<close> passes a packet (only while
  the session is not closed), lwIP's sent callback runs, \<^verbatim>\<open>TcpHandler::Clear\<close> stops it.\<close>

fun session_step :: "session_event \<Rightarrow> tcp_session \<Rightarrow> heap \<Rightarrow> outcome" where
  "session_step (Resume_main c sndbuf) s h = main_resume c sndbuf s h"
| "session_step (Resume_up c) s h = up_resume c s h"
| "session_step (Resume_down c sndbuf) s h = down_resume c sndbuf s h"
| "session_step (Packet p) s h = (if ts_status s = SESSION_CLOSE then None else Some (ProxyTcpPacket p s, [], h))"
| "session_step (Ack sndbuf) s h = Some (if IsRemoteReadable sndbuf then ReadFromRemote s else s, [], h)"
| "session_step Stopped s h = (let (s, calls) = Stop s in Some (s, calls, h))"

text \<open>The packets a session holds: being written by the main and by the upstream coroutine, and queued.\<close>

definition flushing :: "tcp_session \<Rightarrow> addr list" where
  "flushing s = (case ts_main s of Some (M_flush p) \<Rightarrow> [p] | _ \<Rightarrow> [])"

definition uploading :: "tcp_session \<Rightarrow> addr list" where
  "uploading s = (case ts_up s of Some (U_write p q) \<Rightarrow> [p] | _ \<Rightarrow> [])"

definition session_pbufs :: "tcp_session \<Rightarrow> addr list" where
  "session_pbufs s = flushing s @ uploading s @ ts_queue s"

text \<open>A packet as lwIP hands it over: one pbuf that nobody else references, with its own memory.\<close>

definition packet_ok :: "heap \<Rightarrow> addr \<Rightarrow> bool" where
  "packet_ok h p = (pchain h (Some p) [p] \<and> block h p = Some p \<and> all_freeable h [p] \<and> ref_of h p = 1)"

text \<open>Runs from a state: the bytes handed over and the calls made so far are recorded. Between the steps
  of the session the rest of the program may change the heap, but not the session's packets.\<close>

inductive tcp_run :: "tcp_session \<Rightarrow> heap \<Rightarrow> tcp_session \<Rightarrow> heap \<Rightarrow> bytes \<Rightarrow> tcp_call list \<Rightarrow> bool"
  for s0 h0 where
  run_init: "tcp_run s0 h0 s0 h0 [] []"
| run_step: "tcp_run s0 h0 s h inp calls \<Longrightarrow> (\<And>p. e \<noteq> Packet p) \<Longrightarrow> session_step e s h = Some (s', cs, h') \<Longrightarrow>
     tcp_run s0 h0 s' h' inp (calls @ cs)"
| run_packet: "tcp_run s0 h0 s h inp calls \<Longrightarrow> packet_ok h p \<Longrightarrow> p \<notin> set (session_pbufs s) \<Longrightarrow>
     session_step (Packet p) s h = Some (s', cs, h') \<Longrightarrow> tcp_run s0 h0 s' h' (inp @ adata h p) (calls @ cs)"
| run_heap: "tcp_run s0 h0 s h inp calls \<Longrightarrow> heap_ok h' \<Longrightarrow> same_on (session_pbufs s) h h' \<Longrightarrow>
     tcp_run s0 h0 s h' inp calls"

inductive_cases tcp_runE: "tcp_run s0 h0 s h inp calls"

definition tcp_started :: "nat \<Rightarrow> tcp_key \<Rightarrow> string \<times> u16 \<Rightarrow> (nat \<Rightarrow> u8) \<Rightarrow> tcp_session" where
  "tcp_started pcb key ep fill = Start False False False ((TcpSession_new pcb key fill)\<lparr>ts_remote_ep := ep\<rparr>)"

text \<open>The calls a session makes on its pcb, and the data it gives to the socket.\<close>

fun lwip_call :: "tcp_call \<Rightarrow> bool" where
  "lwip_call (Lwip_recved n) = True"
| "lwip_call (Lwip_write bs) = True"
| "lwip_call Lwip_output = True"
| "lwip_call Lwip_clear_arg = True"
| "lwip_call _ = False"

fun sent_bytes :: "tcp_call list \<Rightarrow> bytes" where
  "sent_bytes [] = []"
| "sent_bytes (Sock_send bs # cs) = bs @ sent_bytes cs"
| "sent_bytes (_ # cs) = sent_bytes cs"

lemma sent_bytes_append [simp]: "sent_bytes (xs @ ys) = sent_bytes xs @ sent_bytes ys"
  by (induction xs rule: sent_bytes.induct) simp_all

subsection \<open>Packets\<close>

lemma packet_free:
  assumes "heap_ok h" "packet_ok h p"
  shows "pbuf_free (Some p) h = Some (1, mem_free p h)"
proof -
  obtain b where b: "h_pbuf h p = Some b" "p_ref b = 1"
    using assms(2) by (auto simp: packet_ok_def ref_of_def split: option.splits)
  then have "released h [p] = [p]" "release [p] h = mem_free p h" by (simp_all add: released_def ref_of_def)
  then show ?thesis using pbuf_free_chain [OF assms(1), of "Some p" "[p]"] assms(2) by (simp add: packet_ok_def)
qed

lemma packet_ok_same_on:
  assumes "same_on [p] h h'" "packet_ok h p"
  shows "packet_ok h' p" "adata h' p = adata h p"
proof -
  have "h_pbuf h' p = h_pbuf h p" using assms(1) by (simp add: same_on_def)
  then show "packet_ok h' p"
    using assms pchain_same_on [of h "Some p" "[p]" h'] by (simp add: packet_ok_def block_def all_freeable_def ref_of_def)
  show "adata h' p = adata h p" using adata_same_on [OF assms(1)] by simp
qed

lemma same_on_mem_free: "packet_ok h x \<Longrightarrow> x \<noteq> p \<Longrightarrow> same_on [x] h (mem_free p h)"
  by (simp add: same_on_def packet_ok_def)

lemma heap_ok_mem_free: "heap_ok h \<Longrightarrow> heap_ok (mem_free p h)"
  by (auto simp: heap_ok_def)

lemma packet_read:
  assumes "packet_ok h p" "h_pbuf h p = Some b"
  shows "p_tot_len b = p_len b" "mem_read h (p_payload b) 0 (unat (p_len b)) = Some (adata h p)" "p_next b = None"
proof -
  have "pchain h (Some p) [p]" using assms(1) by (simp add: packet_ok_def)
  then obtain c where c: "Some p = Some p" "h_pbuf h p = Some c" "pay_ok h c" "pchain h (p_next c) []"
    "unat (p_tot_len c) = unat (p_len c) + length (cdata h [])" "adata h p = pdata h c" "length (pdata h c) = unat (p_len c)"
    by (rule pchain_ConsE)
  have bc: "c = b" using c(2) assms(2) by simp
  show "p_tot_len b = p_len b" using c(5) bc by (simp add: word_unat_eq_iff)
  show "p_next b = None" using c(4) bc by simp
  show "mem_read h (p_payload b) 0 (unat (p_len b)) = Some (adata h p)"
    using mem_read_pdata [OF c(3), of 0 "unat (p_len c)"] c(6,7) bc by (simp add: slice_def)
qed

lemma packet_live: "packet_ok h p \<Longrightarrow> \<exists>b. h_pbuf h p = Some b"
  by (auto simp: packet_ok_def split: option.splits)

definition session_ok :: "tcp_session \<Rightarrow> heap \<Rightarrow> bool" where
  "session_ok s h = (heap_ok h \<and> distinct (session_pbufs s) \<and> list_all (packet_ok h) (session_pbufs s) \<and>
     (\<forall>p q. ts_up s = Some (U_write p q) \<longrightarrow> q = p))"

lemmas pbufs_defs = session_pbufs_def flushing_def uploading_def

lemma session_ok_free:
  assumes "heap_ok h" "packet_ok h p" "p \<notin> set (session_pbufs s)" "session_ok s h"
  shows "session_ok s (mem_free p h)" "cdata (mem_free p h) (ts_queue s) = cdata h (ts_queue s)"
proof -
  have ok: "packet_ok (mem_free p h) x \<and> adata (mem_free p h) x = adata h x" if "x \<in> set (session_pbufs s)" for x
  proof -
    have "packet_ok h x" "x \<noteq> p" using that assms(3,4) by (auto simp: session_ok_def list_all_iff)
    then show ?thesis using packet_ok_same_on [OF same_on_mem_free] by blast
  qed
  then show "session_ok s (mem_free p h)"
    using assms(4) heap_ok_mem_free by (auto simp: session_ok_def list_all_iff)
  have "set (ts_queue s) \<subseteq> set (session_pbufs s)" by (auto simp: session_pbufs_def)
  then show "cdata (mem_free p h) (ts_queue s) = cdata h (ts_queue s)"
    using ok by (auto simp: cdata_def intro!: arg_cong [where f = concat] map_cong)
qed

lemma flush_next_ok:
  assumes "session_ok (s\<lparr>ts_main := None\<rparr>) h"
  obtains s' cs where "flush_next s h = Some (s', cs, h)" "session_ok s' h"
    "cdata h (ts_queue s) = sent_bytes cs @ cdata h (ts_queue s')" "\<not> list_ex lwip_call cs"
    "ts_status s' = ts_status s" "ts_up s' = ts_up s" "ts_down s' = ts_down s" "ts_should_read s' = ts_should_read s"
    "ts_sending s' = ts_sending s" "ts_main s' \<noteq> None" "ts_main s' \<noteq> Some M_connect \<and> ts_main s' \<noteq> Some M_request_read"
proof (cases "ts_queue s")
  case Nil
  show thesis
    by (rule that [of "s\<lparr>ts_main := Some M_read\<rparr>" "[Sock_read_some TCP_LOCAL_RECV_BUFF_SIZE]"])
       (use Nil assms in \<open>simp_all add: flush_next_def session_ok_def pbufs_defs\<close>)
next
  case (Cons p ps)
  then have p: "packet_ok h p" using assms by (simp add: session_ok_def session_pbufs_def)
  then obtain b where b: "h_pbuf h p = Some b" using packet_live by blast
  note r = packet_read [OF p b]
  show thesis
    by (rule that [of "s\<lparr>ts_queue := ps, ts_main := Some (M_flush p)\<rparr>" "[Sock_send (adata h p)]"])
       (use Cons b r assms in \<open>auto simp: flush_next_def session_ok_def pbufs_defs split: option.splits\<close>)
qed

lemma up_next_ok:
  assumes "session_ok (s\<lparr>ts_up := None\<rparr>) h"
  obtains s' cs where "up_next s h = Some (s', cs, h)" "session_ok s' h"
    "cdata h (ts_queue s) = sent_bytes cs @ cdata h (ts_queue s')" "\<not> list_ex lwip_call cs"
    "ts_status s' = ts_status s" "ts_main s' = ts_main s" "ts_down s' = ts_down s" "ts_should_read s' = ts_should_read s"
    "(ts_up s' = None \<and> \<not> ts_sending s' \<and> ts_queue s = []) \<or>
     (\<exists>p. ts_up s' = Some (U_write p p) \<and> ts_sending s' = ts_sending s \<and> ts_queue s = p # ts_queue s')"
proof (cases "ts_queue s")
  case Nil
  show thesis
    by (rule that [of "s\<lparr>ts_sending := False, ts_up := None\<rparr>" "[]"])
       (use Nil assms in \<open>simp_all add: up_next_def session_ok_def pbufs_defs\<close>)
next
  case (Cons p ps)
  then have p: "packet_ok h p" using assms by (simp add: session_ok_def session_pbufs_def)
  then obtain b where b: "h_pbuf h p = Some b" using packet_live by blast
  note r = packet_read [OF p b]
  show thesis
    by (rule that [of "s\<lparr>ts_queue := ps, ts_up := Some (U_write p p)\<rparr>" "[Sock_send (adata h p)]"])
       (use Cons b r assms in \<open>auto simp: up_next_def up_write_def session_ok_def pbufs_defs split: option.splits\<close>)
qed

text \<open>The coroutines never read from the socket at the same time, and an upstream coroutine has the
  sending flag.\<close>

definition coroutines_ok :: "tcp_session \<Rightarrow> bool" where
  "coroutines_ok s = ((ts_down s \<noteq> None \<longrightarrow> ts_should_read s \<and> ts_main s = None) \<and>
     (\<not> ts_should_read s \<longrightarrow> ts_main s = None) \<and> (ts_up s \<noteq> None \<longrightarrow> ts_sending s))"

definition handshaking :: "tcp_session \<Rightarrow> bool" where
  "handshaking s = (case ts_main s of
     None \<Rightarrow> False | Some M_read \<Rightarrow> False | Some (M_flush p) \<Rightarrow> False | Some _ \<Rightarrow> True)"

text \<open>What every step keeps.\<close>

definition step_ok :: "tcp_session \<Rightarrow> heap \<Rightarrow> tcp_session \<Rightarrow> tcp_call list \<Rightarrow> heap \<Rightarrow> bool" where
  "step_ok s h s' cs h' =
     (session_ok s' h' \<and> cdata h (ts_queue s) = sent_bytes cs @ cdata h' (ts_queue s') \<and>
      (list_ex lwip_call cs \<longrightarrow> ts_status s \<noteq> SESSION_CLOSE) \<and> (coroutines_ok s \<longrightarrow> coroutines_ok s') \<and>
      (ts_status s = SESSION_CLOSE \<and> \<not> handshaking s \<longrightarrow> ts_status s' = SESSION_CLOSE \<and> \<not> handshaking s'))"

lemmas step_defs = step_ok_def session_ok_def pbufs_defs coroutines_ok_def handshaking_def

lemma flush_written_ok:
  assumes ok: "session_ok s h" and pc: "ts_main s = Some (M_flush p)" and st: "flush_written p n s h = Some (s', cs, h')"
  shows "step_ok s h s' cs h'"
proof -
  have p: "heap_ok h" "packet_ok h p" "p \<notin> set (session_pbufs (s\<lparr>ts_main := None\<rparr>))" "session_ok (s\<lparr>ts_main := None\<rparr>) h"
    using ok pc by (auto simp: session_ok_def pbufs_defs)
  note free = packet_free [OF p(1,2)] session_ok_free [OF p]
  show ?thesis
  proof (cases "ts_status s = SESSION_CLOSE")
    case True
    then have "s' = main_return_false s" "cs = []" "h' = mem_free p h"
      using st free(1) by (simp_all add: flush_written_def)
    then show ?thesis
      using free(2,3) True by (auto simp: main_return_false_def step_defs)
  next
    case False
    obtain s1 cs1 where n: "flush_next s (mem_free p h) = Some (s1, cs1, mem_free p h)" "session_ok s1 (mem_free p h)"
      "cdata (mem_free p h) (ts_queue s) = sent_bytes cs1 @ cdata (mem_free p h) (ts_queue s1)"
      "ts_status s1 = ts_status s" "ts_up s1 = ts_up s" "ts_down s1 = ts_down s" "ts_should_read s1 = ts_should_read s"
      "ts_sending s1 = ts_sending s"
      using free(2) by (rule flush_next_ok)
    then have "s' = s1" "cs = Lwip_recved n # cs1" "h' = mem_free p h"
      using st free(1) False by (simp_all add: flush_written_def)
    then show ?thesis
      using n free(3) False pc by (simp add: step_ok_def coroutines_ok_def)
  qed
qed

lemma up_written_ok:
  assumes ok: "session_ok s h" and pc: "ts_up s = Some (U_write p q)" and st: "up_written p q n s h = Some (s', cs, h')"
  shows "step_ok s h s' cs h'"
proof -
  have q: "q = p" using ok pc by (simp add: session_ok_def)
  have p: "heap_ok h" "packet_ok h p" "p \<notin> set (session_pbufs (s\<lparr>ts_up := None\<rparr>))" "session_ok (s\<lparr>ts_up := None\<rparr>) h"
    using ok pc by (auto simp: session_ok_def pbufs_defs)
  note free = packet_free [OF p(1,2)] session_ok_free [OF p]
  obtain b where b: "h_pbuf h p = Some b" using p(2) packet_live by blast
  note r = packet_read [OF p(2) b]
  show ?thesis
  proof (cases "ts_status s = SESSION_CLOSE")
    case True
    then have "s' = s\<lparr>ts_up := None\<rparr>" "cs = []" "h' = h" using st by (simp_all add: up_written_def)
    then show ?thesis using p(4) True by (auto simp: step_defs)
  next
    case False
    obtain s1 cs1 where n: "up_next s (mem_free p h) = Some (s1, cs1, mem_free p h)" "session_ok s1 (mem_free p h)"
      "cdata (mem_free p h) (ts_queue s) = sent_bytes cs1 @ cdata (mem_free p h) (ts_queue s1)"
      "ts_status s1 = ts_status s" "ts_main s1 = ts_main s" "ts_down s1 = ts_down s" "ts_should_read s1 = ts_should_read s"
      "(ts_up s1 = None \<and> \<not> ts_sending s1 \<and> ts_queue s = []) \<or>
       (\<exists>p. ts_up s1 = Some (U_write p p) \<and> ts_sending s1 = ts_sending s \<and> ts_queue s = p # ts_queue s1)"
      using free(2) by (rule up_next_ok)
    then have "s' = s1" "cs = Lwip_recved n # cs1" "h' = mem_free p h"
      using st free(1) False b r q by (simp_all add: up_written_def)
    then show ?thesis
      using n free(3) False pc by (auto simp: step_ok_def coroutines_ok_def)
  qed
qed

lemma step_ok_simple:
  assumes "session_ok s h" "ts_up s' = ts_up s" "ts_queue s' = ts_queue s" "flushing s' = [] \<or> flushing s' = flushing s"
    and "sent_bytes cs = []" "list_ex lwip_call cs \<Longrightarrow> ts_status s \<noteq> SESSION_CLOSE" "coroutines_ok s \<Longrightarrow> coroutines_ok s'"
    and "ts_status s = SESSION_CLOSE \<Longrightarrow> \<not> handshaking s \<Longrightarrow> ts_status s' = SESSION_CLOSE \<and> \<not> handshaking s'"
  shows "step_ok s h s' cs h"
  using assms by (auto simp: step_ok_def session_ok_def session_pbufs_def uploading_def)

lemma main_resume_ok:
  assumes ok: "session_ok s h" and st: "main_resume c sndbuf s h = Some (s', cs, h')"
  shows "step_ok s h s' cs h'"
proof -
  have relay: "step_ok s h s' cs h'" if "handleRemoteRead (s\<lparr>ts_recv_buff := buf\<rparr>) h = Some (s', cs, h')" "ts_main s = Some M_request_read" for buf
  proof -
    let ?s = "s\<lparr>ts_recv_buff := buf, ts_status := SESSION_RELAYING\<rparr>"
    have "session_ok (?s\<lparr>ts_main := None\<rparr>) h" using ok by (auto simp: session_ok_def pbufs_defs)
    then obtain s1 cs1 where "flush_next ?s h = Some (s1, cs1, h)" "session_ok s1 h"
      "cdata h (ts_queue ?s) = sent_bytes cs1 @ cdata h (ts_queue s1)" "\<not> list_ex lwip_call cs1"
      "ts_up s1 = ts_up ?s" "ts_down s1 = ts_down ?s" "ts_should_read s1 = ts_should_read ?s" "ts_sending s1 = ts_sending ?s"
      by (rule flush_next_ok)
    then show ?thesis using that by (auto simp: handleRemoteRead_def step_ok_def coroutines_ok_def handshaking_def)
  qed
  have flush: "step_ok s h s' cs h'" if "flush_written p n s h = Some (s', cs, h')" "ts_main s = Some (M_flush p)" for p n
    using flush_written_ok [OF ok that(2,1)] .
  obtain pc where pc: "ts_main s = Some pc" using st by (cases "ts_main s") (auto simp: main_resume_def)
  show ?thesis
  proof (cases "pc = M_spawned \<or> c = Failed")
    case True
    then have "s' \<in> {main_return_false s, s\<lparr>ts_main := Some M_connect\<rparr>}" "h' = h" "sent_bytes cs = []" "\<not> list_ex lwip_call cs"
        "s' = main_return_false s \<or> handshaking s"
      using st pc by (auto simp: main_resume_def connectToRemote_def handshaking_def split: main_pc.splits)
    then show ?thesis
      using pc ok by (auto intro!: step_ok_simple simp: main_return_false_def flushing_def coroutines_ok_def handshaking_def)
  next
    case False
    then show ?thesis
      using st pc relay flush ok
      by (cases pc; cases c)
         (auto simp: main_resume_def main_return_false_def handleMethodSelection_def handleSocks5Request_def
            main_read_def Let_def flushing_def coroutines_ok_def handshaking_def intro!: step_ok_simple
            split: if_splits bind_splits)
  qed
qed

lemma up_resume_ok:
  assumes ok: "session_ok s h" and st: "up_resume c s h = Some (s', cs, h')"
  shows "step_ok s h s' cs h'"
proof (cases "ts_up s")
  case (Some pc)
  show ?thesis
  proof (cases pc)
    case U_spawned
    have "session_ok (s\<lparr>ts_up := None\<rparr>) h" using ok Some U_spawned by (simp add: session_ok_def pbufs_defs)
    then show ?thesis
      by (rule up_next_ok) (use st Some U_spawned in \<open>auto simp: up_resume_def step_ok_def coroutines_ok_def handshaking_def\<close>)
  next
    case (U_write p q)
    have close: "session_ok (s\<lparr>ts_status := SESSION_CLOSE, ts_up := None\<rparr>) h"
      using ok Some U_write by (simp add: session_ok_def pbufs_defs)
    show ?thesis
      using st Some U_write up_written_ok [OF ok, of p q] close
      by (cases c) (auto simp: up_resume_def step_ok_def coroutines_ok_def handshaking_def)
  qed
qed (use st in \<open>simp add: up_resume_def\<close>)

lemma down_resume_ok:
  assumes ok: "session_ok s h" and st: "down_resume c sndbuf s h = Some (s', cs, h')"
  shows "step_ok s h s' cs h'"
  using st ok
  by (cases "ts_down s"; cases "the (ts_down s)"; cases c)
     (auto simp: down_resume_def Let_def flushing_def coroutines_ok_def handshaking_def intro!: step_ok_simple
       split: if_splits)

lemma session_step_ok:
  assumes ok: "session_ok s h" and st: "session_step e s h = Some (s', cs, h')" and np: "\<And>p. e \<noteq> Packet p"
  shows "step_ok s h s' cs h'"
proof (cases e)
  case (Ack sndbuf)
  then show ?thesis
    using st ok by (cases "IsRemoteReadable sndbuf"; cases "ts_should_read s")
      (auto simp: ReadFromRemote_def flushing_def coroutines_ok_def handshaking_def intro!: step_ok_simple)
next
  case Stopped
  then show ?thesis
    using st ok by (auto simp: Stop_def flushing_def coroutines_ok_def handshaking_def intro!: step_ok_simple split: if_splits)
qed (use st np main_resume_ok [OF ok] up_resume_ok [OF ok] down_resume_ok [OF ok] in auto)

lemma packet_step_ok:
  assumes ok: "session_ok s h" and p: "packet_ok h p" "p \<notin> set (session_pbufs s)"
    and st: "session_step (Packet p) s h = Some (s', cs, h')"
  shows "session_ok s' h' \<and> cs = [] \<and> cdata h' (ts_queue s') = cdata h (ts_queue s) @ adata h p \<and> h' = h \<and>
    (coroutines_ok s \<longrightarrow> coroutines_ok s') \<and> ts_status s' \<noteq> SESSION_CLOSE \<and> ts_status s \<noteq> SESSION_CLOSE"
proof -
  have eq: "s' = ProxyTcpPacket p s" "cs = []" "h' = h" "ts_status s \<noteq> SESSION_CLOSE"
    using st by (auto split: if_splits)
  have q: "ts_queue s' = ts_queue s @ [p]" "flushing s' = flushing s" "ts_main s' = ts_main s" "ts_status s' = ts_status s"
    "ts_down s' = ts_down s" "ts_should_read s' = ts_should_read s"
    "ts_up s' = ts_up s \<and> ts_sending s' = ts_sending s \<or> ts_up s' = Some U_spawned \<and> ts_sending s'"
    by (auto simp: eq(1) ProxyTcpPacket_def EnqueuePacket_def Let_def flushing_def)
  then have "uploading s' = uploading s \<or> uploading s' = []" by (auto simp: uploading_def)
  then have "session_ok s' h"
    using ok p q by (auto simp: session_ok_def session_pbufs_def)
  then show ?thesis using eq q by (auto simp: coroutines_ok_def)
qed

subsection \<open>Runs keep the invariants\<close>

lemma tcp_run_ok:
  assumes "tcp_run s0 h0 s h inp calls" "session_ok s0 h0"
  shows "session_ok s h \<and> cdata h0 (ts_queue s0) @ inp = sent_bytes calls @ cdata h (ts_queue s) \<and>
    (coroutines_ok s0 \<longrightarrow> coroutines_ok s) \<and>
    (ts_status s0 = SESSION_CLOSE \<and> \<not> handshaking s0 \<longrightarrow>
       ts_status s = SESSION_CLOSE \<and> \<not> handshaking s \<and> \<not> list_ex lwip_call calls)"
  using assms
proof (induction rule: tcp_run.induct)
  case (run_step s h inp calls e s' cs h')
  then have "step_ok s h s' cs h'" using session_step_ok by blast
  with run_step show ?case by (auto simp: step_ok_def)
next
  case (run_packet s h inp calls p s' cs h')
  from packet_step_ok [OF _ run_packet.hyps(2,3,4)] run_packet show ?case by auto
next
  case (run_heap s h inp calls h')
  have ok: "session_ok s h" using run_heap.IH run_heap.prems by blast
  have same: "packet_ok h' x \<and> adata h' x = adata h x" if x: "x \<in> set (session_pbufs s)" for x
  proof -
    have "same_on [x] h h'" using run_heap.hyps(3) x by (simp add: same_on_def)
    moreover have "packet_ok h x" using ok x by (simp add: session_ok_def list_all_iff)
    ultimately show ?thesis using packet_ok_same_on by blast
  qed
  then have "cdata h' (ts_queue s) = cdata h (ts_queue s)"
    unfolding cdata_def by (intro arg_cong [where f = concat] map_cong) (simp_all add: session_pbufs_def)
  moreover have "session_ok s h'"
    using ok same run_heap.hyps(2) unfolding session_ok_def list_all_iff by blast
  ultimately show ?case using run_heap.IH run_heap.prems by simp
qed simp_all

lemma tcp_started_ok: "heap_ok h \<Longrightarrow> session_ok (tcp_started pcb key ep fill) h"
  "coroutines_ok (tcp_started pcb key ep fill)" "ts_queue (tcp_started pcb key ep fill) = []"
  by (simp_all add: tcp_started_def Start_def openRemoteSocket_def TcpSession_new_def session_ok_def pbufs_defs coroutines_ok_def)

text \<open>A scheduler that executes a list of events.\<close>

fun session_exec :: "session_event list \<Rightarrow> tcp_session \<Rightarrow> heap \<Rightarrow> outcome" where
  "session_exec [] s h = Some (s, [], h)"
| "session_exec (e # es) s h =
     (if (case e of Packet p \<Rightarrow> packet_ok h p \<and> p \<notin> set (session_pbufs s) | _ \<Rightarrow> True)
      then do { (s, cs, h) \<leftarrow> session_step e s h; (s, cs', h) \<leftarrow> session_exec es s h; Some (s, cs @ cs', h) }
      else None)"

lemma session_exec_run:
  "session_exec es s h = Some (s', cs, h') \<Longrightarrow> tcp_run s0 h0 s h inp calls \<Longrightarrow> \<exists>inp'. tcp_run s0 h0 s' h' inp' (calls @ cs)"
proof (induction es arbitrary: s h inp calls cs)
  case (Cons e es)
  from Cons.prems(1) obtain s1 cs1 h1 cs2 where st: "session_step e s h = Some (s1, cs1, h1)"
    "session_exec es s1 h1 = Some (s', cs2, h')" "cs = cs1 @ cs2"
    and p: "case e of Packet p \<Rightarrow> packet_ok h p \<and> p \<notin> set (session_pbufs s) | _ \<Rightarrow> True"
    by (auto split: if_splits bind_splits)
  obtain inp1 where "tcp_run s0 h0 s1 h1 inp1 (calls @ cs1)"
  proof (cases "\<exists>p. e = Packet p")
    case True
    then obtain q where e: "e = Packet q" by blast
    then have "packet_ok h q" "q \<notin> set (session_pbufs s)" using p by simp_all
    from run_packet [OF Cons.prems(2) this st(1) [unfolded e]] show ?thesis by (rule that)
  next
    case False
    then have "e \<noteq> Packet q" for q by blast
    from run_step [OF Cons.prems(2) this st(1)] show ?thesis by (rule that)
  qed
  from Cons.IH [OF st(2) this] show ?case by (simp add: st(3))
qed auto

subsection \<open>Properties of sessions\<close>

text \<open>C1: upstream data keep their order and none is lost or duplicated: in every run of a session, the
  bytes of the packets handed to it are the bytes it gave to the SOCKS5 connection, in the order the
  writes were started, followed by the bytes of the packets still queued.\<close>

theorem tcp_upstream_fifo:
  assumes "heap_ok h0" "tcp_run (tcp_started pcb key ep fill) h0 s h inp calls"
  shows "inp = sent_bytes calls @ cdata h (ts_queue s)"
  using tcp_run_ok [OF assms(2) tcp_started_ok(1) [OF assms(1)]] by (simp add: tcp_started_ok(3))

definition reads_pending :: "tcp_session \<Rightarrow> nat" where
  "reads_pending s =
     (if ts_main s \<in> {Some M_method_read, Some M_request_read, Some M_read} then 1 else 0) +
     (if ts_down s = Some D_read then 1 else 0)"


text \<open>C8: a session that is closed outside its handshake stays closed and makes no call on its pcb any
  more, whatever completions, packets, acknowledgements and stops follow.\<close>

theorem tcp_closed_is_silent:
  assumes "session_ok s0 h0" "ts_status s0 = SESSION_CLOSE" "\<not> handshaking s0" "tcp_run s0 h0 s h inp calls"
  shows "ts_status s = SESSION_CLOSE \<and> \<not> list_ex lwip_call calls"
  using tcp_run_ok [OF assms(4,1)] assms(2,3) by simp

text \<open>leaving the downstream loop because lwIP's send buffer runs short closes the session for good:
  although an acknowledgement then starts a new downstream read, no byte is written to the client any
  more and the next packet of the client is refused.\<close>

theorem tcp_short_buffer_closes:
  assumes "session_ok s h" "ts_main s = Some M_read" "ts_status s = SESSION_RELAYING"
    and "unat sndbuf < twice_TCP_LOCAL_RECV_BUFF_SIZE" "0 < length bs" "length bs \<le> TCP_LOCAL_RECV_BUFF_SIZE"
  shows "\<exists>s'. session_step (Resume_main (Received bs) sndbuf) s h = Some (s', [Lwip_write bs, Lwip_output], h) \<and>
    ts_status s' = SESSION_CLOSE \<and> session_step (Packet p) s' h = None \<and>
    (\<forall>s2 h2 inp calls. tcp_run s' h s2 h2 inp calls \<longrightarrow> ts_status s2 = SESSION_CLOSE \<and> \<not> list_ex lwip_call calls)"
proof -
  let ?s = "main_return_false (s\<lparr>ts_recv_buff := overwrite 0 bs (ts_recv_buff s), ts_should_read := False\<rparr>)"
  have st: "session_step (Resume_main (Received bs) sndbuf) s h = Some (?s, [Lwip_write bs, Lwip_output], h)"
    using assms by (simp add: main_resume_def main_read_def Let_def Suc_le_eq)
  have "session_ok ?s h" using session_step_ok [OF assms(1) st] by (simp add: step_ok_def)
  then show ?thesis
    using st tcp_run_ok [of ?s h] by (auto simp: main_return_false_def handshaking_def)
qed

lemma up_step:
  assumes ok: "session_ok s h" and pc: "ts_up s = Some (U_write p p)" and opn: "ts_status s \<noteq> SESSION_CLOSE"
  obtains s1 cs1 where "session_step (Resume_up (Done k)) s h = Some (s1, Lwip_recved k # cs1, mem_free p h)"
    "session_ok s1 (mem_free p h)" "ts_status s1 = ts_status s"
    "cdata h (ts_queue s) = sent_bytes cs1 @ cdata (mem_free p h) (ts_queue s1)"
    "(ts_up s1 = None \<and> \<not> ts_sending s1 \<and> ts_queue s = [] \<and> ts_queue s1 = []) \<or>
     (\<exists>q. ts_up s1 = Some (U_write q q) \<and> ts_queue s = q # ts_queue s1)"
proof -
  have p: "heap_ok h" "packet_ok h p" "p \<notin> set (session_pbufs (s\<lparr>ts_up := None\<rparr>))" "session_ok (s\<lparr>ts_up := None\<rparr>) h"
    using ok pc by (auto simp: session_ok_def pbufs_defs)
  note free = packet_free [OF p(1,2)] session_ok_free [OF p]
  obtain b where b: "h_pbuf h p = Some b" using p(2) packet_live by blast
  note r = packet_read [OF p(2) b]
  obtain s1 cs1 where n: "up_next s (mem_free p h) = Some (s1, cs1, mem_free p h)" "session_ok s1 (mem_free p h)"
      "cdata (mem_free p h) (ts_queue s) = sent_bytes cs1 @ cdata (mem_free p h) (ts_queue s1)"
      "ts_status s1 = ts_status s"
      "(ts_up s1 = None \<and> \<not> ts_sending s1 \<and> ts_queue s = []) \<or>
       (\<exists>p. ts_up s1 = Some (U_write p p) \<and> ts_sending s1 = ts_sending s \<and> ts_queue s = p # ts_queue s1)"
      using free(2) by (rule up_next_ok)
  have q: "ts_queue s1 = []" if "ts_queue s = []" using n(1) that by (auto simp: up_next_def)
  have "session_step (Resume_up (Done k)) s h = Some (s1, Lwip_recved k # cs1, mem_free p h)"
    using pc opn free(1) b r(3) n(1) by (simp add: up_resume_def up_written_def)
  then show thesis using that n free(3) q by auto
qed

lemma up_drain:
  assumes "session_ok s h" "ts_up s = Some (U_write p p)" "ts_status s \<noteq> SESSION_CLOSE" "length ns = Suc (length (ts_queue s))"
  shows "\<exists>s' calls h'. session_exec (map (\<lambda>n. Resume_up (Done n)) ns) s h = Some (s', calls, h') \<and>
    ts_queue s' = [] \<and> ts_up s' = None \<and> \<not> ts_sending s' \<and> ts_status s' = ts_status s \<and>
    sent_bytes calls = cdata h (ts_queue s) \<and> (\<forall>x \<in> set (p # ts_queue s). h_pbuf h' x = None) \<and>
    (\<forall>x. h_pbuf h x = None \<longrightarrow> h_pbuf h' x = None)"
  using assms
proof (induction "ts_queue s" arbitrary: s h p ns)
  case Nil
  then obtain k where ns: "ns = [k]" by (auto simp: length_Suc_conv)
  obtain s1 cs1 where s1: "session_step (Resume_up (Done k)) s h = Some (s1, Lwip_recved k # cs1, mem_free p h)"
    "session_ok s1 (mem_free p h)" "ts_status s1 = ts_status s"
    "cdata h (ts_queue s) = sent_bytes cs1 @ cdata (mem_free p h) (ts_queue s1)"
    "(ts_up s1 = None \<and> \<not> ts_sending s1 \<and> ts_queue s = [] \<and> ts_queue s1 = []) \<or>
     (\<exists>q. ts_up s1 = Some (U_write q q) \<and> ts_queue s = q # ts_queue s1)"
    by (rule up_step [OF Nil.prems(1-3)])
  then show ?case using Nil.hyps ns by (auto simp del: session_step.simps)
next
  case (Cons q qs)
  have "length ns = Suc (Suc (length qs))" using Cons.prems(4) Cons.hyps(2) by (metis length_Cons)
  then obtain k ks where ns: "ns = k # ks" "length ks = Suc (length qs)" by (cases ns) auto
  obtain s1 cs1 where s1: "session_step (Resume_up (Done k)) s h = Some (s1, Lwip_recved k # cs1, mem_free p h)"
    "session_ok s1 (mem_free p h)" "ts_status s1 = ts_status s"
    "cdata h (ts_queue s) = sent_bytes cs1 @ cdata (mem_free p h) (ts_queue s1)"
    "(ts_up s1 = None \<and> \<not> ts_sending s1 \<and> ts_queue s = [] \<and> ts_queue s1 = []) \<or>
     (\<exists>q. ts_up s1 = Some (U_write q q) \<and> ts_queue s = q # ts_queue s1)"
    by (rule up_step [OF Cons.prems(1-3)])
  note hq = Cons.hyps(2) [symmetric]
  have q1: "ts_up s1 = Some (U_write q q)" "ts_queue s1 = qs" using s1(5) unfolding hq by auto
  have op: "ts_status s1 \<noteq> SESSION_CLOSE" using s1(3) Cons.prems(3) by simp
  obtain s' calls h' where e: "session_exec (map (\<lambda>n. Resume_up (Done n)) ks) s1 (mem_free p h) = Some (s', calls, h')"
    "ts_queue s' = []" "ts_up s' = None" "\<not> ts_sending s'" "ts_status s' = ts_status s1"
    "sent_bytes calls = cdata (mem_free p h) (ts_queue s1)" "\<forall>x \<in> set (q # ts_queue s1). h_pbuf h' x = None"
    "\<forall>x. h_pbuf (mem_free p h) x = None \<longrightarrow> h_pbuf h' x = None"
    using Cons.hyps(1) [OF q1(2) [symmetric] s1(2) q1(1) op] ns(2) unfolding q1(2) by blast
  have "h_pbuf h' p = None" using e(8) by simp
  then show ?case
    using s1(1,3,4) e ns(1) q1(2) unfolding hq by (auto simp del: session_step.simps)
qed

text \<open>C9: a packet handed to an idle relaying session gets through: once the upstream coroutine runs and
  each of its writes completes, one per packet queued, every queued byte has been given to the
  connection in order, all packets are freed, and the session is idle again.\<close>

theorem tcp_upstream_drains:
  assumes ok: "session_ok s h" and st: "ts_status s = SESSION_RELAYING" "\<not> ts_sending s" "ts_up s = None"
    and p: "packet_ok h p" "p \<notin> set (session_pbufs s)" and len: "length ns = Suc (length (ts_queue s))"
  shows "\<exists>s' calls h'. session_exec (Packet p # Resume_up c # map (\<lambda>n. Resume_up (Done n)) ns) s h = Some (s', calls, h') \<and>
    ts_queue s' = [] \<and> ts_up s' = None \<and> \<not> ts_sending s' \<and> ts_status s' = SESSION_RELAYING \<and>
    sent_bytes calls = cdata h (ts_queue s) @ adata h p \<and> (\<forall>x \<in> set (ts_queue s @ [p]). h_pbuf h' x = None)"
proof -
  let ?s = "ProxyTcpPacket p s"
  have step: "session_step (Packet p) s h = Some (?s, [], h)" using st by simp
  have s1: "session_ok ?s h" "ts_queue ?s = ts_queue s @ [p]" "ts_up ?s = Some U_spawned" "ts_status ?s = SESSION_RELAYING"
    using packet_step_ok [OF ok p step] st by (simp_all add: ProxyTcpPacket_def EnqueuePacket_def Let_def)
  have "session_ok (?s\<lparr>ts_up := None\<rparr>) h" using s1 by (simp add: session_ok_def pbufs_defs)
  then obtain s2 cs2 where s2: "up_next ?s h = Some (s2, cs2, h)" "session_ok s2 h"
    "cdata h (ts_queue ?s) = sent_bytes cs2 @ cdata h (ts_queue s2)" "\<not> list_ex lwip_call cs2" "ts_status s2 = ts_status ?s"
    "ts_main s2 = ts_main ?s" "ts_down s2 = ts_down ?s" "ts_should_read s2 = ts_should_read ?s"
    "(ts_up s2 = None \<and> \<not> ts_sending s2 \<and> ts_queue ?s = []) \<or>
     (\<exists>p. ts_up s2 = Some (U_write p p) \<and> ts_sending s2 = ts_sending ?s \<and> ts_queue ?s = p # ts_queue s2)"
    by (rule up_next_ok)
  from s2(9) s1(2) obtain q where q: "ts_up s2 = Some (U_write q q)" "ts_queue s @ [p] = q # ts_queue s2" by auto
  have "length ns = Suc (length (ts_queue s2))" using len arg_cong [OF q(2), of length] by simp
  moreover have "ts_status s2 \<noteq> SESSION_CLOSE" using s2(5) s1(4) by simp
  ultimately obtain s' calls h' where e: "session_exec (map (\<lambda>n. Resume_up (Done n)) ns) s2 h = Some (s', calls, h')"
    "ts_queue s' = []" "ts_up s' = None" "\<not> ts_sending s'" "ts_status s' = ts_status s2"
    "sent_bytes calls = cdata h (ts_queue s2)" "\<forall>x \<in> set (q # ts_queue s2). h_pbuf h' x = None"
    using up_drain [OF s2(2) q(1)] by blast
  have "session_step (Resume_up c) ?s h = Some (s2, cs2, h)" using s1(3) s2(1) by (simp add: up_resume_def)
  moreover have "cdata h (ts_queue s) @ adata h p = sent_bytes cs2 @ cdata h (ts_queue s2)" using s2(3) s1(2) by simp
  ultimately show ?thesis
    unfolding q(2) using step p e s2(5) s1(4) by (simp del: session_step.simps)
qed

text \<open>Three packets of two bytes each, and a started session.\<close>

definition packet_heap :: heap where
  "packet_heap = empty_heap\<lparr>h_next := 3,
     h_pbuf := [0 \<mapsto> sample_pbuf 0 2 2 1 None, 1 \<mapsto> sample_pbuf 1 2 2 1 None, 2 \<mapsto> sample_pbuf 2 2 2 1 None],
     h_mem := [0 \<mapsto> [1, 2], 1 \<mapsto> [3, 4], 2 \<mapsto> [5, 6]]\<rparr>"

definition sample_key :: tcp_key where
  "sample_key = \<lparr>local_ip = 0x08080808, remote_ip = 0x0100000a, local_port = 443, remote_port = 1024\<rparr>"

abbreviation sample_started :: tcp_session where
  "sample_started \<equiv> tcp_started 7 sample_key (''127.0.0.1'', 1080) (\<lambda>_. 0)"

lemma packet_heap_ok:
  "heap_ok packet_heap" "packet_ok packet_heap 0" "packet_ok packet_heap 1" "packet_ok packet_heap 2"
  by (simp_all add: packet_heap_def heap_ok_def packet_ok_def sample_simps)

definition handshake_events :: "session_event list" where
  "handshake_events = [Resume_main Failed 0, Resume_main (Done 0) 0, Resume_main (Done 3) 0,
     Resume_main (Received [5, 0]) 0, Resume_main (Done 10) 0, Resume_main (Received [5, 0, 0, 1, 0, 0, 0, 0, 0, 0]) 0]"

lemma le32_reply: "le32 a b c d = 16777221 \<longleftrightarrow> [a, b, c, d] = [5, 0, 0, 1]"
proof
  assume e: "le32 a b c d = 16777221"
  have "byte_of32 0 16777221 = 5" "byte_of32 1 16777221 = 0" "byte_of32 2 16777221 = 0" "byte_of32 3 16777221 = 1" by code_simp+
  then show "[a, b, c, d] = [5, 0, 0, 1]" unfolding e [symmetric] by simp
next
  assume "[a, b, c, d] = [5, 0, 0, 1]"
  then show "le32 a b c d = 16777221" by (simp add: le32_def)
qed

lemma started_request:
  "ConstructSocks5RequestFromIpStringAndPort (overwrite 0 [m0, m1] (map fill [0..<TCP_LOCAL_RECV_BUFF_SIZE])) (inet_ntoa ip) port =
    Some ([m0, 1, fill 2, 1] @ bytes_of32 ip @ [hi8 port, lo8 port] @
      drop 10 (overwrite 0 [m0, m1] (map fill [0..<TCP_LOCAL_RECV_BUFF_SIZE])))"
proof -
  let ?buf = "overwrite 0 [m0, m1] (map fill [0..<TCP_LOCAL_RECV_BUFF_SIZE])"
  have l: "length ?buf = 1436" by (simp add: TCP_LOCAL_RECV_BUFF_SIZE_def)
  have nth: "?buf ! 0 = m0" "?buf ! 2 = fill 2"
    by (simp_all add: overwrite_def TCP_LOCAL_RECV_BUFF_SIZE_def nth_append numeral_2_eq_2)
  show ?thesis using request_bytes [of ?buf ip port] l unfolding nth by simp
qed

text \<open>What resuming the main coroutine does, by program counter.\<close>

lemma main_resume_at:
  "ts_main s = Some M_spawned \<Longrightarrow> main_resume c b s h = connectToRemote s h"
  "ts_main s = Some M_connect \<Longrightarrow> main_resume (Done n) b s h = handleMethodSelection s h"
  "ts_main s = Some M_method_write \<Longrightarrow> main_resume (Done n) b s h = Some (s\<lparr>ts_main := Some M_method_read\<rparr>, [Sock_read_some 2], h)"
  "ts_main s = Some M_method_read \<Longrightarrow> length bs \<in> {1..2} \<Longrightarrow>
     main_resume (Received bs) b s h = handleSocks5Request (s\<lparr>ts_recv_buff := overwrite 0 bs (ts_recv_buff s)\<rparr>) h"
  "ts_main s = Some M_request_write \<Longrightarrow> main_resume (Done n) b s h = Some (s\<lparr>ts_main := Some M_request_read\<rparr>, [Sock_read 10], h)"
  "ts_main s = Some M_request_read \<Longrightarrow> length bs = 10 \<Longrightarrow>
     main_resume (Received bs) b s h =
       (if take 4 bs = [5, 0, 0, 1] then handleRemoteRead (s\<lparr>ts_recv_buff := overwrite 0 bs (ts_recv_buff s)\<rparr>) h
        else Some (main_return_false (s\<lparr>ts_recv_buff := overwrite 0 bs (ts_recv_buff s)\<rparr>), [], h))"
  "ts_main s = Some M_read \<Longrightarrow> length bs \<in> {1..TCP_LOCAL_RECV_BUFF_SIZE} \<Longrightarrow> main_resume (Received bs) b s h = main_read b bs s h"
proof -
  assume l: "ts_main s = Some M_request_read" "length bs = 10"
  then have "take 4 bs = [bs ! 0, bs ! 1, bs ! 2, bs ! 3]"
    by (intro nth_equalityI) (auto simp: less_Suc_eq numeral_eq_Suc)
  then have "le32 (bs ! 0) (bs ! 1) (bs ! 2) (bs ! 3) = 16777221 \<longleftrightarrow> take 4 bs = [5, 0, 0, 1]"
    using le32_reply by simp
  then show "main_resume (Received bs) b s h =
       (if take 4 bs = [5, 0, 0, 1] then handleRemoteRead (s\<lparr>ts_recv_buff := overwrite 0 bs (ts_recv_buff s)\<rparr>) h
        else Some (main_return_false (s\<lparr>ts_recv_buff := overwrite 0 bs (ts_recv_buff s)\<rparr>), [], h))"
    using l by (simp add: main_resume_def Let_def)
qed (simp_all add: main_resume_def)

lemmas exec_simps = tcp_started_def Start_def openRemoteSocket_def TcpSession_new_def main_resume_at connectToRemote_def
  handleMethodSelection_def DEFAULT_METHOD_REQUEST_def handleSocks5Request_def handleRemoteRead_def
  main_return_false_def Stop_def Let_def

text \<open>C17: the handshake of a session: it offers one authentication method, ignores which one the server
  selects, and asks for a connection to the address and port the client dialled; version and reserved
  byte of that request are the first byte of the server's answer and whatever the receive buffer held.
  The session relays exactly when the reply starts with version 5, success, zero, IPv4.\<close>

theorem tcp_handshake:
  assumes "length reply = 10"
  shows "\<exists>s'. session_exec [Resume_main c b, Resume_main (Done n1) b, Resume_main (Done n2) b, Resume_main (Received [m0, m1]) b,
        Resume_main (Done n3) b, Resume_main (Received reply) b] (tcp_started pcb key ep fill) h =
      Some (s', [Sock_connect, Sock_write [5, 1, 0], Sock_read_some 2,
                 Sock_write ([m0, 1, fill 2, 1] @ bytes_of32 (local_ip key) @ [hi8 (local_port key), lo8 (local_port key)]),
                 Sock_read 10] @ (if take 4 reply = [5, 0, 0, 1] then [Sock_read_some TCP_LOCAL_RECV_BUFF_SIZE] else []), h) \<and>
    ts_status s' = (if take 4 reply = [5, 0, 0, 1] then SESSION_RELAYING else SESSION_CLOSE)"
  using assms by (simp add: exec_simps started_request flush_next_def)

theorem tcp_handshake_witness:
  "\<exists>s' calls. session_exec handshake_events sample_started packet_heap = Some (s', calls, packet_heap) \<and>
     ts_status s' = SESSION_RELAYING"
proof -
  have l: "length [5, 0, 0, 1, 0, 0, 0, 0, 0, 0 :: u8] = 10" by simp
  from tcp_handshake [OF l, of Failed 0 0 3 5 0 10 7 sample_key "(''127.0.0.1'', 1080)" "\<lambda>_. 0" packet_heap] show ?thesis
    unfolding handshake_events_def by auto
qed

lemma session_exec_append:
  "session_exec (xs @ ys) s h =
     do { (s, cs, h) \<leftarrow> session_exec xs s h; (s, cs', h) \<leftarrow> session_exec ys s h; Some (s, cs @ cs', h) }"
proof (induction xs arbitrary: s h)
  case (Cons e xs)
  show ?case by (simp add: Cons split: bind_splits)
qed (auto split: bind_splits)

lemma exec_handshake:
  assumes "ts_main s = Some M_connect" "ts_recv_buff s = map fill [0..<TCP_LOCAL_RECV_BUFF_SIZE]"
  obtains B cs where "session_exec (tl handshake_events) s h =
    do { (s', cs', h') \<leftarrow> flush_next (s\<lparr>ts_status := SESSION_RELAYING, ts_main := Some M_request_read, ts_recv_buff := B\<rparr>) h;
         Some (s', cs @ cs', h') }" "sent_bytes cs = []"
proof -
  let ?buf = "overwrite 0 [5, 0] (map fill [0..<TCP_LOCAL_RECV_BUFF_SIZE])"
  let ?req = "[5, 1, fill 2, 1] @ bytes_of32 (local_ip (ts_pcb_copy s)) @ [hi8 (local_port (ts_pcb_copy s)), lo8 (local_port (ts_pcb_copy s))]"
  let ?B = "overwrite 0 [5, 0, 0, 1, 0, 0, 0, 0, 0, 0] (?req @ drop 10 ?buf)"
  let ?s = "s\<lparr>ts_status := SESSION_RELAYING, ts_main := Some M_request_read, ts_recv_buff := ?B\<rparr>"
  show thesis
  proof (rule that)
    show "session_exec (tl handshake_events) s h =
      do { (s', cs', h') \<leftarrow> flush_next ?s h;
         Some (s', [Sock_write [5, 1, 0], Sock_read_some 2, Sock_write ?req, Sock_read 10] @ cs', h') }"
      using assms by (cases s; cases "flush_next ?s h") (auto simp: handshake_events_def exec_simps started_request)
  qed simp
qed

lemma exec_tcp_run:
  "session_exec es s h = Some (s', cs, h') \<Longrightarrow> \<exists>inp. tcp_run s h s' h' inp cs"
  using session_exec_run [OF _ run_init] by fastforce

lemma started_state:
  "ts_main (tcp_started pcb key ep fill) = Some M_spawned" "ts_status (tcp_started pcb key ep fill) = SESSION_INIT"
  "ts_recv_buff (tcp_started pcb key ep fill) = map fill [0..<TCP_LOCAL_RECV_BUFF_SIZE]"
  "ts_up (tcp_started pcb key ep fill) = None" "\<not> ts_sending (tcp_started pcb key ep fill)"
  by (simp_all add: tcp_started_def Start_def openRemoteSocket_def TcpSession_new_def)

text \<open>C37: stopping a session does not end it during the handshake: when the connection attempt has already
  succeeded, cancelling it has no effect, the coroutine goes on and sets the status itself, and the
  closed session writes to its pcb, which the stop has given back to lwIP.\<close>

theorem tcp_stop_in_handshake_revives:
  "\<exists>s h inp calls. tcp_run (tcp_started pcb key ep fill) h0 s h inp ([Sock_connect, Sock_cancel, Lwip_clear_arg] @ calls) \<and>
     ts_status s = SESSION_RELAYING \<and> Lwip_write [42] \<in> set calls"
proof -
  let ?s0 = "tcp_started pcb key ep fill" and ?s1 = "(tcp_started pcb key ep fill)\<lparr>ts_main := Some M_connect, ts_status := SESSION_CLOSE\<rparr>"
  have pre: "session_exec [Resume_main Failed 0, Stopped] ?s0 h0 = Some (?s1, [Sock_connect, Sock_cancel, Lwip_clear_arg], h0)"
    by (simp add: main_resume_at started_state connectToRemote_def Stop_def)
  have "ts_main ?s1 = Some M_connect" "ts_recv_buff ?s1 = map fill [0..<TCP_LOCAL_RECV_BUFF_SIZE]" by (simp_all add: started_state)
  then obtain B cs where hs: "session_exec (tl handshake_events) ?s1 h0 =
    do { (s', cs', h') \<leftarrow> flush_next (?s1\<lparr>ts_status := SESSION_RELAYING, ts_main := Some M_request_read, ts_recv_buff := B\<rparr>) h0;
         Some (s', cs @ cs', h') }" "sent_bytes cs = []"
    by (rule exec_handshake)
  have "length [42 :: u8] \<in> {1..TCP_LOCAL_RECV_BUFF_SIZE}" by (simp add: TCP_LOCAL_RECV_BUFF_SIZE_def)
  then have post: "session_exec [Resume_main (Received [42]) 9000] (s\<lparr>ts_main := Some M_read\<rparr>) h0 =
      Some (s\<lparr>ts_main := Some M_read, ts_recv_buff := overwrite 0 [42] (ts_recv_buff s)\<rparr>,
        [Lwip_write [42], Lwip_output, Sock_read_some TCP_LOCAL_RECV_BUFF_SIZE], h0)" if "ts_status s = SESSION_RELAYING" for s
    using that by (simp add: main_resume_at main_read_def twice_TCP_LOCAL_RECV_BUFF_SIZE_def)
  have "\<exists>s calls. session_exec ([Resume_main Failed 0, Stopped] @ tl handshake_events @ [Resume_main (Received [42]) 9000]) ?s0 h0 =
      Some (s, [Sock_connect, Sock_cancel, Lwip_clear_arg] @ calls, h0) \<and> ts_status s = SESSION_RELAYING \<and> Lwip_write [42] \<in> set calls"
    unfolding session_exec_append pre by (simp add: hs(1) flush_next_def tcp_started_ok(3) post del: session_exec.simps)
  then show ?thesis using exec_tcp_run by blast
qed

text \<open>C38: two writes to the connection can be outstanding at once: a packet that arrives while the packets
  of the handshake are flushed starts an upstream coroutine, which takes the next queued packet and
  writes it while the flush is still writing the one before.\<close>

theorem tcp_concurrent_writes:
  "\<exists>s h inp calls. tcp_run (tcp_started pcb key ep fill) packet_heap s h inp calls \<and>
     ts_main s = Some (M_flush 0) \<and> ts_up s = Some (U_write 1 1) \<and> sent_bytes calls = [1, 2] @ [3, 4]"
proof -
  let ?s0 = "tcp_started pcb key ep fill" and ?s1 = "(tcp_started pcb key ep fill)\<lparr>ts_main := Some M_connect, ts_queue := [0, 1]\<rparr>"
  have pre: "session_exec [Resume_main Failed 0, Packet 0, Packet 1] ?s0 packet_heap = Some (?s1, [Sock_connect], packet_heap)"
    using packet_heap_ok by (simp add: main_resume_at started_state tcp_started_ok(3) connectToRemote_def
        ProxyTcpPacket_def EnqueuePacket_def pbufs_defs)
  have "ts_main ?s1 = Some M_connect" "ts_recv_buff ?s1 = map fill [0..<TCP_LOCAL_RECV_BUFF_SIZE]" by (simp_all add: started_state)
  then obtain B cs where hs: "session_exec (tl handshake_events) ?s1 packet_heap =
    do { (s', cs', h') \<leftarrow> flush_next (?s1\<lparr>ts_status := SESSION_RELAYING, ts_main := Some M_request_read, ts_recv_buff := B\<rparr>) packet_heap;
         Some (s', cs @ cs', h') }" "sent_bytes cs = []"
    by (rule exec_handshake)
  have p: "h_pbuf packet_heap 0 = Some (sample_pbuf 0 2 2 1 None)" "h_pbuf packet_heap 1 = Some (sample_pbuf 1 2 2 1 None)"
    "mem_read packet_heap (Some (0, 0)) 0 2 = Some [1, 2]" "mem_read packet_heap (Some (1, 0)) 0 2 = Some [3, 4]"
    by (simp_all add: packet_heap_def mem_read_def slice_def)
  have post: "\<exists>s'. session_exec [Packet 2, Resume_up Failed] s packet_heap = Some (s', [Sock_send [3, 4]], packet_heap) \<and>
      ts_main s' = ts_main s \<and> ts_up s' = Some (U_write 1 1)"
    if "ts_status s = SESSION_RELAYING" "ts_queue s = [1]" "ts_main s = Some (M_flush 0)" "ts_up s = None" "\<not> ts_sending s" for s
    using that packet_heap_ok p(2,4)
    by (simp add: ProxyTcpPacket_def EnqueuePacket_def pbufs_defs up_resume_def up_next_def up_write_def sample_pbuf_def)
  let ?r = "?s1\<lparr>ts_status := SESSION_RELAYING, ts_main := Some M_request_read, ts_recv_buff := B\<rparr>"
  let ?s2 = "?r\<lparr>ts_queue := [1], ts_main := Some (M_flush 0)\<rparr>"
  have flush: "flush_next ?r packet_heap = Some (?s2, [Sock_send [1, 2]], packet_heap)"
    by (simp add: flush_next_def p sample_pbuf_def)
  obtain s' where s': "session_exec [Packet 2, Resume_up Failed] ?s2 packet_heap = Some (s', [Sock_send [3, 4]], packet_heap)"
      "ts_main s' = Some (M_flush 0)" "ts_up s' = Some (U_write 1 1)"
    using post [of ?s2] by (auto simp: started_state)
  have "session_exec ([Resume_main Failed 0, Packet 0, Packet 1] @ tl handshake_events @ [Packet 2, Resume_up Failed]) ?s0 packet_heap =
      Some (s', [Sock_connect] @ (cs @ [Sock_send [1, 2]]) @ [Sock_send [3, 4]], packet_heap)"
    by (simp only: session_exec_append pre hs(1) flush s'(1) bind.bind_lunit prod.case)
  then show ?thesis using exec_tcp_run s'(2,3) hs(2) by fastforce
qed

subsection \<open>Witnesses\<close>

lemma sample_run: "tcp_run sample_started packet_heap (ProxyTcpPacket 0 sample_started) packet_heap [1, 2] []"
proof -
  have "session_step (Packet 0) sample_started packet_heap = Some (ProxyTcpPacket 0 sample_started, [], packet_heap)"
    by (simp add: started_state)
  from run_packet [OF run_init packet_heap_ok(2) _ this] show ?thesis
    by (simp add: pbufs_defs started_state tcp_started_ok(3)) (simp add: packet_heap_def sample_simps)
qed

theorem tcp_upstream_fifo_witness:
  "[1, 2] = sent_bytes [] @ cdata packet_heap (ts_queue (ProxyTcpPacket 0 sample_started))"
  by (rule tcp_upstream_fifo [OF packet_heap_ok(1) sample_run])


definition sample_relaying :: tcp_session where
  "sample_relaying = sample_started\<lparr>ts_status := SESSION_RELAYING, ts_main := Some M_read\<rparr>"

lemma sample_relaying_ok:
  "session_ok sample_relaying packet_heap" "session_ok (sample_relaying\<lparr>ts_status := SESSION_CLOSE\<rparr>) packet_heap"
  using packet_heap_ok by (simp_all add: sample_relaying_def session_ok_def pbufs_defs tcp_started_ok started_state)

theorem tcp_closed_is_silent_witness:
  "\<exists>s h inp calls. tcp_run (sample_relaying\<lparr>ts_status := SESSION_CLOSE\<rparr>) packet_heap s h inp calls \<and> ts_main s = None \<and>
     ts_status s = SESSION_CLOSE \<and> \<not> list_ex lwip_call calls"
proof -
  have "\<exists>s calls h. session_exec [Resume_main Failed 0, Ack 9000] (sample_relaying\<lparr>ts_status := SESSION_CLOSE\<rparr>) packet_heap = Some (s, calls, h) \<and>
      ts_main s = None"
    by (simp add: sample_relaying_def main_resume_def main_return_false_def ReadFromRemote_def)
  then obtain s calls h inp where r: "tcp_run (sample_relaying\<lparr>ts_status := SESSION_CLOSE\<rparr>) packet_heap s h inp calls" "ts_main s = None"
    using exec_tcp_run by blast
  have "\<not> handshaking (sample_relaying\<lparr>ts_status := SESSION_CLOSE\<rparr>)" by (simp add: handshaking_def sample_relaying_def)
  from tcp_closed_is_silent [OF sample_relaying_ok(2) _ this r(1)] r show ?thesis by auto
qed

theorem tcp_short_buffer_closes_witness:
  "\<exists>s'. session_step (Resume_main (Received [1]) 100) sample_relaying packet_heap = Some (s', [Lwip_write [1], Lwip_output], packet_heap) \<and>
    ts_status s' = SESSION_CLOSE \<and> session_step (Packet 0) s' packet_heap = None"
  using tcp_short_buffer_closes [OF sample_relaying_ok(1), of 100 "[1]" 0]
  by (auto simp: sample_relaying_def twice_TCP_LOCAL_RECV_BUFF_SIZE_def TCP_LOCAL_RECV_BUFF_SIZE_def)

theorem tcp_upstream_drains_witness:
  "\<exists>s' calls h'. session_exec [Packet 0, Resume_up Failed, Resume_up (Done 2)] sample_relaying packet_heap = Some (s', calls, h') \<and>
    ts_queue s' = [] \<and> sent_bytes calls = [1, 2] \<and> h_pbuf h' 0 = None"
proof -
  have "adata packet_heap 0 = [1, 2]" by (simp add: packet_heap_def sample_simps)
  then show ?thesis
    using tcp_upstream_drains [OF sample_relaying_ok(1) _ _ _ packet_heap_ok(2), of "[2]" Failed]
    by (auto simp: sample_relaying_def started_state tcp_started_ok(3) pbufs_defs simp del: session_exec.simps)
qed

end
