(* ===== verification/Tcp_Handler.thy ===== *)
theory Tcp_Handler
  imports Tcp_Session Session_Map
begin

text \<open>
  The table of TCP sessions (\<^verbatim>\<open>net/tcp/tcp_session_map_def.h\<close>), \<^verbatim>\<open>TcpHandler\<close> (\<^verbatim>\<open>net/tcp/tcphandler.cpp\<close>) and
  the callbacks lwIP runs for the proxied connections (\<^verbatim>\<open>net/lwip_tcp_callback.cpp\<close>). A session object is
  its number; it lives as long as the table or one of its coroutines holds it. \<open>tp_arg\<close> is the
  \<^verbatim>\<open>callback_arg\<close> of each pcb and \<open>tp_live\<close> says which pcbs lwIP has not freed. \<open>None\<close> is a failed
  assertion or an access to an object or a pcb that is gone.
\<close>

subsection \<open>The session table\<close>

definition TCP_PCB_HASHER :: "('h \<Rightarrow> nat \<Rightarrow> 'h) \<Rightarrow> 'h \<Rightarrow> tcp_key \<Rightarrow> 'h" where
  "TCP_PCB_HASHER hash_combine seed k =
     (let seed = hash_combine seed (unat (local_ip k));
          seed = hash_combine seed (unat (remote_ip k));
          seed = hash_combine seed (unat (local_port k));
          seed = hash_combine seed (unat (remote_port k))
      in seed)"

definition TCP_PCB_EQUAL :: "tcp_key \<Rightarrow> tcp_key \<Rightarrow> bool" where
  "TCP_PCB_EQUAL lhs rhs =
     (local_ip lhs = local_ip rhs \<and> remote_ip lhs = remote_ip rhs \<and>
      local_port lhs = local_port rhs \<and> remote_port lhs = remote_port rhs)"

interpretation tcp_map: session_key TCP_PCB_EQUAL TCP_PCB_HASHER
  by unfold_locales (auto simp: TCP_PCB_EQUAL_def TCP_PCB_HASHER_def)

record tcp_proxy =
  tp_map :: "(tcp_key, nat) umap"
  tp_sessions :: "nat \<Rightarrow> tcp_session option"
  tp_next :: nat
  tp_heap :: heap
  tp_arg :: "nat \<Rightarrow> nat option"
  tp_live :: "nat \<Rightarrow> bool"
  tp_fill :: "nat \<Rightarrow> nat \<Rightarrow> u8"

text \<open>What the callbacks ask of lwIP.\<close>

datatype cb_call = Tcp_close nat | Tcp_abort nat

text \<open>Dropping a reference to a session: the object goes with the last one.\<close>

definition session_idle :: "tcp_session \<Rightarrow> bool" where
  "session_idle s = (ts_main s = None \<and> ts_up s = None \<and> ts_down s = None)"

definition drop_session :: "nat \<Rightarrow> tcp_proxy \<Rightarrow> tcp_proxy option" where
  "drop_session sid st =
     do {
       s \<leftarrow> tp_sessions st sid;
       if sid \<in> snd ` set (tp_map st) \<or> \<not> session_idle s then Some st
       else do {
         h \<leftarrow> TcpSession_destroy (ts_queue s) (tp_heap st);
         Some (st\<lparr>tp_sessions := (tp_sessions st)(sid := None), tp_heap := h\<rparr>)
       }
     }"

subsection \<open>TcpHandler\<close>

text \<open>Stopping a session writes to its pcb, unless it is closed already.\<close>

definition stop_session :: "nat \<Rightarrow> tcp_proxy \<Rightarrow> tcp_proxy option" where
  "stop_session sid st =
     do {
       s \<leftarrow> tp_sessions st sid;
       let (s', calls) = Stop s;
       if Lwip_clear_arg \<in> set calls
       then if tp_live st (ts_pcb s)
            then Some (st\<lparr>tp_sessions := (tp_sessions st)(sid \<mapsto> s'), tp_arg := (tp_arg st)(ts_pcb s := None)\<rparr>)
            else None
       else Some st
     }"

definition TcpHandler_Clear :: "tcp_key \<Rightarrow> tcp_proxy \<Rightarrow> tcp_proxy option" where
  "TcpHandler_Clear key st =
     (case umap_find TCP_PCB_EQUAL key (tp_map st) of
        None \<Rightarrow> Some st
      | Some sid \<Rightarrow>
          do {
            st \<leftarrow> stop_session sid st;
            drop_session sid (st\<lparr>tp_map := umap_erase TCP_PCB_EQUAL key (tp_map st)\<rparr>)
          })"

text \<open>The socket calls of \<^verbatim>\<open>openRemoteSocket\<close> fail or not; \<open>socks_info\<close> is the server's address. A null packet
  for a known quadruple, which a second accept would pass, is queued and dereferenced by the next
  write: the model fails at once.\<close>

record socket_env =
  from_string :: "string \<Rightarrow> string option"
  socks_info :: "string \<times> u16"
  open_ec :: bool
  reuse_ec :: bool
  nodelay_ec :: bool

definition TcpHandler_Handle :: "socket_env \<Rightarrow> nat \<Rightarrow> tcp_key \<Rightarrow> addr option \<Rightarrow> tcp_proxy \<Rightarrow> (bool \<times> tcp_proxy) option" where
  "TcpHandler_Handle env pcb key p st =
     (case umap_find TCP_PCB_EQUAL key (tp_map st) of
        None \<Rightarrow>
          (if p \<noteq> None then None
           else do {
             let sid = tp_next st;
             let s = TcpSession_new pcb key (tp_fill st sid);
             s \<leftarrow> TcpSession_SetSocks5ServerEndpoint (from_string env) (fst (socks_info env)) (snd (socks_info env)) s;
             let s = Start (open_ec env) (reuse_ec env) (nodelay_ec env) s;
             Some (True, st\<lparr>tp_map := umap_insert TCP_PCB_EQUAL key sid (tp_map st),
                            tp_sessions := (tp_sessions st)(sid \<mapsto> s), tp_next := Suc sid,
                            tp_arg := (tp_arg st)(pcb := Some sid)\<rparr>)
           })
      | Some sid \<Rightarrow>
          do {
            s \<leftarrow> tp_sessions st sid;
            if ts_status s = SESSION_CLOSE
            then do { (c, h) \<leftarrow> pbuf_free p (tp_heap st); Some (False, st\<lparr>tp_heap := h\<rparr>) }
            else do { p \<leftarrow> p; Some (True, st\<lparr>tp_sessions := (tp_sessions st)(sid \<mapsto> ProxyTcpPacket p s)\<rparr>) }
          })"

subsection \<open>Callbacks\<close>

definition tcp_recv_func :: "socket_env \<Rightarrow> bool \<Rightarrow> nat \<Rightarrow> tcp_key \<Rightarrow> addr option \<Rightarrow> tcp_proxy \<Rightarrow> (err_t \<times> cb_call list \<times> tcp_proxy) option" where
  "tcp_recv_func env in_close_wait tpcb key p st =
     (case p of
        None \<Rightarrow>
          (if \<not> in_close_wait then None
           else do { st \<leftarrow> TcpHandler_Clear key st; Some (ERR_OK, [Tcp_close tpcb], st) })
      | Some a \<Rightarrow>
          do {
            b \<leftarrow> h_pbuf (tp_heap st) a;
            if p_len b \<noteq> p_tot_len b then None
            else do {
              (res, st) \<leftarrow> TcpHandler_Handle env tpcb key p st;
              if \<not> res then do { st \<leftarrow> TcpHandler_Clear key st; Some (ERR_OK, [Tcp_close tpcb], st) }
              else Some (ERR_OK, [], st)
            }
          })"

definition tcp_sent_func :: "nat option \<Rightarrow> nat \<Rightarrow> u16 \<Rightarrow> tcp_proxy \<Rightarrow> (err_t \<times> cb_call list \<times> tcp_proxy) option" where
  "tcp_sent_func arg tpcb sndbuf st =
     (case arg of
        None \<Rightarrow> Some (ERR_ABRT, [Tcp_abort tpcb], st)
      | Some sid \<Rightarrow>
          do {
            s \<leftarrow> tp_sessions st sid;
            Some (ERR_OK, [],
              st\<lparr>tp_sessions := (tp_sessions st)(sid \<mapsto> (if IsRemoteReadable sndbuf then ReadFromRemote s else s))\<rparr>)
          })"

definition tcp_err_func :: "nat option \<Rightarrow> tcp_proxy \<Rightarrow> tcp_proxy option" where
  "tcp_err_func arg st =
     (case arg of
        None \<Rightarrow> Some st
      | Some sid \<Rightarrow> do { s \<leftarrow> tp_sessions st sid; TcpHandler_Clear (ts_pcb_copy s) st })"

definition listener_accept_func :: "socket_env \<Rightarrow> nat \<Rightarrow> tcp_key \<Rightarrow> err_t \<Rightarrow> tcp_proxy \<Rightarrow> (err_t \<times> tcp_proxy) option" where
  "listener_accept_func env newpcb key err st =
     (if err \<noteq> ERR_OK then None
      else do {
        (res, st) \<leftarrow> TcpHandler_Handle env newpcb key None st;
        if res = True then Some (ERR_OK, st) else None
      })"

text \<open>A coroutine of a session resumes; when it ends, its reference goes.\<close>

definition resume_session :: "nat \<Rightarrow> session_event \<Rightarrow> tcp_proxy \<Rightarrow> (tcp_call list \<times> tcp_proxy) option" where
  "resume_session sid e st =
     do {
       s \<leftarrow> tp_sessions st sid;
       (s, calls, h) \<leftarrow> session_step e s (tp_heap st);
       if list_ex lwip_call calls \<and> \<not> tp_live st (ts_pcb s) then None
       else do {
         st \<leftarrow> drop_session sid (st\<lparr>tp_sessions := (tp_sessions st)(sid \<mapsto> s), tp_heap := h\<rparr>);
         Some (calls, st)
       }
     }"

subsection \<open>The table refers to live sessions\<close>

definition proxy_ok :: "tcp_proxy \<Rightarrow> bool" where
  "proxy_ok st =
     ((\<forall>(k, sid) \<in> set (tp_map st). \<exists>s. tp_sessions st sid = Some s \<and> ts_pcb_copy s = k) \<and>
      distinct (map snd (tp_map st)) \<and> distinct (map fst (tp_map st)) \<and> (\<forall>sid \<ge> tp_next st. tp_sessions st sid = None))"

lemma TCP_PCB_EQUAL_eq: "TCP_PCB_EQUAL k k' \<longleftrightarrow> k = k'"
  by (cases k; cases k') (auto simp: TCP_PCB_EQUAL_def)

lemma find_key: "umap_find TCP_PCB_EQUAL k m = map_of m k"
  by (induction m) (auto simp: tcp_map.find_Cons TCP_PCB_EQUAL_eq umap_find_def)

lemma erase_key: "umap_erase TCP_PCB_EQUAL k m = filter (\<lambda>(k', v). k' \<noteq> k) m"
  by (simp add: umap_erase_def TCP_PCB_EQUAL_eq)

lemma proxy_ok_find:
  assumes "proxy_ok st" "umap_find TCP_PCB_EQUAL k (tp_map st) = Some sid"
  obtains s where "tp_sessions st sid = Some s" "ts_pcb_copy s = k" "(k, sid) \<in> set (tp_map st)"
  using assms map_of_SomeD [of "tp_map st" k sid] by (fastforce simp: proxy_ok_def find_key)

text \<open>Replacing a session by one with the same quadruple.\<close>

lemma proxy_ok_update:
  assumes "proxy_ok st" "tp_sessions st sid = Some s" "ts_pcb_copy s' = ts_pcb_copy s"
  shows "proxy_ok (st\<lparr>tp_sessions := (tp_sessions st)(sid \<mapsto> s')\<rparr>)"
  using assms by (fastforce simp: proxy_ok_def)

lemma proxy_ok_frame [simp]:
  "proxy_ok (st\<lparr>tp_arg := x\<rparr>) = proxy_ok st" "proxy_ok (st\<lparr>tp_heap := h\<rparr>) = proxy_ok st"
  by (simp_all add: proxy_ok_def)

lemma proxy_ok_delete:
  assumes "proxy_ok st" "sid \<notin> snd ` set (tp_map st)"
  shows "proxy_ok (st\<lparr>tp_sessions := (tp_sessions st)(sid := None)\<rparr>)"
proof -
  have "sid' \<noteq> sid" if "(k, sid') \<in> set (tp_map st)" for k sid' using assms(2) that by force
  then show ?thesis using assms(1) unfolding proxy_ok_def by auto
qed

lemma drop_session_ok:
  assumes "proxy_ok st" "drop_session sid st = Some st'"
  shows "proxy_ok st'"
proof -
  obtain s where s: "tp_sessions st sid = Some s" using assms(2) by (auto simp: drop_session_def split: bind_splits)
  show ?thesis
  proof (cases "sid \<in> snd ` set (tp_map st) \<or> \<not> session_idle s")
    case True
    then show ?thesis using assms s by (simp add: drop_session_def)
  next
    case False
    then obtain h where "st' = st\<lparr>tp_sessions := (tp_sessions st)(sid := None), tp_heap := h\<rparr>"
      using assms(2) s by (auto simp: drop_session_def split: bind_splits)
    then show ?thesis using proxy_ok_delete [OF assms(1)] False by simp
  qed
qed

lemma proxy_ok_erase: "proxy_ok st \<Longrightarrow> proxy_ok (st\<lparr>tp_map := umap_erase TCP_PCB_EQUAL k (tp_map st)\<rparr>)"
  by (auto simp: proxy_ok_def erase_key distinct_map intro: inj_on_subset)

lemma Stop_copy: "Stop s = (s', calls) \<Longrightarrow> ts_pcb_copy s' = ts_pcb_copy s"
  by (auto simp: Stop_def split: if_splits)

lemma stop_session_ok:
  assumes "proxy_ok st" "stop_session sid st = Some st'"
  shows "proxy_ok st'"
  using assms proxy_ok_update [OF assms(1)] Stop_copy
  by (auto simp: stop_session_def Let_def split: bind_splits if_splits prod.splits)

lemma Clear_ok: "proxy_ok st \<Longrightarrow> TcpHandler_Clear key st = Some st' \<Longrightarrow> proxy_ok st'"
  by (auto simp: TcpHandler_Clear_def split: option.splits bind_splits intro: drop_session_ok proxy_ok_erase stop_session_ok)

lemma flush_next_copy: "flush_next s h = Some (s', cs, h') \<Longrightarrow> ts_pcb_copy s' = ts_pcb_copy s"
  by (auto simp: flush_next_def split: list.splits bind_splits if_splits)

lemma up_next_copy: "up_next s h = Some (s', cs, h') \<Longrightarrow> ts_pcb_copy s' = ts_pcb_copy s"
  by (auto simp: up_next_def up_write_def split: list.splits bind_splits)

lemma main_resume_copy: "main_resume c b s h = Some (s', cs, h') \<Longrightarrow> ts_pcb_copy s' = ts_pcb_copy s"
  by (auto simp: main_resume_def connectToRemote_def handleMethodSelection_def handleSocks5Request_def handleRemoteRead_def
      flush_written_def main_read_def main_return_false_def Let_def dest!: flush_next_copy
      split: option.splits main_pc.splits completion.splits if_splits bind_splits)

lemma up_resume_copy: "up_resume c s h = Some (s', cs, h') \<Longrightarrow> ts_pcb_copy s' = ts_pcb_copy s"
  by (auto simp: up_resume_def up_written_def up_write_def dest!: up_next_copy
      split: option.splits up_pc.splits completion.splits if_splits bind_splits)

lemma down_resume_copy: "down_resume c b s h = Some (s', cs, h') \<Longrightarrow> ts_pcb_copy s' = ts_pcb_copy s"
  by (auto simp: down_resume_def Let_def split: option.splits down_pc.splits completion.splits if_splits)

lemma ProxyTcpPacket_copy: "ts_pcb_copy (ProxyTcpPacket p s) = ts_pcb_copy s"
  by (simp add: ProxyTcpPacket_def EnqueuePacket_def Let_def)

lemma session_step_copy:
  assumes "session_step e s h = Some (s', cs, h')"
  shows "ts_pcb_copy s' = ts_pcb_copy s"
proof (cases e)
  case (Ack b)
  then show ?thesis using assms by (auto simp: ReadFromRemote_def split: if_splits)
next
  case Stopped
  then show ?thesis using assms Stop_copy by (auto split: prod.splits)
qed (use assms main_resume_copy up_resume_copy down_resume_copy ProxyTcpPacket_copy in \<open>auto split: if_splits\<close>)

lemma Handle_ok:
  assumes "proxy_ok st" "TcpHandler_Handle env pcb key p st = Some (r, st')"
  shows "proxy_ok st'"
proof (cases "umap_find TCP_PCB_EQUAL key (tp_map st)")
  case None
  then have k: "key \<notin> fst ` set (tp_map st)" by (simp add: find_key map_of_eq_None_iff)
  have n: "tp_next st \<notin> snd ` set (tp_map st)" using assms(1) by (fastforce simp: proxy_ok_def)
  obtain a where a: "st' = st\<lparr>tp_map := (key, tp_next st) # tp_map st,
      tp_sessions := (tp_sessions st)(tp_next st \<mapsto> Start (open_ec env) (reuse_ec env) (nodelay_ec env)
         ((TcpSession_new pcb key (tp_fill st (tp_next st)))\<lparr>ts_remote_ep := a\<rparr>)),
      tp_next := Suc (tp_next st), tp_arg := (tp_arg st)(pcb := Some (tp_next st))\<rparr>"
    using assms(2) None by (auto simp: TcpHandler_Handle_def TcpSession_SetSocks5ServerEndpoint_def umap_insert_def Let_def split: if_splits bind_splits)
  have c: "ts_pcb_copy (Start o1 o2 o3 ((TcpSession_new pcb key f)\<lparr>ts_remote_ep := a\<rparr>)) = key" for o1 o2 o3 f
    by (simp add: Start_def TcpSession_new_def)
  have "tp_sessions st (tp_next st) = None" using assms(1) by (simp add: proxy_ok_def)
  then have "\<exists>s. ((tp_sessions st)(tp_next st \<mapsto> x)) sid = Some s \<and> ts_pcb_copy s = k'" if "(k', sid) \<in> set (tp_map st)" for k' sid x
    using assms(1) that by (auto simp: proxy_ok_def)
  then show ?thesis using assms(1) k n unfolding a proxy_ok_def by (auto simp: c)
next
  case (Some sid)
  then show ?thesis
    using assms proxy_ok_update [OF assms(1) _ ProxyTcpPacket_copy]
    by (auto simp: TcpHandler_Handle_def split: bind_splits if_splits)
qed

subsection \<open>Reachable states\<close>

text \<open>lwIP runs the callbacks, coroutines resume, and lwIP frees pcbs and changes the heap.\<close>

inductive proxy_reach :: "socket_env \<Rightarrow> tcp_proxy \<Rightarrow> bool" for env where
  reach_init: "tp_map st = [] \<Longrightarrow> tp_sessions st = (\<lambda>_. None) \<Longrightarrow> proxy_reach env st"
| reach_accept: "proxy_reach env st \<Longrightarrow> listener_accept_func env pcb key err st = Some (e, st') \<Longrightarrow> proxy_reach env st'"
| reach_recv: "proxy_reach env st \<Longrightarrow> tcp_recv_func env cw pcb key p st = Some (e, calls, st') \<Longrightarrow> proxy_reach env st'"
| reach_sent: "proxy_reach env st \<Longrightarrow> tcp_sent_func arg pcb sndbuf st = Some (e, calls, st') \<Longrightarrow> proxy_reach env st'"
| reach_err: "proxy_reach env st \<Longrightarrow> tcp_err_func arg st = Some st' \<Longrightarrow> proxy_reach env st'"
| reach_resume: "proxy_reach env st \<Longrightarrow> resume_session sid ev st = Some (cs, st') \<Longrightarrow> proxy_reach env st'"
| reach_lwip: "proxy_reach env st \<Longrightarrow> proxy_reach env (st\<lparr>tp_live := live, tp_heap := h\<rparr>)"

lemma accept_ok: "proxy_ok st \<Longrightarrow> listener_accept_func env pcb key err st = Some (e, st') \<Longrightarrow> proxy_ok st'"
  by (auto simp: listener_accept_func_def split: if_splits bind_splits intro: Handle_ok)

lemma recv_ok:
  assumes "proxy_ok st" "tcp_recv_func env cw pcb key p st = Some (e, calls, st')"
  shows "proxy_ok st'"
proof (cases p)
  case None
  then show ?thesis using assms Clear_ok [OF assms(1)] by (auto simp: tcp_recv_func_def split: if_splits bind_splits)
next
  case (Some a)
  then obtain r st1 where r: "TcpHandler_Handle env pcb key p st = Some (r, st1)"
    "if \<not> r then TcpHandler_Clear key st1 = Some st' else st' = st1"
    using assms(2) by (auto simp: tcp_recv_func_def split: if_splits bind_splits)
  have "proxy_ok st1" using Handle_ok [OF assms(1) r(1)] .
  then show ?thesis using r(2) Clear_ok by (cases r) auto
qed

lemma sent_ok: "proxy_ok st \<Longrightarrow> tcp_sent_func arg pcb sndbuf st = Some (e, calls, st') \<Longrightarrow> proxy_ok st'"
  by (auto simp: tcp_sent_func_def ReadFromRemote_def split: option.splits if_splits bind_splits intro!: proxy_ok_update)

lemma err_ok: "proxy_ok st \<Longrightarrow> tcp_err_func arg st = Some st' \<Longrightarrow> proxy_ok st'"
  by (auto simp: tcp_err_func_def split: option.splits bind_splits intro: Clear_ok)

lemma resume_ok:
  assumes "proxy_ok st" "resume_session sid ev st = Some (cs, st')"
  shows "proxy_ok st'"
proof -
  obtain s s1 h where s: "tp_sessions st sid = Some s" "session_step ev s (tp_heap st) = Some (s1, cs, h)"
    "drop_session sid (st\<lparr>tp_sessions := (tp_sessions st)(sid \<mapsto> s1), tp_heap := h\<rparr>) = Some st'"
    using assms(2) by (auto simp: resume_session_def split: bind_splits if_splits)
  have "proxy_ok (st\<lparr>tp_sessions := (tp_sessions st)(sid \<mapsto> s1), tp_heap := h\<rparr>)"
    using proxy_ok_update [OF assms(1) s(1) session_step_copy [OF s(2)]] by simp
  then show ?thesis using drop_session_ok s(3) by blast
qed

lemma proxy_reach_ok: "proxy_reach env st \<Longrightarrow> proxy_ok st"
proof (induction rule: proxy_reach.induct)
  case (reach_lwip st live h)
  then show ?case by (simp add: proxy_ok_def)
qed (simp add: proxy_ok_def, (erule (1) accept_ok recv_ok sent_ok err_ok resume_ok)+)

subsection \<open>Properties of the handler\<close>

text \<open>C14: the session table is sound in every reachable state of the proxy: each entry refers to a
  session object that exists and that was made for exactly that address quadruple, so no two
  connections share a session.\<close>

theorem tcp_table_sound:
  assumes "proxy_reach env st" "umap_find TCP_PCB_EQUAL key (tp_map st) = Some sid"
  shows "\<exists>s. tp_sessions st sid = Some s \<and> ts_pcb_copy s = key \<and>
    (\<forall>key'. umap_find TCP_PCB_EQUAL key' (tp_map st) = Some sid \<longrightarrow> key' = key)"
proof -
  obtain s where "tp_sessions st sid = Some s" "ts_pcb_copy s = key" "(key, sid) \<in> set (tp_map st)"
    using proxy_reach_ok [OF assms(1)] assms(2) by (rule proxy_ok_find)
  moreover have "key' = key" if k: "umap_find TCP_PCB_EQUAL key' (tp_map st) = Some sid" for key'
  proof -
    obtain s' where "tp_sessions st sid = Some s'" "ts_pcb_copy s' = key'" "(key', sid) \<in> set (tp_map st)"
      using proxy_reach_ok [OF assms(1)] k by (rule proxy_ok_find)
    then show ?thesis using calculation by simp
  qed
  ultimately show ?thesis by blast
qed



text \<open>C40: lwIP's error callback runs after the pcb has been freed (an abort or a timeout); stopping an open
  session then writes to the freed pcb.\<close>

theorem tcp_err_writes_freed_pcb:
  assumes "proxy_reach env st" "umap_find TCP_PCB_EQUAL key (tp_map st) = Some sid"
    and "tp_sessions st sid = Some s" "ts_status s \<noteq> SESSION_CLOSE" "\<not> tp_live st (ts_pcb s)"
  shows "tcp_err_func (Some sid) st = None"
proof -
  obtain s' where "tp_sessions st sid = Some s'" "ts_pcb_copy s' = key" "(key, sid) \<in> set (tp_map st)"
    using proxy_reach_ok [OF assms(1)] assms(2) by (rule proxy_ok_find)
  then show ?thesis
    using assms by (simp add: tcp_err_func_def TcpHandler_Clear_def stop_session_def Stop_def)
qed


subsection \<open>Witnesses\<close>

definition sample_env :: socket_env where
  "sample_env = \<lparr>from_string = Some, socks_info = (''127.0.0.1'', 1080), open_ec = False, reuse_ec = False, nodelay_ec = False\<rparr>"

definition sample_proxy :: tcp_proxy where
  "sample_proxy = \<lparr>tp_map = [], tp_sessions = (\<lambda>_. None), tp_next = 0, tp_heap = packet_heap, tp_arg = (\<lambda>_. None),
     tp_live = (\<lambda>_. True), tp_fill = (\<lambda>_ _. 0)\<rparr>"

definition sample_accepted :: tcp_proxy where
  "sample_accepted = sample_proxy\<lparr>tp_map := [(sample_key, 0)], tp_sessions := [0 \<mapsto> sample_started], tp_next := 1,
     tp_arg := [7 \<mapsto> 0]\<rparr>"

lemma sample_accept: "listener_accept_func sample_env 7 sample_key ERR_OK sample_proxy = Some (ERR_OK, sample_accepted)"
  by (simp add: listener_accept_func_def TcpHandler_Handle_def TcpSession_SetSocks5ServerEndpoint_def sample_env_def
      sample_proxy_def sample_accepted_def tcp_started_def umap_insert_def umap_find_def Let_def)

lemma sample_reach: "proxy_reach sample_env sample_accepted"
  by (rule reach_accept [OF reach_init sample_accept]) (simp_all add: sample_proxy_def)

lemma sample_find: "umap_find TCP_PCB_EQUAL sample_key (tp_map sample_accepted) = Some 0"
  by (simp add: sample_accepted_def find_key)

theorem tcp_table_sound_witness:
  "\<exists>s. tp_sessions sample_accepted 0 = Some s \<and> ts_pcb_copy s = sample_key"
  using tcp_table_sound [OF sample_reach sample_find] by blast



theorem tcp_err_writes_freed_pcb_witness:
  "tcp_err_func (Some 0) (sample_accepted\<lparr>tp_live := (\<lambda>_. False), tp_heap := packet_heap\<rparr>) = None"
  using tcp_err_writes_freed_pcb [OF reach_lwip [OF sample_reach, of packet_heap "\<lambda>_. False"], of sample_key 0 sample_started] sample_find
  by (simp add: sample_accepted_def started_state)

end
