(* ===== verification/Netif.thy ===== *)
theory Netif
  imports Ip4_Addr Pbuf_Props
begin

text \<open>
  Network interfaces: \<^verbatim>\<open>lwip/core/netif.c\<close>, the interface callbacks of \<^verbatim>\<open>net/lwip_callback.h\<close> and the
  injection of packets into the TUN device of \<^verbatim>\<open>tuntap/tuntaphelper.h\<close>. The record \<open>net\<close> holds the
  globals of the lower half of the stack; the layers above extend it with their own. A pointer to a
  \<^verbatim>\<open>struct netif\<close> is a \<open>netif_ref\<close>. Statistics (\<^verbatim>\<open>LWIP_STATS\<close>, \<^verbatim>\<open>MIB2_STATS\<close>), status callbacks, hints,
  ARP, IGMP and IPv6 are compiled out.
\<close>

subsection \<open>State\<close>

type_synonym netif_ref = nat

text \<open>\<open>netif_list\<close> is the list linked through \<^verbatim>\<open>next\<close>; \<open>tun_writes\<close> are the pbufs whose
  \<^verbatim>\<open>boost::asio::async_write\<close> to the TUN device has been started and not completed, oldest first.\<close>

record net =
  net_heap :: heap
  netifs :: "netif_ref \<Rightarrow> netif"
  netif_list :: "netif_ref list"
  netif_default :: "netif_ref option"
  netif_num :: u8
  ip_id :: u16
  tun_writes :: "addr list"
  plat :: platform

definition set_netif :: "netif_ref \<Rightarrow> netif \<Rightarrow> 'a net_scheme \<Rightarrow> 'a net_scheme" where
  "set_netif r n s = s\<lparr>netifs := (netifs s)(r := n)\<rparr>"

definition NETIF_NO_INDEX :: u8 where "NETIF_NO_INDEX = 0"

definition netif_get_index :: "netif \<Rightarrow> u8" where
  "netif_get_index n = num n + 1"

definition netif_is_up :: "netif \<Rightarrow> bool" where
  "netif_is_up n = (flags n AND NETIF_FLAG_UP \<noteq> 0)"

definition netif_set_flags :: "u8 \<Rightarrow> netif \<Rightarrow> netif" where
  "netif_set_flags fl n = n\<lparr>flags := flags n OR fl\<rparr>"

definition netif_clear_flags :: "u8 \<Rightarrow> netif \<Rightarrow> netif" where
  "netif_clear_flags fl n = n\<lparr>flags := flags n AND (NOT fl AND 0xff)\<rparr>"

subsection \<open>Administration\<close>

text \<open>\<^verbatim>\<open>netif_issue_reports\<close> asserts its argument; the reports themselves belong to ARP and IGMP.\<close>

definition netif_set_default :: "netif_ref option \<Rightarrow> 'a net_scheme \<Rightarrow> 'a net_scheme" where
  "netif_set_default netif s = s\<lparr>netif_default := netif\<rparr>"

definition netif_set_up :: "netif_ref option \<Rightarrow> 'a net_scheme \<Rightarrow> 'a net_scheme" where
  "netif_set_up netif s =
     (case netif of
        None \<Rightarrow> s
      | Some r \<Rightarrow> if flags (netifs s r) AND NETIF_FLAG_UP = 0
                  then set_netif r (netif_set_flags NETIF_FLAG_UP (netifs s r)) s else s)"

definition netif_set_down :: "netif_ref option \<Rightarrow> 'a net_scheme \<Rightarrow> 'a net_scheme" where
  "netif_set_down netif s =
     (case netif of
        None \<Rightarrow> s
      | Some r \<Rightarrow> if flags (netifs s r) AND NETIF_FLAG_UP \<noteq> 0
                  then set_netif r (netif_clear_flags NETIF_FLAG_UP (netifs s r)) s else s)"

definition netif_set_link_up :: "netif_ref option \<Rightarrow> 'a net_scheme \<Rightarrow> 'a net_scheme" where
  "netif_set_link_up netif s =
     (case netif of
        None \<Rightarrow> s
      | Some r \<Rightarrow> if flags (netifs s r) AND NETIF_FLAG_LINK_UP = 0
                  then set_netif r (netif_set_flags NETIF_FLAG_LINK_UP (netifs s r)) s else s)"

definition netif_set_link_down :: "netif_ref option \<Rightarrow> 'a net_scheme \<Rightarrow> 'a net_scheme" where
  "netif_set_link_down netif s =
     (case netif of
        None \<Rightarrow> s
      | Some r \<Rightarrow> if flags (netifs s r) AND NETIF_FLAG_LINK_UP \<noteq> 0
                  then set_netif r (netif_clear_flags NETIF_FLAG_LINK_UP (netifs s r)) s else s)"

subsection \<open>Addresses\<close>

text \<open>\<open>changed old new\<close> stands for \<^verbatim>\<open>netif_do_ip_addr_changed\<close>, which tells the protocols above. The
  result of each setter says whether the address changed.\<close>

definition netif_do_set_ipaddr ::
  "(u32 \<Rightarrow> u32 \<Rightarrow> 'a net_scheme \<Rightarrow> 'a net_scheme option) \<Rightarrow> netif_ref \<Rightarrow> u32 \<Rightarrow> 'a net_scheme \<Rightarrow>
     (bool \<times> 'a net_scheme) option" where
  "netif_do_set_ipaddr changed r ipaddr s =
     (if ipaddr \<noteq> ip_addr (netifs s r) then
        do {
          s \<leftarrow> changed (ip_addr (netifs s r)) ipaddr s;
          Some (True, set_netif r ((netifs s r)\<lparr>ip_addr := ipaddr\<rparr>) s)
        }
      else Some (False, s))"

definition netif_do_set_netmask :: "netif_ref \<Rightarrow> u32 \<Rightarrow> 'a net_scheme \<Rightarrow> bool \<times> 'a net_scheme" where
  "netif_do_set_netmask r nm s =
     (if nm \<noteq> netmask (netifs s r) then (True, set_netif r ((netifs s r)\<lparr>netmask := nm\<rparr>) s) else (False, s))"

definition netif_do_set_gw :: "netif_ref \<Rightarrow> u32 \<Rightarrow> 'a net_scheme \<Rightarrow> bool \<times> 'a net_scheme" where
  "netif_do_set_gw r g s =
     (if g \<noteq> gw (netifs s r) then (True, set_netif r ((netifs s r)\<lparr>gw := g\<rparr>) s) else (False, s))"

definition addr_or_any :: "u32 option \<Rightarrow> u32" where
  "addr_or_any p = (case p of None \<Rightarrow> IPADDR_ANY | Some a \<Rightarrow> a)"

definition netif_set_ipaddr ::
  "(u32 \<Rightarrow> u32 \<Rightarrow> 'a net_scheme \<Rightarrow> 'a net_scheme option) \<Rightarrow> netif_ref option \<Rightarrow> u32 option \<Rightarrow> 'a net_scheme \<Rightarrow>
     'a net_scheme option" where
  "netif_set_ipaddr changed netif ipaddr s =
     (case netif of
        None \<Rightarrow> Some s
      | Some r \<Rightarrow> map_option snd (netif_do_set_ipaddr changed r (addr_or_any ipaddr) s))"

definition netif_set_netmask :: "netif_ref option \<Rightarrow> u32 option \<Rightarrow> 'a net_scheme \<Rightarrow> 'a net_scheme" where
  "netif_set_netmask netif nm s =
     (case netif of None \<Rightarrow> s | Some r \<Rightarrow> snd (netif_do_set_netmask r (addr_or_any nm) s))"

definition netif_set_gw :: "netif_ref option \<Rightarrow> u32 option \<Rightarrow> 'a net_scheme \<Rightarrow> 'a net_scheme" where
  "netif_set_gw netif g s =
     (case netif of None \<Rightarrow> s | Some r \<Rightarrow> snd (netif_do_set_gw r (addr_or_any g) s))"

text \<open>When the address is removed it goes before the netmask and the gateway, otherwise it comes last.\<close>

definition netif_set_addr ::
  "(u32 \<Rightarrow> u32 \<Rightarrow> 'a net_scheme \<Rightarrow> 'a net_scheme option) \<Rightarrow> netif_ref \<Rightarrow> u32 option \<Rightarrow> u32 option \<Rightarrow> u32 option \<Rightarrow>
     'a net_scheme \<Rightarrow> 'a net_scheme option" where
  "netif_set_addr changed r ipaddr nm g s =
     do {
       let ipaddr = addr_or_any ipaddr;
       let removing = (ipaddr = IPADDR_ANY);
       s \<leftarrow> (if removing then map_option snd (netif_do_set_ipaddr changed r ipaddr s) else Some s);
       let s = snd (netif_do_set_netmask r (addr_or_any nm) s);
       let s = snd (netif_do_set_gw r (addr_or_any g) s);
       if \<not> removing then map_option snd (netif_do_set_ipaddr changed r ipaddr s) else Some s
     }"

subsection \<open>Adding and removing interfaces\<close>

text \<open>The search for a number no other interface has: \<open>netif_num_scan\<close> is the \<^verbatim>\<open>for\<close> loop with
  \<^verbatim>\<open>num_netifs\<close> counted in \<open>k\<close>, whose first result says that it broke out; \<open>netif_num_loop\<close> is the
  \<^verbatim>\<open>do ... while\<close> around it, on fuel because it need not end.\<close>

fun netif_num_scan :: "netif_ref \<Rightarrow> u8 \<Rightarrow> nat \<Rightarrow> netif_ref list \<Rightarrow> (netif_ref \<Rightarrow> netif) \<Rightarrow> (bool \<times> u8) option" where
  "netif_num_scan r n k [] ifs = Some (False, n)"
| "netif_num_scan r n k (r2 # rs) ifs =
     (if r2 = r then None
      else if \<not> Suc k \<le> 255 then None
      else if num (ifs r2) = n then Some (True, n + 1)
      else netif_num_scan r n (Suc k) rs ifs)"

fun netif_num_loop :: "nat \<Rightarrow> netif_ref \<Rightarrow> u8 \<Rightarrow> netif_ref list \<Rightarrow> (netif_ref \<Rightarrow> netif) \<Rightarrow> u8 option" where
  "netif_num_loop 0 r n rs ifs = None"
| "netif_num_loop (Suc fuel) r n rs ifs =
     (case netif_num_scan r (if n = 255 then 0 else n) 0 rs ifs of
        None \<Rightarrow> None
      | Some (False, n) \<Rightarrow> Some n
      | Some (True, n) \<Rightarrow> netif_num_loop fuel r n rs ifs)"

text \<open>Enough fuel for every list the loop ends on: see \<open>netif_num_loop_total\<close>.\<close>

definition NETIF_NUM_FUEL :: nat where "NETIF_NUM_FUEL = 256"

definition netif_add ::
  "(u32 \<Rightarrow> u32 \<Rightarrow> 'a net_scheme \<Rightarrow> 'a net_scheme option) \<Rightarrow> netif_ref option \<Rightarrow> u32 option \<Rightarrow> u32 option \<Rightarrow> u32 option \<Rightarrow>
     (netif_ref \<Rightarrow> 'a net_scheme \<Rightarrow> err_t \<times> 'a net_scheme) option \<Rightarrow> 'a net_scheme \<Rightarrow>
     (netif_ref option \<times> 'a net_scheme) option" where
  "netif_add changed netif ipaddr nm g init_cb s =
     (case (netif, init_cb) of
        (Some r, Some init_f) \<Rightarrow>
          do {
            let s = set_netif r ((netifs s r)\<lparr>ip_addr := 0, netmask := 0, gw := 0, output_fn := Null_output_ip4,
                                              mtu := 0, flags := 0, loop_first := None, loop_last := None,
                                              num := netif_num s\<rparr>) s;
            s \<leftarrow> netif_set_addr changed r ipaddr nm g s;
            let (err, s) = init_f r s;
            if err \<noteq> ERR_OK then Some (None, s)
            else do {
              n \<leftarrow> netif_num_loop NETIF_NUM_FUEL r (num (netifs s r)) (netif_list s) (netifs s);
              let s = set_netif r ((netifs s r)\<lparr>num := n\<rparr>) s;
              let s = s\<lparr>netif_num := (if n = 254 then 0 else n + 1), netif_list := r # netif_list s\<rparr>;
              Some (Some r, s)
            }
          }
      | _ \<Rightarrow> Some (None, s))"

definition netif_remove ::
  "(u32 \<Rightarrow> u32 option \<Rightarrow> 'a net_scheme \<Rightarrow> 'a net_scheme option) \<Rightarrow> netif_ref option \<Rightarrow> 'a net_scheme \<Rightarrow> 'a net_scheme option" where
  "netif_remove changed netif s =
     (case netif of
        None \<Rightarrow> Some s
      | Some r \<Rightarrow>
          do {
            s \<leftarrow> (if ip_addr (netifs s r) \<noteq> IPADDR_ANY then changed (ip_addr (netifs s r)) None s else Some s);
            let s = (if netif_is_up (netifs s r) then netif_set_down (Some r) s else s);
            let s = (if netif_default s = Some r then netif_set_default None s else s);
            Some (s\<lparr>netif_list := remove1 r (netif_list s)\<rparr>)
          })"

subsection \<open>Lookup\<close>

definition netif_get_by_index :: "u8 \<Rightarrow> 'a net_scheme \<Rightarrow> netif_ref option" where
  "netif_get_by_index idx s =
     (if idx \<noteq> NETIF_NO_INDEX then find (\<lambda>r. idx = netif_get_index (netifs s r)) (netif_list s) else None)"

text \<open>\<^verbatim>\<open>atoi\<close>: leading white space, an optional sign, decimal digits.\<close>

fun atoi_digits :: "int \<Rightarrow> string \<Rightarrow> int" where
  "atoi_digits acc [] = acc"
| "atoi_digits acc (c # cs) =
     (if lwip_isdigit c then atoi_digits (10 * acc + int (char_code c - 48)) cs else acc)"

definition atoi :: "string \<Rightarrow> int" where
  "atoi cs =
     (case dropWhile lwip_isspace cs of
        [] \<Rightarrow> 0
      | c # ds \<Rightarrow> if c = CHR ''-'' then - atoi_digits 0 ds
                  else if c = CHR ''+'' then atoi_digits 0 ds
                  else atoi_digits 0 (c # ds))"

definition netif_find :: "string option \<Rightarrow> 'a net_scheme \<Rightarrow> netif_ref option" where
  "netif_find nm s =
     (case nm of
        Some (c0 # c1 # digits) \<Rightarrow>
          find (\<lambda>r. of_int (atoi digits) = num (netifs s r) \<and> if_name (netifs s r) = (c0, c1)) (netif_list s)
      | _ \<Rightarrow> None)"

definition netif_name_to_index :: "string \<Rightarrow> 'a net_scheme \<Rightarrow> u8" where
  "netif_name_to_index nm s =
     (case netif_find (Some nm) s of Some r \<Rightarrow> netif_get_index (netifs s r) | None \<Rightarrow> NETIF_NO_INDEX)"

definition NETIF_NAMESIZE :: nat where "NETIF_NAMESIZE = 6"

definition netif_index_to_name :: "u8 \<Rightarrow> 'a net_scheme \<Rightarrow> string option" where
  "netif_index_to_name idx s =
     do {
       r \<leftarrow> netif_get_by_index idx s;
       digits \<leftarrow> lwip_itoa (NETIF_NAMESIZE - 2) (int (unat (idx - 1)));
       Some (fst (if_name (netifs s r)) # snd (if_name (netifs s r)) # digits)
     }"

subsection \<open>Packets to the interface itself\<close>

text \<open>The walk to the last pbuf of the copy, and the queue of \<^verbatim>\<open>netif_loop_output\<close>.\<close>

fun pbuf_last :: "nat \<Rightarrow> addr \<Rightarrow> heap \<Rightarrow> addr option" where
  "pbuf_last 0 a h = None"
| "pbuf_last (Suc fuel) a h =
     do { b \<leftarrow> h_pbuf h a; case p_next b of None \<Rightarrow> Some a | Some q \<Rightarrow> pbuf_last fuel q h }"

definition netif_loop_enqueue :: "netif_ref \<Rightarrow> addr \<Rightarrow> addr \<Rightarrow> 'a net_scheme \<Rightarrow> 'a net_scheme option" where
  "netif_loop_enqueue r q last_q s =
     (let n = netifs s r in
      case loop_first n of
        Some _ \<Rightarrow>
          do {
            tl_q \<leftarrow> loop_last n;
            b \<leftarrow> h_pbuf (net_heap s) tl_q;
            Some (set_netif r (n\<lparr>loop_last := Some last_q\<rparr>)
                   (s\<lparr>net_heap := set_pbuf tl_q (b\<lparr>p_next := Some q\<rparr>) (net_heap s)\<rparr>))
          }
      | None \<Rightarrow> Some (set_netif r (n\<lparr>loop_first := Some q, loop_last := Some last_q\<rparr>) s))"

definition netif_loop_output :: "netif_ref \<Rightarrow> addr \<Rightarrow> 'a net_scheme \<Rightarrow> (err_t \<times> 'a net_scheme) option" where
  "netif_loop_output r p s =
     do {
       b \<leftarrow> h_pbuf (net_heap s) p;
       (q, h) \<leftarrow> pbuf_alloc PBUF_LINK (p_tot_len b) PBUF_RAM (net_heap s);
       (case q of
          None \<Rightarrow> Some (ERR_MEM, s\<lparr>net_heap := h\<rparr>)
        | Some a \<Rightarrow>
            do {
              (err, h) \<leftarrow> pbuf_copy (Some a) (Some p) h;
              if err \<noteq> ERR_OK then
                do { (c, h) \<leftarrow> pbuf_free (Some a) h; Some (err, s\<lparr>net_heap := h\<rparr>) }
              else
                do {
                  last_q \<leftarrow> pbuf_last (walk h) a h;
                  s \<leftarrow> netif_loop_enqueue r a last_q (s\<lparr>net_heap := h\<rparr>);
                  Some (ERR_OK, s)
                }
            })
     }"

subsection \<open>The TUN device\<close>

definition TuntapHelper_Inject :: "addr \<Rightarrow> 'a net_scheme \<Rightarrow> 'a net_scheme" where
  "TuntapHelper_Inject p s = s\<lparr>tun_writes := tun_writes s @ [p]\<rparr>"

text \<open>The completion of the write of \<open>p\<close>; \<open>ec\<close> says whether it failed.\<close>

definition handlerOnTunInjectWithPbuf :: "bool \<Rightarrow> addr \<Rightarrow> 'a net_scheme \<Rightarrow> 'a net_scheme option" where
  "handlerOnTunInjectWithPbuf ec p s =
     (let s = s\<lparr>tun_writes := remove1 p (tun_writes s)\<rparr> in
      if ec then Some s
      else do { (c, h) \<leftarrow> pbuf_free (Some p) (net_heap s); Some (s\<lparr>net_heap := h\<rparr>) })"

definition TUN_IP_OFFSET :: "platform \<Rightarrow> nat" where
  "TUN_IP_OFFSET pf = (case pf of Apple \<Rightarrow> 4 | _ \<Rightarrow> 0)"

definition ADD_TUN_IP_HDR :: "platform \<Rightarrow> addr option \<Rightarrow> heap \<Rightarrow> heap option" where
  "ADD_TUN_IP_HDR pf d h =
     (case pf of
        Apple \<Rightarrow> do { a \<leftarrow> d; b \<leftarrow> h_pbuf h a; mem_write h (p_payload b) 0 (bytes_of32 33554432) }
      | _ \<Rightarrow> Some h)"

text \<open>The loop of \<^verbatim>\<open>netif_output_func\<close> over the chain; the first result is the error to return. The
  bytes of \<open>pp\<close> are read for the call of \<^verbatim>\<open>pbuf_take_at\<close>.\<close>

fun dechain_loop :: "nat \<Rightarrow> platform \<Rightarrow> addr option \<Rightarrow> addr option \<Rightarrow> nat \<Rightarrow> heap \<Rightarrow> (err_t \<times> heap) option" where
  "dechain_loop 0 pf d pp offset h = None"
| "dechain_loop (Suc fuel) pf d None offset h = Some (ERR_OK, h)"
| "dechain_loop (Suc fuel) pf d (Some q) offset h =
     do {
       b \<leftarrow> h_pbuf h q;
       bs \<leftarrow> mem_read h (p_payload b) 0 (unat (p_len b));
       (err, h) \<leftarrow> pbuf_take_at d bs (of_nat (TUN_IP_OFFSET pf + offset)) h;
       if err \<noteq> ERR_OK then Some (ERR_BUF, h)
       else dechain_loop fuel pf d (p_next b) (offset + unat (p_len b)) h
     }"

definition netif_output_func :: "netif_ref \<Rightarrow> addr \<Rightarrow> u32 \<Rightarrow> 'a net_scheme \<Rightarrow> (err_t \<times> 'a net_scheme) option" where
  "netif_output_func netif p ipaddr s =
     do {
       b \<leftarrow> h_pbuf (net_heap s) p;
       (dechained_p, h) \<leftarrow> pbuf_alloc PBUF_IP (of_nat (unat (p_tot_len b) + TUN_IP_OFFSET (plat s))) PBUF_RAM (net_heap s);
       (err, h) \<leftarrow> dechain_loop (walk h) (plat s) dechained_p (Some p) 0 h;
       if err \<noteq> ERR_OK then Some (err, s\<lparr>net_heap := h\<rparr>)
       else do {
         h \<leftarrow> ADD_TUN_IP_HDR (plat s) dechained_p h;
         a \<leftarrow> dechained_p;
         d \<leftarrow> h_pbuf h a;
         if p_len d \<noteq> p_tot_len d then None
         else Some (ERR_OK, TuntapHelper_Inject a (s\<lparr>net_heap := h\<rparr>))
       }
     }"

text \<open>The call \<^verbatim>\<open>netif->output(netif, p, ipaddr)\<close>; \<^verbatim>\<open>netif_loop_output_ipv4\<close> drops the address.\<close>

definition netif_null_output_ip4 :: "netif_ref \<Rightarrow> addr \<Rightarrow> u32 \<Rightarrow> 'a net_scheme \<Rightarrow> (err_t \<times> 'a net_scheme) option" where
  "netif_null_output_ip4 netif p ipaddr s = Some (ERR_IF, s)"

definition netif_loop_output_ipv4 :: "netif_ref \<Rightarrow> addr \<Rightarrow> u32 \<Rightarrow> 'a net_scheme \<Rightarrow> (err_t \<times> 'a net_scheme) option" where
  "netif_loop_output_ipv4 netif p ipaddr s = netif_loop_output netif p s"

definition netif_output :: "netif_ref \<Rightarrow> addr \<Rightarrow> u32 \<Rightarrow> 'a net_scheme \<Rightarrow> (err_t \<times> 'a net_scheme) option" where
  "netif_output netif p ipaddr s =
     (case output_fn (netifs s netif) of
        Null_output_ip4 \<Rightarrow> netif_null_output_ip4 netif p ipaddr s
      | Loop_output_ipv4 \<Rightarrow> netif_loop_output_ipv4 netif p ipaddr s
      | Netif_output_func \<Rightarrow> netif_output_func netif p ipaddr s)"

subsection \<open>Initialisation\<close>

definition netif_loopif_init :: "netif_ref \<Rightarrow> 'a net_scheme \<Rightarrow> err_t \<times> 'a net_scheme" where
  "netif_loopif_init r s =
     (ERR_OK, set_netif r ((netifs s r)\<lparr>if_name := (CHR ''l'', CHR ''o''), output_fn := Loop_output_ipv4\<rparr>) s)"

definition init_fn :: "netif_ref \<Rightarrow> 'a net_scheme \<Rightarrow> err_t \<times> 'a net_scheme" where
  "init_fn r s =
     (ERR_OK, set_netif r ((netifs s r)\<lparr>if_name := (CHR ''2'', CHR ''3''), mtu := 1500, output_fn := Netif_output_func\<rparr>) s)"

definition IP4_ADDR :: "u8 \<Rightarrow> u8 \<Rightarrow> u8 \<Rightarrow> u8 \<Rightarrow> u32" where
  "IP4_ADDR a b c d = PP_HTONL (LWIP_MAKEU32 (ucast a) (ucast b) (ucast c) (ucast d))"

definition loop_netif :: netif_ref where "loop_netif = 0"
definition tun64 :: netif_ref where "tun64 = 1"

definition netif_init ::
  "(u32 \<Rightarrow> u32 \<Rightarrow> 'a net_scheme \<Rightarrow> 'a net_scheme option) \<Rightarrow> 'a net_scheme \<Rightarrow> 'a net_scheme option" where
  "netif_init changed s =
     do {
       let loop_gw = IP4_ADDR 127 0 0 1;
       let loop_ipaddr = IP4_ADDR 127 0 0 1;
       let loop_netmask = IP4_ADDR 255 0 0 0;
       (r, s) \<leftarrow> netif_add changed (Some loop_netif) (Some loop_ipaddr) (Some loop_netmask) (Some loop_gw)
                    (Some netif_loopif_init) s;
       let s = netif_set_link_up (Some loop_netif) s;
       Some (netif_set_up (Some loop_netif) s)
     }"

subsection \<open>Interface numbers\<close>

lemma netif_num_scan_ends:
  assumes "r \<notin> set rs" "k + length rs \<le> 255"
  shows "netif_num_scan r n k rs ifs = Some (if n \<in> num ` (ifs ` set rs) then (True, n + 1) else (False, n))"
  using assms by (induction rs arbitrary: k) auto

text \<open>The numbers the loop tries, one after the other.\<close>

definition tried :: "u8 \<Rightarrow> nat \<Rightarrow> nat" where
  "tried n k = ((if n = 255 then 0 else unat n) + k) mod 255"

lemma tried_Suc: "tried (if n = 255 then 1 else n + 1) k = tried n (Suc k)"
proof -
  have "unat (n + 1) = unat n + 1" if "n \<noteq> 255"
    using that unat_u8_lt [of n] by (simp add: unat_word_ariths word_unat_eq_iff)
  moreover have "unat n = 254" if "n + 1 = 255"
  proof -
    have "n = 255 - 1" using that by (metis add_diff_cancel_right')
    then show ?thesis by simp
  qed
  ultimately show ?thesis by (auto simp: tried_def)
qed

lemma netif_num_loop_None:
  assumes "r \<notin> set rs" "length rs \<le> 255" "netif_num_loop fuel r n rs ifs = None" "k < fuel"
  shows "tried n k \<in> (\<lambda>x. unat (num (ifs x))) ` set rs"
  using assms(3,4)
proof (induction fuel arbitrary: n k)
  case (Suc fuel)
  let ?m = "if n = 255 then 0 else n"
  have scan: "netif_num_scan r ?m 0 rs ifs = Some (if ?m \<in> num ` (ifs ` set rs) then (True, ?m + 1) else (False, ?m))"
    using netif_num_scan_ends [OF assms(1), of 0 ?m ifs] assms(2) by simp
  then have m: "?m \<in> num ` (ifs ` set rs)" and loop: "netif_num_loop fuel r (?m + 1) rs ifs = None"
    using Suc.prems(1) by (auto split: if_splits)
  show ?case
  proof (cases k)
    case 0
    have "tried n 0 = unat ?m"
      using unat_u8_lt [of n] by (auto simp: tried_def word_unat_eq_iff)
    then have "tried n k = unat ?m" using 0 by simp
    moreover obtain x where "x \<in> set rs" "?m = num (ifs x)" using m by blast
    ultimately have "tried n k = unat (num (ifs x))" by (simp only:)
    then show ?thesis using \<open>x \<in> set rs\<close> by (rule image_eqI)
  next
    case (Suc j)
    have "?m + 1 = (if n = 255 then 1 else n + 1)" by simp
    then show ?thesis using Suc.IH [OF loop, of j] tried_Suc [of n j] Suc Suc.prems(2) by auto
  qed
qed simp

lemma netif_num_loop_Some:
  assumes "r \<notin> set rs" "length rs \<le> 255" "netif_num_loop fuel r n rs ifs = Some m"
  shows "m \<noteq> 255 \<and> m \<notin> num ` (ifs ` set rs)"
  using assms(3)
proof (induction fuel arbitrary: n)
  case (Suc fuel)
  then show ?case
    using netif_num_scan_ends [OF assms(1), of 0 _ ifs] assms(2) by (auto split: if_splits)
qed simp

lemma netif_num_loop_total:
  assumes "r \<notin> set rs" "length rs < 255" "255 \<le> fuel"
  shows "\<exists>m. netif_num_loop fuel r n rs ifs = Some m \<and> m \<noteq> 255 \<and> m \<notin> num ` (ifs ` set rs)"
proof (cases "netif_num_loop fuel r n rs ifs")
  case None
  have "tried n ` {..<255} \<subseteq> (\<lambda>x. unat (num (ifs x))) ` set rs"
    using netif_num_loop_None [OF assms(1) _ None] assms(2,3) by fastforce
  moreover have "x = y" if xy: "x \<le> y" "y < 255" "tried n x = tried n y" for x y
  proof -
    let ?c = "if n = 255 then 0 else unat n"
    have "255 dvd (?c + y) - (?c + x)"
      using xy by (subst mod_eq_dvd_iff_nat [symmetric]) (simp_all only: tried_def add_le_cancel_left)
    then have "255 dvd y - x" by (simp only: add_diff_cancel_left)
    then show ?thesis using xy(1,2) by (metis dvd_imp_le diff_is_0_eq le_antisym less_imp_diff_less not_less zero_less_diff)
  qed
  then have "inj_on (tried n) {..<255}" by (intro inj_onI) (metis lessThan_iff linear)
  ultimately have "255 \<le> card ((\<lambda>x. unat (num (ifs x))) ` set rs)"
    by (metis card_image card_lessThan card_mono finite_imageI finite_set)
  then have "255 \<le> card (set rs)" using card_image_le [of "set rs"] by (meson finite_set le_trans)
  then show ?thesis using card_length [of rs] assms(2) by linarith
next
  case (Some m)
  then show ?thesis using netif_num_loop_Some [OF assms(1) _ Some] assms(2) by simp
qed

text \<open>When every number is taken the loop runs forever: with 255 interfaces the assertion on their count
  does not stop it.\<close>

lemma netif_num_loop_full:
  assumes "r \<notin> set rs" "length rs \<le> 255" "UNIV - {255} \<subseteq> num ` (ifs ` set rs)"
  shows "netif_num_loop fuel r n rs ifs = None"
proof (induction fuel arbitrary: n)
  case (Suc fuel)
  let ?m = "if n = 255 then 0 else n"
  have "?m \<in> UNIV - {255}" by simp
  then have "?m \<in> num ` (ifs ` set rs)" using assms(3) by (rule rev_subsetD)
  then have "netif_num_scan r ?m 0 rs ifs = Some (True, ?m + 1)"
    using netif_num_scan_ends [OF assms(1), of 0 ?m ifs] assms(2) by (simp only: if_True add_0)
  then show ?case using Suc by simp
qed simp

subsection \<open>Flattening a chain\<close>

lemma pbuf_skip_single:
  assumes "h_pbuf h d = Some b" "unat off < unat (p_len b)" 
  shows "pbuf_skip (Some d) off h = Some (Some d, off)"
  using assms by (simp add: pbuf_skip_def pbuf_skip_const_def walk_def word_less_nat_alt word_le_nat_alt)

lemma pbuf_take_at_single:
  assumes "h_pbuf h d = Some b" "pay_ok h b" "p_tot_len b = p_len b"
    "unat off < unat (p_len b)" "unat off + length bs \<le> unat (p_len b)"
  shows "\<exists>h'. pbuf_take_at (Some d) bs off h = Some (ERR_OK, h') \<and>
    pdata h' b = overwrite (unat off) bs (pdata h b) \<and> mem_frame {map_option fst (p_payload b)} h h'"
proof -
  obtain h' where "mem_write h (p_payload b) (unat off) bs = Some h'"
    "pdata h' b = overwrite (unat off) bs (pdata h b)" "mem_frame {map_option fst (p_payload b)} h h'"
    using mem_write_pdata [OF assms(2,5)] by blast
  then show ?thesis
    using assms pbuf_skip_single [OF assms(1,4)]
    by (simp add: pbuf_take_at_def word_less_nat_alt Let_def)
qed

lemma dechain_loop_chain:
  assumes "pchain h pp as" "h_pbuf h d = Some b" "pay_ok h b" "p_tot_len b = p_len b"
    "map_option fst (p_payload b) \<notin> block h ` set as" "no_empty h as"
    "TUN_IP_OFFSET pf + offset + length (cdata h as) \<le> unat (p_len b)" "length as < fuel"
  shows "\<exists>h'. dechain_loop fuel pf (Some d) pp offset h = Some (ERR_OK, h') \<and>
    pdata h' b = overwrite (TUN_IP_OFFSET pf + offset) (cdata h as) (pdata h b) \<and>
    mem_frame {map_option fst (p_payload b)} h h'"
  using assms
proof (induction as arbitrary: pp offset h fuel)
  case Nil
  then show ?case by (cases fuel) (auto simp: mem_frame_refl)
next
  case (Cons a as)
  let ?B = "{map_option fst (p_payload b)}" and ?off = "TUN_IP_OFFSET pf + offset"
  obtain f where fuel: "fuel = Suc f" "length as < f" using Cons.prems(8) by (cases fuel) auto
  obtain c where c: "pp = Some a" "h_pbuf h a = Some c" "pay_ok h c" "pchain h (p_next c) as" "adata h a = pdata h c"
    "length (pdata h c) = unat (p_len c)"
    using Cons.prems(1) by (rule pchain_ConsE)
  have rd: "mem_read h (p_payload c) 0 (unat (p_len c)) = Some (pdata h c)"
    using mem_read_pdata [OF c(3), of 0 "unat (p_len c)"] c(6) by (simp add: slice_def)
  have "pdata h c \<noteq> []" using Cons.prems(6) c(5) by (auto simp: no_empty_def)
  then have ne: "0 < unat (p_len c)" using c(6) by (metis length_greater_0_conv)
  have off: "unat (of_nat ?off :: u16) = ?off"
    using Cons.prems(7) unat_u16_lt [of "p_len b"] by (simp add: unat_of_nat del: of_nat_add)
  have len: "?off < unat (p_len b)" "?off + length (pdata h c) \<le> unat (p_len b)"
    using Cons.prems(7) c(5,6) ne by simp_all
  obtain h1 where h1: "pbuf_take_at (Some d) (pdata h c) (of_nat ?off) h = Some (ERR_OK, h1)"
    "pdata h1 b = overwrite ?off (pdata h c) (pdata h b)" "mem_frame ?B h h1"
    using pbuf_take_at_single [OF Cons.prems(2,3,4), of "of_nat ?off" "pdata h c"] off len by auto
  have so: "same_on as h h1" using mem_frame_same_on [OF h1(3)] Cons.prems(5) by auto
  have cd: "cdata h1 as = cdata h as" using cdata_same_on [OF so] .
  have hp: "h_pbuf h1 = h_pbuf h" using h1(3) by (simp add: mem_frame_def)
  then have blk: "block h1 = block h" by (simp add: block_def fun_eq_iff)
  have "no_empty h1 as" using Cons.prems(6) so adata_same_on by (auto simp: no_empty_def)
  then obtain h2 where h2: "dechain_loop f pf (Some d) (p_next c) (offset + unat (p_len c)) h1 = Some (ERR_OK, h2)"
    "pdata h2 b = overwrite (?off + unat (p_len c)) (cdata h as) (pdata h1 b)" "mem_frame ?B h1 h2"
    using Cons.IH [of h1 "p_next c" "offset + unat (p_len c)" f] pchain_same_on [OF c(4) so] Cons.prems(2,3,4,5,7)
      mem_frame_pay_ok [OF h1(3) Cons.prems(3)] hp blk cd c(5,6) fuel(2)
    by (auto simp: add.assoc)
  have "overwrite (?off + unat (p_len c)) (cdata h as) (overwrite ?off (pdata h c) (pdata h b)) =
      overwrite ?off (pdata h c @ cdata h as) (pdata h b)"
    using Cons.prems(7) c(5,6) length_pdata [OF Cons.prems(3)]
    by (intro nth_equalityI) (auto simp: nth_overwrite nth_append)
  then show ?case
    using c(1,2,5) fuel(1) rd h1 h2 mem_frame_trans [OF h1(3) h2(3)] by simp
qed

text \<open>The address family word that macOS puts before each packet.\<close>

definition tun_prefix :: "platform \<Rightarrow> bytes" where
  "tun_prefix pf = (case pf of Apple \<Rightarrow> [0, 0, 0, 2] | _ \<Rightarrow> [])"

lemma length_tun_prefix [simp]: "length (tun_prefix pf) = TUN_IP_OFFSET pf"
  by (cases pf) (simp_all add: tun_prefix_def TUN_IP_OFFSET_def)

lemma ADD_TUN_IP_HDR_single:
  assumes "h_pbuf h d = Some b" "pay_ok h b" "TUN_IP_OFFSET pf \<le> unat (p_len b)"
  shows "\<exists>h'. ADD_TUN_IP_HDR pf (Some d) h = Some h' \<and> pdata h' b = overwrite 0 (tun_prefix pf) (pdata h b) \<and>
    mem_frame {map_option fst (p_payload b)} h h'"
proof (cases pf)
  case Apple
  have "bytes_of32 33554432 = tun_prefix pf"
    by (simp add: Apple tun_prefix_def bytes_of32_def byte_of32_def)
  then show ?thesis
    using mem_write_pdata [OF assms(2), of 0 "tun_prefix pf"] assms(1,3) Apple by (auto simp: ADD_TUN_IP_HDR_def)
qed (simp_all add: ADD_TUN_IP_HDR_def tun_prefix_def mem_frame_refl)

lemma pbuf_alloc_ram_next: "pbuf_alloc l n PBUF_RAM h = Some (Some a, h') \<Longrightarrow> h_next h' = Suc (h_next h)"
  by (auto simp: pbuf_alloc_def mem_malloc_def Let_def split: if_splits)

text \<open>What the device is given for a chain: one pbuf with the platform's prefix and all the bytes, while
  the chain itself stays as it is.\<close>

lemma netif_output_func_chain:
  assumes h: "heap_ok (net_heap s)" "pchain (net_heap s) (Some p) as" "blocks_live (net_heap s) as"
    "no_empty (net_heap s) as" "\<not> h_fail (net_heap s) (h_next (net_heap s))"
    and n: "34 + TUN_IP_OFFSET (plat s) + length (cdata (net_heap s) as) < 65536"
  shows "\<exists>h' b. netif_output_func r p dest s = Some (ERR_OK, TuntapHelper_Inject (h_next (net_heap s)) (s\<lparr>net_heap := h'\<rparr>)) \<and>
    heap_ok h' \<and> extends (net_heap s) h' \<and> h_next h' = Suc (h_next (net_heap s)) \<and>
    h_pbuf h' (h_next (net_heap s)) = Some b \<and> p_next b = None \<and> p_ref b = 1 \<and> freeable b \<and>
    pchain h' (Some (h_next (net_heap s))) [h_next (net_heap s)] \<and>
    adata h' (h_next (net_heap s)) = tun_prefix (plat s) @ cdata (net_heap s) as"
proof -
  let ?h = "net_heap s" and ?o = "TUN_IP_OFFSET (plat s)"
  let ?d = "h_next ?h"
  obtain a as' where as: "as = a # as'" using h(2) by (cases as) auto
  obtain pb where pb: "h_pbuf ?h p = Some pb" "unat (p_tot_len pb) = length (cdata ?h as)"
    using h(2) by (cases as) (auto split: option.splits)
  let ?n = "of_nat (unat (p_tot_len pb) + ?o) :: u16"
  have un: "unat ?n = ?o + length (cdata ?h as)" using n pb(2) by (simp add: unat_of_nat del: of_nat_add)
  obtain h1 b where a: "pbuf_alloc PBUF_IP ?n PBUF_RAM ?h = Some (Some ?d, h1)" "heap_ok h1" "extends ?h h1"
    "pchain h1 (Some ?d) [?d]" "length (cdata h1 [?d]) = unat ?n" "h_pbuf h1 ?d = Some b"
    "p_payload b = Some (?d, int (unat (layer_offset PBUF_IP)))" "p_len b = ?n" "p_ref b = 1" "p_type b = 0x80"
    "p_flags b = 0" "p_next b = None"
    using pbuf_alloc_ram_chain [OF h(1,5), of PBUF_IP ?n] n un by auto
  note nx = pbuf_alloc_ram_next [OF a(1)]
  have b: "pay_ok h1 b" "p_tot_len b = p_len b" using a(4,5,6,8) by (auto simp: word_unat_eq_iff)
  have c: "pchain h1 (Some p) as" "cdata h1 as = cdata ?h as" using pchain_extends [OF h(1) a(3) h(2,3)] .
  have live: "x < ?d" if "x \<in> set as" for x
    using pchain_live [OF h(2) that] h(1) by (auto simp: heap_ok_def not_less [symmetric])
  have so: "same_on as ?h h1" using live a(3) h(3) by (simp add: same_on_def extends_def blocks_live_def)
  have blk: "map_option fst (p_payload b) \<notin> block h1 ` set as"
  proof
    assume "map_option fst (p_payload b) \<in> block h1 ` set as"
    then obtain x where x: "x \<in> set as" "block h1 x = Some ?d" using a(7) by auto
    then have "block ?h x = Some ?d" using live [OF x(1)] a(3) by (simp add: block_def extends_def)
    then show False using h(3) x(1) by (auto simp: blocks_live_def)
  qed
  have ne: "no_empty h1 as" using h(4) adata_same_on [OF so] by (simp add: no_empty_def)
  obtain h2 where h2: "dechain_loop (walk h1) (plat s) (Some ?d) (Some p) 0 h1 = Some (ERR_OK, h2)"
    "pdata h2 b = overwrite ?o (cdata ?h as) (pdata h1 b)" "mem_frame {map_option fst (p_payload b)} h1 h2"
    using dechain_loop_chain [OF c(1) a(6) b blk ne, of "plat s" 0 "walk h1"] pchain_fuel [OF a(2) c(1)] un a(8) c(2) by auto
  have b2: "h_pbuf h2 ?d = Some b" "pay_ok h2 b"
    using h2(3) a(6) mem_frame_pay_ok [OF h2(3) b(1)] by (simp_all add: mem_frame_def)
  obtain h3 where h3: "ADD_TUN_IP_HDR (plat s) (Some ?d) h2 = Some h3"
    "pdata h3 b = overwrite 0 (tun_prefix (plat s)) (pdata h2 b)" "mem_frame {map_option fst (p_payload b)} h2 h3"
    using ADD_TUN_IP_HDR_single [OF b2, of "plat s"] un a(8) by auto
  have fr: "mem_frame {Some ?d} h1 h3" using mem_frame_trans [OF h2(3) h3(3)] a(7) by simp
  then have hp: "h_pbuf h3 ?d = Some b" using a(6) by (simp add: mem_frame_def)
  have "netif_output_func r p dest s = Some (ERR_OK, TuntapHelper_Inject ?d (s\<lparr>net_heap := h3\<rparr>))"
    using pb(1) a(1) h2(1) h3(1) hp b(2) by (simp add: netif_output_func_def)
  moreover have "extends ?h h3" using fr a(3) by (auto simp: mem_frame_def extends_def)
  moreover have "pdata h3 b = tun_prefix (plat s) @ cdata ?h as"
    using h3(2) h2(2) length_pdata [OF b(1)] un a(8)
    by (simp add: overwrite_def)
  ultimately show ?thesis
    using hp a(9-12) nx mem_frame_heap_ok [OF fr a(2)] pchain_mem_frame [OF fr a(4)] fr
    by (auto simp: freeable_def pbuf_get_allocsrc_def PBUF_TYPE_ALLOC_SRC_MASK_def PBUF_FLAG_IS_CUSTOM_def
      PBUF_TYPE_ALLOC_SRC_MASK_STD_HEAP_def mem_frame_def)
qed

lemma tun_write_done:
  assumes h: "heap_ok h" "extends h h'" "heap_ok h'" "h_next h' = Suc (h_next h)" "h_pbuf h' (h_next h) = Some b" "p_ref b = 1"
    "freeable b" "pchain h' (Some (h_next h)) [h_next h]"
  shows "\<exists>h''. pbuf_free (Some (h_next h)) h' = Some (1, h'') \<and> h_pbuf h'' = h_pbuf h \<and> h_mem h'' = h_mem h"
proof -
  let ?d = "h_next h"
  have f: "all_freeable h' [?d]" "released h' [?d] = [?d]"
    using h(5-7) by (simp_all add: all_freeable_def released_def ref_of_def)
  have r: "h_pbuf (release [?d] h') x = (if x = ?d then None else h_pbuf h' x)"
    "h_mem (release [?d] h') x = (if x = ?d then None else h_mem h' x)" for x
    using release_effect [of "[?d]" h'] f by auto
  have o: "h_pbuf h' x = h_pbuf h x \<and> h_mem h' x = h_mem h x" if "x \<noteq> ?d" for x
    using h(1-4) that by (cases "x < ?d") (auto simp: extends_def heap_ok_def)
  have d: "h_pbuf h ?d = None" "h_mem h ?d = None" using h(1) by (simp_all add: heap_ok_def)
  have "h_pbuf (release [?d] h') = h_pbuf h" "h_mem (release [?d] h') = h_mem h"
    using r o d by (auto simp: fun_eq_iff)
  then show ?thesis using pbuf_free_chain [OF h(3,8) _ f(1)] f(2) by simp
qed

definition numbered_netif :: "u8 \<Rightarrow> netif" where
  "numbered_netif n = \<lparr>ip_addr = 0, netmask = 0, gw = 0, output_fn = Null_output_ip4, mtu = 0, flags = 0, if_name = (CHR ''e'', CHR ''n''),
     num = n, loop_first = None, loop_last = None\<rparr>"

lemma num_numbered_netif [simp]: "num (numbered_netif n) = n"
  by (simp add: numbered_netif_def)

subsection \<open>Properties\<close>

text \<open>the search for a number for a new interface ends when fewer than 255 interfaces exist, within 255
  rounds, with a number below 255 that none of them has.\<close>

theorem netif_numbering_ends:
  assumes "r \<notin> set rs" "length rs < 255" "255 \<le> fuel"
  shows "\<exists>m. netif_num_loop fuel r n rs ifs = Some m \<and> m \<noteq> 255 \<and> m \<notin> num ` (ifs ` set rs)"
  by (rule netif_num_loop_total [OF assms])

theorem netif_numbering_ends_witness:
  "\<exists>m. netif_num_loop 255 2 0 [0, 1] (\<lambda>_. numbered_netif 0) = Some m \<and> m \<noteq> 0"
  using netif_numbering_ends [of 2 "[0, 1]" 255 0 "\<lambda>_. numbered_netif 0"] by auto

text \<open>with 255 interfaces whose numbers are all the numbers the search may give out, it never ends, whatever
  the number it starts from. The assertion in the loop allows 255 interfaces.\<close>

theorem netif_numbering_diverges:
  assumes "r \<notin> set rs" "length rs = 255" "UNIV - {255} \<subseteq> num ` (ifs ` set rs)"
  shows "netif_num_loop fuel r n rs ifs = None"
  using netif_num_loop_full [OF assms(1) _ assms(3)] assms(2) by simp

theorem netif_numbering_diverges_witness:
  "netif_num_loop 1000 300 0 [0..<255] (\<lambda>x. numbered_netif (of_nat x)) = None"
proof (rule netif_numbering_diverges)
  show "UNIV - {255} \<subseteq> num ` (\<lambda>x. numbered_netif (of_nat x)) ` set [0..<255]"
  proof
    fix w :: u8 assume "w \<in> UNIV - {255}"
    then have "unat w < 255" using unat_u8_le [of w] by (auto simp: word_unat_eq_iff order_less_le)
    then show "w \<in> num ` (\<lambda>x. numbered_netif (of_nat x)) ` set [0..<255]"
      by (simp only: image_image num_numbered_netif) (intro image_eqI [of _ _ "unat w"]; simp)
  qed
qed simp_all

text \<open>C5: a packet of any number of pbufs is written to the device in one piece, with the bytes of the whole chain in
  order behind the platform's prefix; the chain itself is unchanged, and when the write has completed
  the copy is freed and the heap is as it was before.\<close>

theorem tun_output_flattens:
  assumes h: "heap_ok (net_heap s)" "pchain (net_heap s) (Some p) as" "blocks_live (net_heap s) as"
    "no_empty (net_heap s) as" "\<not> h_fail (net_heap s) (h_next (net_heap s))" "h_next (net_heap s) \<notin> set (tun_writes s)"
    and n: "34 + TUN_IP_OFFSET (plat s) + length (cdata (net_heap s) as) < 65536"
  shows "\<exists>s' d s''. netif_output_func r p dest s = Some (ERR_OK, s') \<and> tun_writes s' = tun_writes s @ [d] \<and>
    adata (net_heap s') d = tun_prefix (plat s) @ cdata (net_heap s) as \<and> extends (net_heap s) (net_heap s') \<and>
    handlerOnTunInjectWithPbuf False d s' = Some s'' \<and> tun_writes s'' = tun_writes s \<and>
    h_pbuf (net_heap s'') = h_pbuf (net_heap s) \<and> h_mem (net_heap s'') = h_mem (net_heap s)"
proof -
  let ?h = "net_heap s"
  obtain h' b where o: "netif_output_func r p dest s = Some (ERR_OK, TuntapHelper_Inject (h_next ?h) (s\<lparr>net_heap := h'\<rparr>))"
    "heap_ok h'" "extends ?h h'" "h_next h' = Suc (h_next ?h)" "h_pbuf h' (h_next ?h) = Some b" "p_ref b = 1" "freeable b"
    "pchain h' (Some (h_next ?h)) [h_next ?h]" "adata h' (h_next ?h) = tun_prefix (plat s) @ cdata ?h as"
    using netif_output_func_chain [OF h(1-5) n, of r dest] by blast
  obtain h'' where "pbuf_free (Some (h_next ?h)) h' = Some (1, h'')" "h_pbuf h'' = h_pbuf ?h" "h_mem h'' = h_mem ?h"
    using tun_write_done [OF h(1) o(3,2,4-8)] by blast
  moreover have "remove1 (h_next ?h) (tun_writes s @ [h_next ?h]) = tun_writes s"
    using h(6) by (simp add: remove1_append remove1_idem)
  ultimately show ?thesis
    using o(1,3,9) by (simp add: TuntapHelper_Inject_def handlerOnTunInjectWithPbuf_def Let_def)
qed

definition sample_net :: net where
  "sample_net = \<lparr>net_heap = sample_heap, netifs = (\<lambda>_. numbered_netif 0), netif_list = [], netif_default = None, netif_num = 0,
     ip_id = 0, tun_writes = [], plat = Apple\<rparr>"

theorem tun_output_flattens_witness:
  "\<exists>s' d s''. netif_output_func 0 0 0 sample_net = Some (ERR_OK, s') \<and> adata (net_heap s') d = [0, 0, 0, 2, 1, 2, 3, 4, 5] \<and>
    handlerOnTunInjectWithPbuf False d s' = Some s'' \<and> h_pbuf (net_heap s'') = h_pbuf sample_heap"
proof -
  have "34 + TUN_IP_OFFSET (plat sample_net) + length (cdata sample_heap [0, 1]) < 65536"
    unfolding sample_chain(4) by (simp add: sample_net_def TUN_IP_OFFSET_def)
  moreover have s: "net_heap sample_net = sample_heap" "tun_prefix (plat sample_net) = [0, 0, 0, 2]" "tun_writes sample_net = []"
    by (simp_all add: sample_net_def tun_prefix_def)
  ultimately obtain s' d s'' where "netif_output_func 0 0 0 sample_net = Some (ERR_OK, s')"
      "adata (net_heap s') d = tun_prefix (plat sample_net) @ cdata sample_heap [0, 1]"
      "handlerOnTunInjectWithPbuf False d s' = Some s''" "h_pbuf (net_heap s'') = h_pbuf sample_heap"
    using tun_output_flattens [of sample_net 0 "[0, 1]" 0 0] sample_chain(1,2,8,9) sample_fields(2) by (simp only: s) auto
  then show ?thesis unfolding s(2) sample_chain(4) by auto
qed

end
