(* ===== verification/Pbuf_Ram.thy ===== *)
theory Pbuf_Ram
  imports Pbuf_Ops
begin

text \<open>
  Packets in one piece. \<open>ram a pre data post h\<close> is the heap \<open>h\<close> with a \<^verbatim>\<open>PBUF_RAM\<close> pbuf of one reference at \<open>a\<close>
  whose block holds \<open>pre\<close> (the room for headers), the payload \<open>data\<close> and \<open>post\<close>. The operations of
  \<^verbatim>\<open>pbuf.c\<close> on such a packet are given as equations on this normal form, collected in \<open>ram_simps\<close>, so that
  straight-line packet code is evaluated by rewriting.
\<close>

named_theorems ram_simps \<open>pbuf operations on a packet in one piece\<close>

definition ram_struct :: "addr \<Rightarrow> nat \<Rightarrow> nat \<Rightarrow> pbuf" where
  "ram_struct a room n = pbuf_init_alloced_pbuf (Some (a, int room)) (of_nat n) (of_nat n) PBUF_RAM 0"

definition ram :: "addr \<Rightarrow> bytes \<Rightarrow> bytes \<Rightarrow> bytes \<Rightarrow> heap \<Rightarrow> heap" where
  "ram a pre data post h = set_pbuf a (ram_struct a (length pre) (length data)) (set_mem a (pre @ data @ post) h)"

lemma ram_struct_simps [simp]:
  "p_next (ram_struct a r n) = None" "p_payload (ram_struct a r n) = Some (a, int r)"
  "p_tot_len (ram_struct a r n) = of_nat n" "p_len (ram_struct a r n) = of_nat n"
  "p_type (ram_struct a r n) = 0x80" "p_flags (ram_struct a r n) = 0" "p_ref (ram_struct a r n) = 1"
  by (simp_all add: ram_struct_def pbuf_init_alloced_pbuf_def)

lemma ram_struct_eqI:
  "p_payload b = Some (a, int r) \<Longrightarrow> p_tot_len b = of_nat n \<Longrightarrow> p_len b = of_nat n \<Longrightarrow>
   b\<lparr>p_payload := None, p_tot_len := 0, p_len := 0\<rparr> = (ram_struct a r n)\<lparr>p_payload := None, p_tot_len := 0, p_len := 0\<rparr> \<Longrightarrow>
   b = ram_struct a r n"
  by (cases b) (simp add: ram_struct_def pbuf_init_alloced_pbuf_def)

lemma ram_sel [simp]:
  "h_pbuf (ram a pre data post h) = (h_pbuf h)(a \<mapsto> ram_struct a (length pre) (length data))"
  "h_mem (ram a pre data post h) = (h_mem h)(a \<mapsto> pre @ data @ post)"
  "h_next (ram a pre data post h) = h_next h" "h_fail (ram a pre data post h) = h_fail h"
  "h_fill (ram a pre data post h) = h_fill h" "walk (ram a pre data post h) = walk h"
  by (simp_all add: ram_def set_pbuf_def set_mem_def walk_def)

lemma ram_ram [simp]: "ram a pre data post (ram a pre' data' post' h) = ram a pre data post h"
  by (simp add: ram_def set_pbuf_def set_mem_def)

lemma mem_free_ram [simp]: "mem_free a (ram a pre data post h) = mem_free a h"
  by (simp add: ram_def set_pbuf_def set_mem_def mem_free_def)

lemma ram_commute: "a \<noteq> b \<Longrightarrow> ram a p d q (ram b p' d' q' h) = ram b p' d' q' (ram a p d q h)"
  by (simp add: ram_def set_pbuf_def set_mem_def fun_upd_twist)

lemma mem_free_ram_other: "a \<noteq> b \<Longrightarrow> mem_free b (ram a p d q h) = ram a p d q (mem_free b h)"
  by (simp add: ram_def set_pbuf_def set_mem_def mem_free_def fun_upd_twist)

lemma ram_split_eq:
  "pre @ data @ post = pre' @ data' @ post' \<Longrightarrow>
   ram a pre data post h = set_pbuf a (ram_struct a (length pre) (length data)) (set_mem a (pre' @ data' @ post') h)"
  by (simp add: ram_def)

lemma heap_ok_ram: "heap_ok h \<Longrightarrow> a < h_next h \<Longrightarrow> heap_ok (ram a pre data post h)"
  by (auto simp: heap_ok_def)

lemma take_drop_append [simp]: "take k xs @ drop k xs @ ys = xs @ ys"
  by (simp flip: append_assoc)

subsection \<open>Reading and writing\<close>

lemma mem_read_ram [ram_simps]:
  assumes "p = Some (a, int k)" "k + off + n \<le> length (pre @ data @ post)"
  shows "mem_read (ram a pre data post h) p off n = Some (slice (k + off) n (pre @ data @ post))"
proof -
  have "nat (int k + int off) = k + off" by simp
  then show ?thesis using assms by (cases "n = 0") (simp_all add: mem_read_def slice_def)
qed

lemma mem_write_ram [ram_simps]:
  assumes "length pre \<le> k" "k + off + length ys \<le> length (pre @ data)"
  shows "mem_write (ram a pre data post h) (Some (a, int k)) off ys =
    Some (ram a pre (overwrite (k - length pre + off) ys data) post h)"
proof (cases "ys = []")
  case False
  have n: "nat (int k + int off) = k + off" by simp
  have "overwrite (k + off) ys (pre @ data @ post) = pre @ overwrite (k - length pre + off) ys data @ post"
    using assms by (simp add: overwrite_def take_append drop_append)
  then show ?thesis
    using False assms n by (simp add: mem_write_def ram_def set_pbuf_def set_mem_def)
qed (simp add: mem_write_def)

lemma mem_write_ram_payload [ram_simps]:
  "off + length ys \<le> length data \<Longrightarrow>
   mem_write (ram a pre data post h) (Some (a, int (length pre))) off ys = Some (ram a pre (overwrite off ys data) post h)"
  by (subst mem_write_ram) simp_all

lemma mem_read_ram_payload [ram_simps]:
  "off + n \<le> length data \<Longrightarrow>
   mem_read (ram a pre data post h) (Some (a, int (length pre))) off n = Some (slice off n data)"
  by (subst mem_read_ram [OF refl]) (simp_all add: slice_def)

subsection \<open>Headers\<close>

lemma pbuf_remove_header_ram [ram_simps]:
  assumes "k \<le> length data" "length data < 65536"
  shows "pbuf_remove_header (Some a) k (ram a pre data post h) = Some (0, ram a (pre @ take k data) (drop k data) post h)"
proof -
  have "(of_nat (length data) - of_nat k :: u16) = of_nat (length data - k)" using assms by simp
  moreover have "unat (of_nat k :: u16) = k" "unat (of_nat (length data) :: u16) = length data"
    using assms by (simp_all add: unat_of_nat)
  ultimately show ?thesis
    using assms by (auto simp: pbuf_remove_header_def word_le_nat_alt ram_def set_pbuf_def set_mem_def min_def advance_def
      ram_struct_def pbuf_init_alloced_pbuf_def Let_def)
qed

lemma pbuf_add_header_ram [ram_simps]:
  assumes "k = length mid" "k + length data < 65536"
  shows "pbuf_add_header (Some a) k (ram a (pre @ mid) data post h) = Some (0, ram a pre (mid @ data) post h)"
proof (cases "k = 0")
  case False
  have u: "unat (of_nat k + of_nat (length data) :: u16) = k + length data"
    using assms(2) by (simp add: unat_of_nat flip: of_nat_add)
  have "\<not> of_nat k + of_nat (length data) < (of_nat k :: u16)"
    using u assms by (simp add: word_less_nat_alt unat_of_nat)
  moreover have "(0x80 :: u8) \<noteq> 0" by (subst word_unat_eq_iff) simp
  ultimately show ?thesis
    using False assms by (simp add: pbuf_add_header_def pbuf_add_header_impl_def advance_def Let_def
      PBUF_TYPE_FLAG_STRUCT_DATA_CONTIGUOUS_def ram_def set_pbuf_def set_mem_def ram_struct_def pbuf_init_alloced_pbuf_def
      add.commute)
qed (use assms in \<open>simp add: pbuf_add_header_def pbuf_add_header_impl_def\<close>)

text \<open>No room: the packet stays as it is.\<close>

lemma pbuf_add_header_ram_short:
  assumes "length pre < k" "k + length data < 65536"
  shows "pbuf_add_header (Some a) k (ram a pre data post h) = Some (1, ram a pre data post h)"
proof -
  have u: "unat (of_nat k + of_nat (length data) :: u16) = k + length data"
    using assms(2) by (simp add: unat_of_nat flip: of_nat_add)
  have "\<not> of_nat k + of_nat (length data) < (of_nat k :: u16)"
    using u assms by (simp add: word_less_nat_alt unat_of_nat)
  then show ?thesis
    using assms by (simp add: pbuf_add_header_def pbuf_add_header_impl_def advance_def Let_def
      PBUF_TYPE_FLAG_STRUCT_DATA_CONTIGUOUS_def)
qed

subsection \<open>Allocation, filling, shrinking and release\<close>

lemma pbuf_alloc_ram_eq:
  assumes "\<not> h_fail h (h_next h)" "unat (layer_offset l) + unat n < 65536"
  shows "pbuf_alloc l n PBUF_RAM h = Some (Some (h_next h),
    ram (h_next h) (map (h_fill h (h_next h)) [0..<unat (layer_offset l)])
      (map (h_fill h (h_next h)) [unat (layer_offset l)..<unat (layer_offset l) + unat n]) [] (h\<lparr>h_next := Suc (h_next h)\<rparr>))"
proof -
  let ?o = "layer_offset l" and ?a = "h_next h"
  have u: "unat (?o + n) = unat ?o + unat n" using assms(2) by (subst unat_add_u16) simp_all
  then have "\<not> ?o + n < n" by (simp add: word_less_nat_alt)
  moreover have "[0..<unat ?o + unat n] = [0..<unat ?o] @ [unat ?o..<unat ?o + unat n]"
    by (rule upt_add_eq_append) simp
  ultimately show ?thesis
    using mem_malloc_ok [OF assms(1)] u
    by (simp add: pbuf_alloc_def Let_def ram_def ram_struct_def set_pbuf_def set_mem_def)
qed

lemma pbuf_take_at_ram [ram_simps]:
  assumes "unat off < length data" "unat off + length ys \<le> length data" "length data < 65536"
  shows "pbuf_take_at (Some a) ys off (ram a pre data post h) = Some (ERR_OK, ram a pre (overwrite (unat off) ys data) post h)"
proof -
  have n: "unat (of_nat (length data) :: u16) = length data" using assms(3) by (simp add: unat_of_nat)
  have "pbuf_skip (Some a) off (ram a pre data post h) = Some (Some a, off)"
    using assms n by (simp add: pbuf_skip_def pbuf_skip_const_def walk_def word_less_nat_alt word_le_nat_alt)
  then show ?thesis
    using assms n by (simp add: pbuf_take_at_def word_less_nat_alt Let_def mem_write_ram_payload)
qed

lemma pbuf_take_ram [ram_simps]:
  assumes "length ys \<le> length data" "length data < 65536"
  shows "pbuf_take (Some a) ys (ram a pre data post h) = Some (ERR_OK, ram a pre (overwrite 0 ys data) post h)"
proof -
  have n: "unat (of_nat (length data) :: u16) = length data" using assms(2) by (simp add: unat_of_nat)
  show ?thesis
    using assms n by (cases "ys = []") (simp_all add: pbuf_take_def walk_def mem_write_ram_payload)
qed

lemma pbuf_realloc_ram [ram_simps]:
  assumes "unat n < length data" "length data < 65536"
  shows "pbuf_realloc (Some a) n (ram a pre data post h) =
    Some (ram a pre (take (unat n) data) (drop (unat n) data @ post) h)"
proof -
  have u: "unat (of_nat (length data) :: u16) = length data" using assms(2) by (simp add: unat_of_nat)
  have "of_nat (unat n) = n" by simp
  then show ?thesis
    using assms u
    by (simp add: pbuf_realloc_def walk_def word_le_nat_alt word_less_nat_alt Let_def ram_def set_pbuf_def set_mem_def
      ram_struct_def pbuf_init_alloced_pbuf_def)
qed

lemma pbuf_realloc_ram_id:
  assumes "length data \<le> unat n"
  shows "pbuf_realloc (Some a) n (ram a pre data post h) = Some (ram a pre data post h)"
proof -
  have "unat (of_nat (length data) :: u16) = length data" using assms unat_u16_lt [of n] by (simp add: unat_of_nat)
  then show ?thesis using assms by (simp add: pbuf_realloc_def word_le_nat_alt)
qed

lemma pbuf_free_ram [ram_simps]:
  "0 < h_next h \<Longrightarrow> pbuf_free (Some a) (ram a pre data post h) = Some (1, mem_free a h)"
  by (cases "h_next h") (simp_all add: pbuf_free_def walk_def pbuf_get_allocsrc_def PBUF_TYPE_ALLOC_SRC_MASK_def
    PBUF_FLAG_IS_CUSTOM_def PBUF_TYPE_ALLOC_SRC_MASK_STD_HEAP_def PBUF_TYPE_ALLOC_SRC_MASK_STD_MEMP_PBUF_POOL_def
    PBUF_TYPE_ALLOC_SRC_MASK_STD_MEMP_PBUF_def Let_def)

text \<open>Freeing what was allocated last leaves the heap without it.\<close>

lemma mem_free_fresh: "heap_ok h \<Longrightarrow> mem_free (h_next h) (h\<lparr>h_next := Suc (h_next h)\<rparr>) = h\<lparr>h_next := Suc (h_next h)\<rparr>"
  by (auto simp: mem_free_def heap_ok_def fun_upd_idem)

lemma pchain_ram:
  "length data < 65536 \<Longrightarrow> pchain (ram a pre data post h) (Some a) [a]"
  by (simp add: pay_ok_def pdata_def slice_def unat_of_nat)

lemma adata_ram: "length data < 65536 \<Longrightarrow> adata (ram a pre data post h) a = data"
  by (simp add: adata_def pdata_def slice_def unat_of_nat)

end
