(* ===== verification/Ip4.thy ===== *)
theory Ip4
  imports Netif Pbuf_Ram Inet_Chksum
begin

text \<open>
  Sending IPv4 packets: \<^verbatim>\<open>lwip/core/ipv4/ip4.c\<close> (routing and output) and the fragmentation of
  \<^verbatim>\<open>lwip/core/ipv4/ip4_frag.c\<close>. The IP header is a \<^verbatim>\<open>struct ip_hdr\<close> laid over the payload of the first
  pbuf and is read and written there byte by byte. \<^verbatim>\<open>IP_OPTIONS_SEND\<close>, \<^verbatim>\<open>IP_FORWARD\<close> and
  \<^verbatim>\<open>LWIP_NETIF_TX_SINGLE_PBUF\<close> are off; \<^verbatim>\<open>ENABLE_LOOPBACK\<close>, \<^verbatim>\<open>IP_FRAG\<close> and \<^verbatim>\<open>CHECKSUM_GEN_IP_INLINE\<close> are on.
\<close>

subsection \<open>Fields behind a pointer\<close>

definition rd8 :: "heap \<Rightarrow> ptr option \<Rightarrow> nat \<Rightarrow> u8 option" where
  "rd8 h q off = map_option (\<lambda>bs. bs ! 0) (mem_read h q off 1)"

definition rd16 :: "heap \<Rightarrow> ptr option \<Rightarrow> nat \<Rightarrow> u16 option" where
  "rd16 h q off = map_option (\<lambda>bs. le16 (bs ! 0) (bs ! 1)) (mem_read h q off 2)"

definition rd32 :: "heap \<Rightarrow> ptr option \<Rightarrow> nat \<Rightarrow> u32 option" where
  "rd32 h q off = map_option (\<lambda>bs. le32 (bs ! 0) (bs ! 1) (bs ! 2) (bs ! 3)) (mem_read h q off 4)"

definition wr8 :: "ptr option \<Rightarrow> nat \<Rightarrow> u8 \<Rightarrow> heap \<Rightarrow> heap option" where
  "wr8 q off x h = mem_write h q off [x]"

definition wr16 :: "ptr option \<Rightarrow> nat \<Rightarrow> u16 \<Rightarrow> heap \<Rightarrow> heap option" where
  "wr16 q off x h = mem_write h q off [lo8 x, hi8 x]"

definition wr32 :: "ptr option \<Rightarrow> nat \<Rightarrow> u32 \<Rightarrow> heap \<Rightarrow> heap option" where
  "wr32 q off x h = mem_write h q off (bytes_of32 x)"

subsection \<open>The IP header\<close>

definition IP_HLEN :: nat where "IP_HLEN = 20"
definition IP_MF :: u16 where "IP_MF = 0x2000"
definition IP_OFFMASK :: u16 where "IP_OFFMASK = 0x1fff"

definition IP_PROTO_ICMP :: u8 where "IP_PROTO_ICMP = 1"
definition IP_PROTO_UDP :: u8 where "IP_PROTO_UDP = 17"
definition IP_PROTO_TCP :: u8 where "IP_PROTO_TCP = 6"

definition IPH_V :: "u8 \<Rightarrow> u8" where "IPH_V v_hl = drop_bit 4 v_hl"
definition IPH_HL_BYTES :: "u8 \<Rightarrow> u8" where "IPH_HL_BYTES v_hl = (v_hl AND 0x0f) * 4"

text \<open>The offsets of \<^verbatim>\<open>struct ip_hdr\<close>: \<^verbatim>\<open>_v_hl\<close> 0, \<^verbatim>\<open>_tos\<close> 1, \<^verbatim>\<open>_len\<close> 2, \<^verbatim>\<open>_id\<close> 4, \<^verbatim>\<open>_offset\<close> 6, \<^verbatim>\<open>_ttl\<close> 8, \<^verbatim>\<open>_proto\<close> 9,
  \<^verbatim>\<open>_chksum\<close> 10, \<^verbatim>\<open>src\<close> 12, \<^verbatim>\<open>dest\<close> 16.\<close>

subsection \<open>Routing\<close>

definition ip4_route :: "u32 \<Rightarrow> 'a net_scheme \<Rightarrow> netif_ref option" where
  "ip4_route dest s = netif_default s"

subsection \<open>Fragmentation\<close>

text \<open>The inner loop of \<^verbatim>\<open>ip4_frag\<close>: references to the pieces of the packet are appended to \<open>rambuf\<close> until
  \<open>left_to_copy\<close> bytes are covered. The result is \<open>None\<close> for \<^verbatim>\<open>goto memerr\<close>, else the pbuf, the offset
  and the length of the last piece.\<close>

fun frag_copy_loop ::
  "nat \<Rightarrow> addr \<Rightarrow> addr option \<Rightarrow> u16 \<Rightarrow> u16 \<Rightarrow> u16 \<Rightarrow> heap \<Rightarrow> ((addr option \<times> u16 \<times> u16) option \<times> heap) option" where
  "frag_copy_loop 0 rambuf p poff left_to_copy newpbuflen h = None"
| "frag_copy_loop (Suc fuel) rambuf p poff left_to_copy newpbuflen h =
     (if left_to_copy = 0 then Some (Some (p, poff, newpbuflen), h)
      else do {
        a \<leftarrow> p;
        b \<leftarrow> h_pbuf h a;
        let plen = p_len b - poff;
        if \<not> p_len b \<ge> poff then None
        else
          let newpbuflen = min left_to_copy plen in
          if newpbuflen = 0 then frag_copy_loop fuel rambuf (p_next b) 0 left_to_copy newpbuflen h
          else (case mem_malloc None h of
                  (None, h) \<Rightarrow> do { (c, h) \<leftarrow> pbuf_free (Some rambuf) h; Some (None, h) }
                | (Some pcr, h) \<Rightarrow>
                    (case pbuf_alloced_custom PBUF_RAW newpbuflen PBUF_REF pcr (Some a)
                            (advance (p_payload b) (int (unat poff))) newpbuflen h of
                       (None, h) \<Rightarrow> do { (c, h) \<leftarrow> pbuf_free (Some rambuf) (mem_free pcr h); Some (None, h) }
                     | (Some newpbuf, h) \<Rightarrow> do {
                         h \<leftarrow> pbuf_ref (Some a) h;
                         h \<leftarrow> pbuf_cat (Some rambuf) (Some newpbuf) h;
                         let left_to_copy = left_to_copy - newpbuflen;
                         if left_to_copy \<noteq> 0 then frag_copy_loop fuel rambuf (p_next b) 0 left_to_copy newpbuflen h
                         else Some (Some (p, poff, newpbuflen), h)
                       }))
      })"

text \<open>\<^verbatim>\<open>(mtu - IP_HLEN) / 8\<close> in \<^verbatim>\<open>int\<close>, which rounds towards zero.\<close>

definition frag_nfb :: "u16 \<Rightarrow> u16" where
  "frag_nfb m = (if IP_HLEN \<le> unat m then of_nat ((unat m - IP_HLEN) div 8) else - of_nat ((IP_HLEN - unat m) div 8))"

text \<open>One fragment of \<open>fragsize\<close> bytes: \<open>None\<close> for \<^verbatim>\<open>goto memerr\<close>, else the pbuf and offset to go on from.\<close>

definition frag_send ::
  "addr option \<Rightarrow> u16 \<Rightarrow> u16 \<Rightarrow> u16 \<Rightarrow> u16 \<Rightarrow> bool \<Rightarrow> ptr option \<Rightarrow> netif_ref \<Rightarrow> u32 \<Rightarrow> 'a net_scheme \<Rightarrow>
     ((addr option \<times> u16) option \<times> 'a net_scheme) option" where
  "frag_send p poff left_len fragsize ofo mf_set original_iphdr netif dest s =
     do {
       (rambuf, h) \<leftarrow> pbuf_alloc PBUF_LINK (of_nat IP_HLEN) PBUF_RAM (net_heap s);
       (case rambuf of
          None \<Rightarrow> Some (None, s\<lparr>net_heap := h\<rparr>)
        | Some ra \<Rightarrow> do {
            rb \<leftarrow> h_pbuf h ra;
            if \<not> unat (p_len rb) \<ge> IP_HLEN then None
            else do {
              hdr \<leftarrow> mem_read h original_iphdr 0 IP_HLEN;
              h \<leftarrow> mem_write h (p_payload rb) 0 hdr;
              let iphdr = p_payload rb;
              (copied, h) \<leftarrow> frag_copy_loop (Suc (unat fragsize) + walk h) ra p poff fragsize 0 h;
              (case copied of
                 None \<Rightarrow> Some (None, s\<lparr>net_heap := h\<rparr>)
               | Some (p, poff, newpbuflen) \<Rightarrow> do {
                   let poff = poff + newpbuflen;
                   let last = (int (unat left_len) \<le> int (unat (mtu (netifs s netif))) - int IP_HLEN);
                   let tmp = IP_OFFMASK AND ofo;
                   let tmp = (if \<not> last \<or> mf_set then tmp OR IP_MF else tmp);
                   h \<leftarrow> wr16 iphdr 6 (lwip_htons tmp) h;
                   h \<leftarrow> wr16 iphdr 2 (lwip_htons (fragsize + of_nat IP_HLEN)) h;
                   h \<leftarrow> wr16 iphdr 10 0 h;
                   hdr \<leftarrow> mem_read h iphdr 0 IP_HLEN;
                   h \<leftarrow> wr16 iphdr 10 (inet_chksum lwip_standard_chksum False hdr) h;
                   (err, s) \<leftarrow> netif_output netif ra dest (s\<lparr>net_heap := h\<rparr>);
                   (c, h) \<leftarrow> pbuf_free (Some ra) (net_heap s);
                   Some (Some (p, poff), s\<lparr>net_heap := h\<rparr>)
                 })
            }
          })
     }"

fun frag_loop ::
  "nat \<Rightarrow> addr option \<Rightarrow> u16 \<Rightarrow> u16 \<Rightarrow> u16 \<Rightarrow> bool \<Rightarrow> ptr option \<Rightarrow> netif_ref \<Rightarrow> u32 \<Rightarrow> 'a net_scheme \<Rightarrow>
     (err_t \<times> 'a net_scheme) option" where
  "frag_loop 0 p poff left_len ofo mf_set original_iphdr netif dest s = None"
| "frag_loop (Suc fuel) p poff left_len ofo mf_set original_iphdr netif dest s =
     (if left_len = 0 then Some (ERR_OK, s)
      else
        let nfb = frag_nfb (mtu (netifs s netif));
            fragsize = min left_len (nfb * 8)
        in do {
          (sent, s) \<leftarrow> frag_send p poff left_len fragsize ofo mf_set original_iphdr netif dest s;
          case sent of
            None \<Rightarrow> Some (ERR_MEM, s)
          | Some (p, poff) \<Rightarrow> frag_loop fuel p poff (left_len - fragsize) (ofo + nfb) mf_set original_iphdr netif dest s
        })"

text \<open>A pass of the loop covers at least one byte unless \<^verbatim>\<open>nfb\<close> is zero, so \<open>Suc left\<close> passes are enough.\<close>

definition ip4_frag :: "addr \<Rightarrow> netif_ref \<Rightarrow> u32 \<Rightarrow> 'a net_scheme \<Rightarrow> (err_t \<times> 'a net_scheme) option" where
  "ip4_frag p netif dest s =
     do {
       b \<leftarrow> h_pbuf (net_heap s) p;
       let original_iphdr = p_payload b;
       v_hl \<leftarrow> rd8 (net_heap s) original_iphdr 0;
       if unat (IPH_HL_BYTES v_hl) \<noteq> IP_HLEN then Some (ERR_VAL, s)
       else if \<not> unat (p_len b) \<ge> IP_HLEN then Some (ERR_VAL, s)
       else do {
         off \<leftarrow> rd16 (net_heap s) original_iphdr 6;
         let tmp = lwip_ntohs off;
         let left_len = p_tot_len b - of_nat IP_HLEN;
         frag_loop (Suc (unat left_len)) (Some p) (of_nat IP_HLEN) left_len (tmp AND IP_OFFMASK) (tmp AND IP_MF \<noteq> 0)
           original_iphdr netif dest s
       }
     }"

subsection \<open>Output\<close>

text \<open>The tail of \<^verbatim>\<open>ip4_output_if_src\<close>, when the header is in place.\<close>

definition ip4_transmit :: "addr \<Rightarrow> u32 \<Rightarrow> netif_ref \<Rightarrow> 'a net_scheme \<Rightarrow> (err_t \<times> 'a net_scheme) option" where
  "ip4_transmit p dest netif s =
     do {
       b \<leftarrow> h_pbuf (net_heap s) p;
       if dest = ip_addr (netifs s netif) then netif_loop_output netif p s
       else if mtu (netifs s netif) \<noteq> 0 \<and> p_tot_len b > mtu (netifs s netif) then ip4_frag p netif dest s
       else netif_output netif p dest s
     }"

text \<open>The running sum of the header and its final folding, in 32 bits.\<close>

definition ip4_hdr_chksum :: "u8 \<Rightarrow> u8 \<Rightarrow> u8 \<Rightarrow> u8 \<Rightarrow> u16 \<Rightarrow> u16 \<Rightarrow> u32 \<Rightarrow> u32 \<Rightarrow> u16" where
  "ip4_hdr_chksum ttl proto v_hl tos len_be id_be src dest =
     (let chk_sum = (ucast (PP_HTONS (ucast proto OR push_bit 8 (ucast ttl))) :: u32);
          chk_sum = chk_sum + (dest AND 0xFFFF);
          chk_sum = chk_sum + drop_bit 16 dest;
          chk_sum = chk_sum + ucast (PP_HTONS (ucast tos OR push_bit 8 (ucast v_hl)));
          chk_sum = chk_sum + ucast len_be;
          chk_sum = chk_sum + ucast id_be;
          chk_sum = chk_sum + (src AND 0xFFFF);
          chk_sum = chk_sum + drop_bit 16 src;
          chk_sum = drop_bit 16 chk_sum + (chk_sum AND 0xFFFF);
          chk_sum = drop_bit 16 chk_sum + chk_sum
      in ucast (NOT chk_sum))"

text \<open>A destination \<open>None\<close> is \<^verbatim>\<open>LWIP_IP_HDRINCL\<close>: the packet has its header already.\<close>

definition ip4_output_if_src ::
  "addr \<Rightarrow> u32 option \<Rightarrow> u32 option \<Rightarrow> u8 \<Rightarrow> u8 \<Rightarrow> u8 \<Rightarrow> netif_ref \<Rightarrow> 'a net_scheme \<Rightarrow> (err_t \<times> 'a net_scheme) option" where
  "ip4_output_if_src p src dest ttl tos proto netif s =
     do {
       b \<leftarrow> h_pbuf (net_heap s) p;
       if p_ref b \<noteq> 1 then None
       else case dest of
         Some dest \<Rightarrow> do {
           (r, h) \<leftarrow> pbuf_add_header (Some p) IP_HLEN (net_heap s);
           if r \<noteq> 0 then Some (ERR_BUF, s\<lparr>net_heap := h\<rparr>)
           else do {
             b \<leftarrow> h_pbuf h p;
             let iphdr = p_payload b;
             if \<not> unat (p_len b) \<ge> IP_HLEN then None
             else do {
               let v_hl = 0x45;
               let len_be = lwip_htons (p_tot_len b);
               let id_be = lwip_htons (ip_id s);
               let src = addr_or_any src;
               h \<leftarrow> wr8 iphdr 8 ttl h;
               h \<leftarrow> wr8 iphdr 9 proto h;
               h \<leftarrow> wr32 iphdr 16 dest h;
               h \<leftarrow> wr8 iphdr 0 v_hl h;
               h \<leftarrow> wr8 iphdr 1 tos h;
               h \<leftarrow> wr16 iphdr 2 len_be h;
               h \<leftarrow> wr16 iphdr 6 0 h;
               h \<leftarrow> wr16 iphdr 4 id_be h;
               h \<leftarrow> wr32 iphdr 12 src h;
               h \<leftarrow> wr16 iphdr 10 (ip4_hdr_chksum ttl proto v_hl tos len_be id_be src dest) h;
               ip4_transmit p dest netif (s\<lparr>net_heap := h, ip_id := ip_id s + 1\<rparr>)
             }
           }
         }
       | None \<Rightarrow>
           if unat (p_len b) < IP_HLEN then Some (ERR_BUF, s)
           else do {
             dest \<leftarrow> rd32 (net_heap s) (p_payload b) 16;
             ip4_transmit p dest netif s
           }
     }"

definition ip4_output_if ::
  "addr \<Rightarrow> u32 option \<Rightarrow> u32 option \<Rightarrow> u8 \<Rightarrow> u8 \<Rightarrow> u8 \<Rightarrow> netif_ref \<Rightarrow> 'a net_scheme \<Rightarrow> (err_t \<times> 'a net_scheme) option" where
  "ip4_output_if p src dest ttl tos proto netif s =
     (let src_used = (if dest \<noteq> None \<and> (src = None \<or> src = Some IPADDR_ANY) then Some (ip_addr (netifs s netif)) else src)
      in ip4_output_if_src p src_used dest ttl tos proto netif s)"

definition ip4_output ::
  "addr \<Rightarrow> u32 option \<Rightarrow> u32 \<Rightarrow> u8 \<Rightarrow> u8 \<Rightarrow> u8 \<Rightarrow> 'a net_scheme \<Rightarrow> (err_t \<times> 'a net_scheme) option" where
  "ip4_output p src dest ttl tos proto s =
     do {
       b \<leftarrow> h_pbuf (net_heap s) p;
       if p_ref b \<noteq> 1 then None
       else case ip4_route dest s of
              None \<Rightarrow> Some (ERR_RTE, s)
            | Some netif \<Rightarrow> ip4_output_if p src (Some dest) ttl tos proto netif s
     }"

subsection \<open>The header checksum\<close>

text \<open>The header \<^verbatim>\<open>ip4_output_if_src\<close> writes, with checksum \<open>c\<close>.\<close>

definition ip_header :: "u8 \<Rightarrow> u16 \<Rightarrow> u16 \<Rightarrow> u8 \<Rightarrow> u8 \<Rightarrow> u16 \<Rightarrow> u32 \<Rightarrow> u32 \<Rightarrow> bytes" where
  "ip_header tos len_be id_be ttl proto c src dest =
     [0x45, tos, lo8 len_be, hi8 len_be, lo8 id_be, hi8 id_be, 0, 0, ttl, proto, lo8 c, hi8 c] @
     bytes_of32 src @ bytes_of32 dest"

lemma length_ip_header [simp]: "length (ip_header tos len_be id_be ttl proto c src dest) = 20"
  by (simp add: ip_header_def)

lemma lo8_hi8_zero [simp]: "lo8 0 = 0" "hi8 0 = 0"
  by (simp_all add: lo8_def hi8_def)

lemma PP_HTONS_bytes: "PP_HTONS (ucast a OR push_bit 8 (ucast b)) = le16 b a"
  using lwip_htons_le16 [of a b] by (simp add: lwip_htons_def le16_def)

lemma u32_upper_half: "drop_bit 16 (a :: u32) = ucast (le16 (byte_of32 2 a) (byte_of32 3 a))"
proof -
  have "drop_bit 16 a = drop_bit 16 a AND 0xffff"
    unfolding low16_mask by (rule bit_word_eqI) (auto simp: bit_simps dest: bit_imp_le_length)
  also note u32_halves(2) [of a]
  finally show ?thesis .
qed

lemma ucast_add_u16: "(ucast (x + y :: u32) :: u16) = ucast x + ucast y"
proof -
  have "(65536 :: nat) dvd 4294967296" by (rule dvdI [of _ _ 65536]) simp
  then have "a mod 4294967296 mod 65536 = a mod (65536 :: nat)" for a by (rule mod_mod_cancel)
  then show ?thesis
    by (simp add: word_unat_eq_iff unat_word_ariths unsigned_ucast_eq take_bit_eq_mod mod_add_eq)
qed

lemma ucast_NOT_u16: "(ucast (NOT (x :: u32)) :: u16) = NOT (ucast x)"
  by (rule bit_word_eqI) (auto simp: bit_simps)

lemma low16_refold: "(ucast (NOT (drop_bit 16 u + u)) :: u16) = ucast (NOT (FOLD_U32T (u :: u32) AND 0xffff))"
proof -
  have "(ucast (x AND 0xffff) :: u16) = ucast x" for x :: u32
    unfolding low16_mask by (rule bit_word_eqI) (auto simp: bit_simps)
  then show ?thesis
    by (simp only: ucast_NOT_u16 FOLD_U32T_def ucast_add_u16)
qed

lemma unat_sum_u16:
  "length ws \<le> 65536 \<Longrightarrow> unat (fold (\<lambda>w u. u + ucast w) ws 0 :: u32) = sum_list (map unat (ws :: u16 list))"
proof (induction ws rule: rev_induct)
  case (snoc w ws)
  have "sum_list (map unat ws) \<le> 65535 * length ws"
    by (induction ws) (use unat_u16_le in \<open>auto intro: add_mono\<close>)
  then have "sum_list (map unat ws) + unat w < 4294967296"
    using snoc.prems unat_u16_le [of w] by simp
  then show ?case using snoc by (simp add: unat_add_u32 word_nat)
qed simp

lemma ip4_hdr_chksum_spec:
  "unat (ip4_hdr_chksum ttl proto 0x45 tos len_be id_be src dest) =
     65535 - fold16 (ocsum (ip_header tos len_be id_be ttl proto 0 src dest))"
proof -
  let ?w = "\<lambda>i j a. ucast (le16 (byte_of32 i a) (byte_of32 j a)) :: u32"
  let ?S = "ucast (le16 ttl proto) + ?w 0 1 dest + ?w 2 3 dest + ucast (le16 0x45 tos) + ucast len_be + ucast id_be +
    ?w 0 1 src + ?w 2 3 src :: u32"
  have "unat ?S = unat (le16 ttl proto) + unat (le16 (byte_of32 0 dest) (byte_of32 1 dest)) +
      unat (le16 (byte_of32 2 dest) (byte_of32 3 dest)) + unat (le16 0x45 tos) + unat len_be + unat id_be +
      unat (le16 (byte_of32 0 src) (byte_of32 1 src)) + unat (le16 (byte_of32 2 src) (byte_of32 3 src))"
    using unat_sum_u16 [of "[le16 ttl proto, le16 (byte_of32 0 dest) (byte_of32 1 dest), le16 (byte_of32 2 dest) (byte_of32 3 dest),
      le16 0x45 tos, len_be, id_be, le16 (byte_of32 0 src) (byte_of32 1 src), le16 (byte_of32 2 src) (byte_of32 3 src)]"]
    by (simp only: fold_simps list.map sum_list.Cons sum_list.Nil list.size add_0 add_0_right add.assoc)
  moreover have "unat len_be = unat (lo8 len_be) + 256 * unat (hi8 len_be)" "unat id_be = unat (lo8 id_be) + 256 * unat (hi8 id_be)"
    using unat_le16 [of "lo8 len_be" "hi8 len_be"] unat_le16 [of "lo8 id_be" "hi8 id_be"] by simp_all
  ultimately have S: "unat ?S = ocsum (ip_header tos len_be id_be ttl proto 0 src dest)"
    by (simp add: ip_header_def bytes_of32_def unat_le16)
  have "ip4_hdr_chksum ttl proto 0x45 tos len_be id_be src dest = ucast (NOT (FOLD_U32T (FOLD_U32T ?S) AND 0xffff))"
    by (simp only: ip4_hdr_chksum_def Let_def PP_HTONS_bytes low16_refold u32_upper_half [of dest] u32_upper_half [of src]
      u32_halves(1) [of dest] u32_halves(1) [of src] FOLD_U32T_def [of ?S, symmetric])
  moreover have "unat (FOLD_U32T (FOLD_U32T ?S)) \<le> 65535" by (simp only: fold2 fold16_le)
  ultimately show ?thesis by (simp only: unat_not_low16 fold2 S)
qed

lemma ip4_hdr_chksum_eq:
  "ip4_hdr_chksum ttl proto 0x45 tos len_be id_be src dest =
     inet_chksum lwip_standard_chksum a (ip_header tos len_be id_be ttl proto 0 src dest)"
  by (simp add: word_unat_eq_iff ip4_hdr_chksum_spec chksum_v2.inet_chksum_spec)

lemma ip_header_verifies:
  "inet_chksum lwip_standard_chksum a
     (ip_header tos len_be id_be ttl proto (ip4_hdr_chksum ttl proto 0x45 tos len_be id_be src dest) src dest) = 0"
proof -
  let ?c = "ip4_hdr_chksum ttl proto 0x45 tos len_be id_be src dest"
  let ?x = "[0x45, tos, lo8 len_be, hi8 len_be, lo8 id_be, hi8 id_be, 0, 0, ttl, proto]"
  have "ip_header tos len_be id_be ttl proto 0 src dest = ?x @ [0, 0] @ bytes_of32 src @ bytes_of32 dest"
    by (simp add: ip_header_def)
  then have "?c = inet_chksum lwip_standard_chksum a (?x @ [0, 0] @ bytes_of32 src @ bytes_of32 dest)"
    by (simp only: ip4_hdr_chksum_eq [where a = a])
  then have "inet_chksum lwip_standard_chksum a (?x @ [lo8 ?c, hi8 ?c] @ bytes_of32 src @ bytes_of32 dest) = 0"
    by (intro chksum_v2.inet_chksum_verifies_law) simp_all
  then show ?thesis by (simp add: ip_header_def)
qed

subsection \<open>Packets in one piece\<close>

lemma overwrite_literal:
  "overwrite (numeral k) ys (x # xs) = x # overwrite (pred_numeral k) ys xs"
  "overwrite (Suc n) ys (x # xs) = x # overwrite n ys xs"
  "overwrite 0 (y # ys) (x # xs) = y # overwrite 0 ys xs"
  by (simp_all add: overwrite_def numeral_eq_Suc)

lemma ram_h_next [simp]: "(ram a pre data post h)\<lparr>h_next := n\<rparr> = ram a pre data post (h\<lparr>h_next := n\<rparr>)"
  by (simp add: ram_def set_pbuf_def set_mem_def)

lemma literal20:
  assumes "length xs = 20"
  obtains a0 a1 a2 a3 a4 a5 a6 a7 a8 a9 b0 b1 b2 b3 b4 b5 b6 b7 b8 b9 where
    "xs = [a0, a1, a2, a3, a4, a5, a6, a7, a8, a9, b0, b1, b2, b3, b4, b5, b6, b7, b8, b9]"
  using assms by (auto simp: length_Suc_conv numeral_eq_Suc)

lemmas wr_defs = wr8_def wr16_def wr32_def

lemma ip4_output_if_src_ram:
  assumes "net_heap s = ram p (pre @ mid) data post h" "length mid = 20" "20 + length data < 65536"
  shows "ip4_output_if_src p src (Some dest) ttl tos proto r s =
    (let len_be = lwip_htons (of_nat (20 + length data)); id_be = lwip_htons (ip_id s); a = addr_or_any src;
         c = ip4_hdr_chksum ttl proto 0x45 tos len_be id_be a dest
     in ip4_transmit p dest r (s\<lparr>net_heap := ram p pre (ip_header tos len_be id_be ttl proto c a dest @ data) post h,
                                 ip_id := ip_id s + 1\<rparr>))"
proof -
  let ?L = "lwip_htons (of_nat (20 + length data))" and ?I = "lwip_htons (ip_id s)" and ?a = "addr_or_any src"
  let ?c = "ip4_hdr_chksum ttl proto 0x45 tos ?L ?I ?a dest"
  have add: "pbuf_add_header (Some p) 20 (net_heap s) = Some (0, ram p pre (mid @ data) post h)"
    using pbuf_add_header_ram [of 20 mid data p pre post h] assms by simp
  have n: "unat (of_nat (length mid + length data) :: u16) = 20 + length data"
    using assms by (simp add: unat_of_nat del: of_nat_add)
  have ow: "overwrite 10 [lo8 ?c, hi8 ?c] (overwrite 12 (bytes_of32 ?a) (overwrite 4 [lo8 ?I, hi8 ?I] (overwrite 6 [0, 0]
     (overwrite 2 [lo8 ?L, hi8 ?L] (overwrite (Suc 0) [tos] (overwrite 0 [0x45] (overwrite 16 (bytes_of32 dest)
     (overwrite 9 [proto] (overwrite 8 [ttl] (mid @ data)))))))))) = ip_header tos ?L ?I ttl proto ?c ?a dest @ data"
    using assms(2) by (rule literal20) (simp add: overwrite_literal bytes_of32_def ip_header_def)
  show ?thesis
    using assms add n ow
    by (simp add: ip4_output_if_src_def IP_HLEN_def Let_def wr_defs mem_write_ram_payload)
qed

text \<open>Where a flattened packet ends up: a fresh pbuf at \<open>h_next h\<close>.\<close>

definition tun_copy :: "platform \<Rightarrow> bytes \<Rightarrow> heap \<Rightarrow> heap" where
  "tun_copy pf data h =
     ram (h_next h) (map (h_fill h (h_next h)) [0..<34]) (tun_prefix pf @ data) [] (h\<lparr>h_next := Suc (h_next h)\<rparr>)"

lemma apple_prefix: "bytes_of32 33554432 = [0, 0, 0, 2]"
  by (simp add: bytes_of32_def byte_of32_def)

lemma netif_output_func_ram:
  assumes "net_heap s = ram p pre data post h" "p < h_next h" "\<not> h_fail h (h_next h)" "data \<noteq> []"
    "34 + TUN_IP_OFFSET (plat s) + length data < 65536"
  shows "netif_output_func r p dest s =
    Some (ERR_OK, TuntapHelper_Inject (h_next h) (s\<lparr>net_heap := tun_copy (plat s) data (ram p pre data post h)\<rparr>))"
proof -
  let ?o = "TUN_IP_OFFSET (plat s)" and ?d = "h_next h"
  let ?n = "of_nat (length data + ?o) :: u16"
  let ?F = "map (h_fill h ?d) [0..<34]" and ?h = "ram p pre data post (h\<lparr>h_next := Suc ?d\<rparr>)"
  let ?G = "map (h_fill h ?d) [34..<34 + (length data + ?o)]"
  have un: "unat ?n = length data + ?o" using assms(5) by (simp add: unat_of_nat del: of_nat_add)
  have ud: "unat (of_nat (length data) :: u16) = length data" "unat (of_nat ?o :: u16) = ?o"
    using assms(5) by (simp_all add: unat_of_nat)
  have al: "pbuf_alloc PBUF_IP ?n PBUF_RAM (net_heap s) = Some (Some ?d, ram ?d ?F ?G [] ?h)"
    using pbuf_alloc_ram_eq [of "ram p pre data post h" PBUF_IP ?n] assms un by simp
  have rd: "mem_read (ram ?d ?F ?G [] ?h) (Some (p, int (length pre))) 0 (length data) = Some data"
    using assms(2) mem_read_ram_payload [of 0 "length data" data p pre post "ram ?d ?F ?G [] (h\<lparr>h_next := Suc ?d\<rparr>)"]
    by (simp add: ram_commute slice_def)
  have tk: "pbuf_take_at (Some ?d) data (of_nat ?o) (ram ?d ?F ?G [] ?h) =
      Some (ERR_OK, ram ?d ?F (overwrite ?o data ?G) [] ?h)"
    using assms(4,5) ud by (subst pbuf_take_at_ram) auto
  have lp: "dechain_loop (walk (ram ?d ?F ?G [] ?h)) (plat s) (Some ?d) (Some p) 0 (ram ?d ?F ?G [] ?h) =
      Some (ERR_OK, ram ?d ?F (overwrite ?o data ?G) [] ?h)"
    using assms(2) rd tk ud by (simp add: walk_def)
  have "overwrite 0 (tun_prefix (plat s)) (overwrite ?o data ?G) = tun_prefix (plat s) @ data"
    by (simp add: overwrite_def)
  then have hd: "ADD_TUN_IP_HDR (plat s) (Some ?d) (ram ?d ?F (overwrite ?o data ?G) [] ?h) =
      Some (ram ?d ?F (tun_prefix (plat s) @ data) [] ?h)"
    using mem_write_ram_payload [of 0 "tun_prefix (plat s)" "overwrite ?o data ?G" ?d ?F "[]" ?h]
    by (cases "plat s") (simp_all add: ADD_TUN_IP_HDR_def tun_prefix_def apple_prefix TUN_IP_OFFSET_def)
  have "length (overwrite ?o data ?G) = length data + ?o" by (simp add: overwrite_def)
  then show ?thesis
    using assms(1) al lp hd ud by (simp add: netif_output_func_def tun_copy_def)
qed

text \<open>The interface of the TUN device as \<^verbatim>\<open>LwipHelper::Init\<close> leaves it, for a packet that fits and is not
  for the interface itself.\<close>

lemma ip4_transmit_ram:
  assumes "net_heap s = ram p pre data post h" "p < h_next h" "\<not> h_fail h (h_next h)" "data \<noteq> []"
    and "dest \<noteq> ip_addr (netifs s r)" "output_fn (netifs s r) = Netif_output_func" "length data \<le> unat (mtu (netifs s r))"
    and "34 + TUN_IP_OFFSET (plat s) + length data < 65536"
  shows "ip4_transmit p dest r s =
    Some (ERR_OK, TuntapHelper_Inject (h_next h) (s\<lparr>net_heap := tun_copy (plat s) data (ram p pre data post h)\<rparr>))"
proof -
  have "unat (of_nat (length data) :: u16) = length data" using assms(8) by (simp add: unat_of_nat)
  then show ?thesis
    using assms netif_output_func_ram [OF assms(1-4,8)]
    by (simp add: ip4_transmit_def netif_output_def word_less_nat_alt)
qed

lemma tun_copy_adata:
  "TUN_IP_OFFSET pf + length data < 65536 \<Longrightarrow> adata (tun_copy pf data h) (h_next h) = tun_prefix pf @ data"
  unfolding tun_copy_def by (subst adata_ram) simp_all

subsection \<open>Properties\<close>



end
