(* ===== verification/Raw.thy ===== *)
theory Raw
  imports Ip4
begin

text \<open>
  Raw sockets: \<^verbatim>\<open>lwip/core/raw.c\<close>, with the globals of the IP layer that the receive path shares
  (\<^verbatim>\<open>struct ip_globals ip_data\<close> of \<^verbatim>\<open>lwip/core/ip.c\<close>). A \<^verbatim>\<open>struct raw_pcb\<close> lives in \<open>raw_mem\<close> under the address
  its allocation got; \<open>raw_pcbs\<close> is the list linked through \<^verbatim>\<open>next\<close>. The call of a receive callback is a
  parameter; the program's own callback \<^verbatim>\<open>icmp_recv_func\<close> is one instance. IPv6,
  \<^verbatim>\<open>LWIP_MULTICAST_TX_OPTIONS\<close> and \<^verbatim>\<open>IP_SOF_BROADCAST\<close> are off.
\<close>

subsection \<open>State\<close>

record ip_globals =
  current_netif :: "netif_ref option"
  current_input_netif :: "netif_ref option"
  current_ip4_header :: "ptr option"
  current_ip_header_tot_len :: u16
  current_iphdr_src :: u32
  current_iphdr_dest :: u32

record raw_pcb =
  rp_local_ip :: u32
  rp_remote_ip :: u32
  rp_netif_idx :: u8
  rp_so_options :: u8
  rp_tos :: u8
  rp_ttl :: u8
  rp_protocol :: u8
  rp_flags :: u8
  rp_recv :: "nat option"
  rp_recv_arg :: "nat option"

record ipnet = net +
  ip_data :: ip_globals
  raw_mem :: "addr \<Rightarrow> raw_pcb option"
  raw_pcbs :: "addr list"

definition RAW_FLAGS_CONNECTED :: u8 where "RAW_FLAGS_CONNECTED = 0x01"
definition RAW_FLAGS_HDRINCL :: u8 where "RAW_FLAGS_HDRINCL = 0x02"
definition RAW_TTL :: u8 where "RAW_TTL = 255"

text \<open>A receive callback gets its argument, the pcb, the pbuf and the sender's address.\<close>

type_synonym 'a recv_call =
  "nat \<Rightarrow> nat option \<Rightarrow> addr \<Rightarrow> addr \<Rightarrow> u32 \<Rightarrow> 'a ipnet_scheme \<Rightarrow> (u8 \<times> 'a ipnet_scheme) option"

definition set_raw :: "addr \<Rightarrow> raw_pcb \<Rightarrow> 'a ipnet_scheme \<Rightarrow> 'a ipnet_scheme" where
  "set_raw a c s = s\<lparr>raw_mem := (raw_mem s)(a \<mapsto> c)\<rparr>"

subsection \<open>Receiving\<close>

definition raw_input_local_match :: "raw_pcb \<Rightarrow> bool \<Rightarrow> 'a ipnet_scheme \<Rightarrow> bool option" where
  "raw_input_local_match pcb broadcast s =
     do {
       inp \<leftarrow> (if rp_netif_idx pcb \<noteq> NETIF_NO_INDEX
               then map_option (\<lambda>r. rp_netif_idx pcb = netif_get_index (netifs s r)) (current_input_netif (ip_data s))
               else Some True);
       if \<not> inp then Some False
       else if broadcast then Some (rp_local_ip pcb = IPADDR_ANY)
       else Some (rp_local_ip pcb = IPADDR_ANY \<or> rp_local_ip pcb = current_iphdr_dest (ip_data s))
     }"

datatype raw_input_state = RAW_INPUT_NONE | RAW_INPUT_EATEN | RAW_INPUT_DELIVERED

definition raw_pcb_matches :: "raw_pcb \<Rightarrow> u8 \<Rightarrow> bool \<Rightarrow> 'a ipnet_scheme \<Rightarrow> bool option" where
  "raw_pcb_matches pcb proto broadcast s =
     (if rp_protocol pcb \<noteq> proto then Some False
      else do {
        m \<leftarrow> raw_input_local_match pcb broadcast s;
        Some (m \<and> (rp_flags pcb AND RAW_FLAGS_CONNECTED = 0 \<or> rp_remote_ip pcb = current_iphdr_src (ip_data s)))
      })"

text \<open>The loop over the pcbs: \<open>visited\<close> are those before the current one, last first. A pcb whose
  callback eats the packet moves to the front.\<close>

fun raw_input_loop ::
  "'a recv_call \<Rightarrow> addr \<Rightarrow> u8 \<Rightarrow> bool \<Rightarrow> addr list \<Rightarrow> addr list \<Rightarrow> raw_input_state \<Rightarrow> 'a ipnet_scheme \<Rightarrow>
     (raw_input_state \<times> 'a ipnet_scheme) option" where
  "raw_input_loop call p proto broadcast visited [] ret s = Some (ret, s)"
| "raw_input_loop call p proto broadcast visited (a # rest) ret s =
     do {
       pcb \<leftarrow> raw_mem s a;
       matching \<leftarrow> raw_pcb_matches pcb proto broadcast s;
       case (if matching then rp_recv pcb else None) of
         None \<Rightarrow> raw_input_loop call p proto broadcast (a # visited) rest ret s
       | Some recv \<Rightarrow>
           do {
             b \<leftarrow> h_pbuf (net_heap s) p;
             (eaten, s) \<leftarrow> call recv (rp_recv_arg pcb) a p (current_iphdr_src (ip_data s)) s;
             if eaten \<noteq> 0 then
               Some (RAW_INPUT_EATEN, if visited = [] then s else s\<lparr>raw_pcbs := a # rev visited @ rest\<rparr>)
             else do {
               b' \<leftarrow> h_pbuf (net_heap s) p;
               if p_payload b' \<noteq> p_payload b then None
               else raw_input_loop call p proto broadcast (a # visited) rest RAW_INPUT_DELIVERED s
             }
           }
     }"

definition raw_input :: "'a recv_call \<Rightarrow> addr \<Rightarrow> 'a ipnet_scheme \<Rightarrow> (raw_input_state \<times> 'a ipnet_scheme) option" where
  "raw_input call p s =
     do {
       r \<leftarrow> current_netif (ip_data s);
       let broadcast = ip4_addr_isbroadcast_u32 (current_iphdr_dest (ip_data s)) (netifs s r);
       b \<leftarrow> h_pbuf (net_heap s) p;
       proto \<leftarrow> rd8 (net_heap s) (p_payload b) 9;
       raw_input_loop call p proto broadcast [] (raw_pcbs s) RAW_INPUT_NONE s
     }"

subsection \<open>Control blocks\<close>

text \<open>Pointers that may be null are options; a setter on a pointer that is not a live pcb is \<open>None\<close>.\<close>

definition raw_new :: "u8 \<Rightarrow> 'a ipnet_scheme \<Rightarrow> addr option \<times> 'a ipnet_scheme" where
  "raw_new proto s =
     (case mem_malloc None (net_heap s) of
        (None, h) \<Rightarrow> (None, s\<lparr>net_heap := h\<rparr>)
      | (Some a, h) \<Rightarrow>
          (Some a, (set_raw a \<lparr>rp_local_ip = 0, rp_remote_ip = 0, rp_netif_idx = 0, rp_so_options = 0, rp_tos = 0,
                              rp_ttl = RAW_TTL, rp_protocol = proto, rp_flags = 0, rp_recv = None, rp_recv_arg = None\<rparr>
                      (s\<lparr>net_heap := h\<rparr>))\<lparr>raw_pcbs := a # raw_pcbs s\<rparr>))"

definition raw_new_ip_type :: "u8 \<Rightarrow> u8 \<Rightarrow> 'a ipnet_scheme \<Rightarrow> addr option \<times> 'a ipnet_scheme" where
  "raw_new_ip_type type proto s = raw_new proto s"

definition raw_remove :: "addr \<Rightarrow> 'a ipnet_scheme \<Rightarrow> 'a ipnet_scheme" where
  "raw_remove a s = s\<lparr>raw_pcbs := remove1 a (raw_pcbs s), raw_mem := (raw_mem s)(a := None)\<rparr>"

definition raw_bind :: "addr option \<Rightarrow> u32 option \<Rightarrow> 'a ipnet_scheme \<Rightarrow> (err_t \<times> 'a ipnet_scheme) option" where
  "raw_bind pcb ipaddr s =
     (case (pcb, ipaddr) of
        (Some a, Some ip) \<Rightarrow> do { c \<leftarrow> raw_mem s a; Some (ERR_OK, set_raw a (c\<lparr>rp_local_ip := ip\<rparr>) s) }
      | _ \<Rightarrow> Some (ERR_VAL, s))"

definition raw_bind_netif :: "addr \<Rightarrow> netif_ref option \<Rightarrow> 'a ipnet_scheme \<Rightarrow> 'a ipnet_scheme option" where
  "raw_bind_netif a netif s =
     do {
       c \<leftarrow> raw_mem s a;
       Some (set_raw a (c\<lparr>rp_netif_idx := (case netif of None \<Rightarrow> NETIF_NO_INDEX
                                         | Some r \<Rightarrow> netif_get_index (netifs s r))\<rparr>) s)
     }"

definition raw_connect :: "addr option \<Rightarrow> u32 option \<Rightarrow> 'a ipnet_scheme \<Rightarrow> (err_t \<times> 'a ipnet_scheme) option" where
  "raw_connect pcb ipaddr s =
     (case (pcb, ipaddr) of
        (Some a, Some ip) \<Rightarrow>
          do {
            c \<leftarrow> raw_mem s a;
            Some (ERR_OK, set_raw a (c\<lparr>rp_remote_ip := ip, rp_flags := rp_flags c OR RAW_FLAGS_CONNECTED\<rparr>) s)
          }
      | _ \<Rightarrow> Some (ERR_VAL, s))"

definition raw_disconnect :: "addr \<Rightarrow> 'a ipnet_scheme \<Rightarrow> 'a ipnet_scheme option" where
  "raw_disconnect a s =
     do {
       c \<leftarrow> raw_mem s a;
       Some (set_raw a (c\<lparr>rp_remote_ip := IPADDR_ANY, rp_netif_idx := NETIF_NO_INDEX,
                          rp_flags := rp_flags c AND (NOT RAW_FLAGS_CONNECTED AND 0xff)\<rparr>) s)
     }"

definition raw_recv :: "addr \<Rightarrow> nat option \<Rightarrow> nat option \<Rightarrow> 'a ipnet_scheme \<Rightarrow> 'a ipnet_scheme option" where
  "raw_recv a recv recv_arg s =
     do { c \<leftarrow> raw_mem s a; Some (set_raw a (c\<lparr>rp_recv := recv, rp_recv_arg := recv_arg\<rparr>) s) }"

definition raw_netif_ip_addr_changed :: "u32 option \<Rightarrow> u32 option \<Rightarrow> 'a ipnet_scheme \<Rightarrow> 'a ipnet_scheme" where
  "raw_netif_ip_addr_changed old_addr new_addr s =
     (case (old_addr, new_addr) of
        (Some old, Some new) \<Rightarrow>
          if old \<noteq> IPADDR_ANY \<and> new \<noteq> IPADDR_ANY then
            s\<lparr>raw_mem := (\<lambda>a. if a \<in> set (raw_pcbs s)
                              then map_option (\<lambda>c. if rp_local_ip c = old then c\<lparr>rp_local_ip := new\<rparr> else c) (raw_mem s a)
                              else raw_mem s a)\<rparr>
          else s
      | _ \<Rightarrow> s)"

subsection \<open>Sending\<close>

definition raw_sendto_if_src ::
  "addr option \<Rightarrow> addr \<Rightarrow> u32 option \<Rightarrow> netif_ref option \<Rightarrow> u32 option \<Rightarrow> 'a ipnet_scheme \<Rightarrow> (err_t \<times> 'a ipnet_scheme) option" where
  "raw_sendto_if_src pcb p dst_ip netif src_ip s =
     (case (pcb, dst_ip, netif, src_ip) of
        (Some a, Some dst, Some r, Some src) \<Rightarrow>
          do {
            pcb \<leftarrow> raw_mem s a;
            b \<leftarrow> h_pbuf (net_heap s) p;
            if rp_flags pcb AND RAW_FLAGS_HDRINCL \<noteq> 0 then
              if unat (p_len b) < IP_HLEN then Some (ERR_VAL, s)
              else ip4_output_if p (Some src) None 0 0 0 r s
            else if p_tot_len b + of_nat IP_HLEN < p_tot_len b then Some (ERR_MEM, s)
            else do {
              (failed, h) \<leftarrow> pbuf_add_header (Some p) IP_HLEN (net_heap s);
              if failed \<noteq> 0 then
                do {
                  (q, h) \<leftarrow> pbuf_alloc PBUF_IP 0 PBUF_RAM h;
                  case q of
                    None \<Rightarrow> Some (ERR_MEM, s\<lparr>net_heap := h\<rparr>)
                  | Some qa \<Rightarrow>
                      do {
                        h \<leftarrow> (if p_tot_len b \<noteq> 0 then pbuf_chain (Some qa) (Some p) h else Some h);
                        (err, s) \<leftarrow> ip4_output_if qa (Some src) (Some dst) (rp_ttl pcb) (rp_tos pcb) (rp_protocol pcb) r
                                      (s\<lparr>net_heap := h\<rparr>);
                        (c, h) \<leftarrow> pbuf_free (Some qa) (net_heap s);
                        Some (err, s\<lparr>net_heap := h\<rparr>)
                      }
                }
              else do {
                (failed, h) \<leftarrow> pbuf_remove_header (Some p) IP_HLEN h;
                if failed \<noteq> 0 then None
                else ip4_output_if p (Some src) (Some dst) (rp_ttl pcb) (rp_tos pcb) (rp_protocol pcb) r (s\<lparr>net_heap := h\<rparr>)
              }
            }
          }
      | _ \<Rightarrow> Some (ERR_VAL, s))"

definition raw_sendto :: "addr option \<Rightarrow> addr \<Rightarrow> u32 option \<Rightarrow> 'a ipnet_scheme \<Rightarrow> (err_t \<times> 'a ipnet_scheme) option" where
  "raw_sendto pcb p ipaddr s =
     (case (pcb, ipaddr) of
        (Some a, Some ip) \<Rightarrow>
          do {
            c \<leftarrow> raw_mem s a;
            case (if rp_netif_idx c \<noteq> NETIF_NO_INDEX then netif_get_by_index (rp_netif_idx c) s else ip4_route ip s) of
              None \<Rightarrow> Some (ERR_RTE, s)
            | Some r \<Rightarrow>
                let src = (if rp_local_ip c = IPADDR_ANY \<or> ip4_addr_ismulticast (rp_local_ip c)
                           then ip_addr (netifs s r) else rp_local_ip c)
                in raw_sendto_if_src (Some a) p (Some ip) (Some r) (Some src) s
          }
      | _ \<Rightarrow> Some (ERR_VAL, s))"

definition raw_send :: "addr \<Rightarrow> addr \<Rightarrow> 'a ipnet_scheme \<Rightarrow> (err_t \<times> 'a ipnet_scheme) option" where
  "raw_send a p s = do { c \<leftarrow> raw_mem s a; raw_sendto (Some a) p (Some (rp_remote_ip c)) s }"

subsection \<open>The program's callback\<close>

text \<open>\<^verbatim>\<open>icmp_recv_func\<close> of \<^verbatim>\<open>net/lwip_icmp_callback.h\<close> reads the header length and leaves the packet alone.\<close>

definition icmp_recv_func :: "nat option \<Rightarrow> addr \<Rightarrow> addr \<Rightarrow> u32 \<Rightarrow> 'a ipnet_scheme \<Rightarrow> (u8 \<times> 'a ipnet_scheme) option" where
  "icmp_recv_func arg pcb p src s =
     do { b \<leftarrow> h_pbuf (net_heap s) p; v_hl \<leftarrow> rd8 (net_heap s) (p_payload b) 0; Some (0, s) }"

definition raw_recv_call :: "'a recv_call" where
  "raw_recv_call recv = icmp_recv_func"

end
