(* ===== verification/Icmp.thy ===== *)
theory Icmp
  imports Raw
begin

text \<open>
  ICMP: \<^verbatim>\<open>lwip/core/ipv4/icmp.c\<close>. The echo responder and the error messages. \<^verbatim>\<open>CHECKSUM_CHECK_ICMP\<close> and
  \<^verbatim>\<open>LWIP_ICMP_ECHO_CHECK_INPUT_PBUF_LEN\<close> are on, pings to broadcast and multicast addresses are not
  answered.
\<close>

definition ICMP_ER :: u8 where "ICMP_ER = 0"
definition ICMP_DUR :: u8 where "ICMP_DUR = 3"
definition ICMP_ECHO :: u8 where "ICMP_ECHO = 8"
definition ICMP_TTL :: u8 where "ICMP_TTL = 64"
definition ICMP_DUR_PROTO :: u8 where "ICMP_DUR_PROTO = 2"
definition ICMP_HDR_SIZE :: nat where "ICMP_HDR_SIZE = 8"
definition PBUF_LINK_HLEN :: nat where "PBUF_LINK_HLEN = 14"
definition ICMP_DEST_UNREACH_DATASIZE :: nat where "ICMP_DEST_UNREACH_DATASIZE = 8"

text \<open>The bytes of a chain as \<^verbatim>\<open>inet_chksum_pbuf\<close> walks it, with the parity of each payload pointer.\<close>

fun pbuf_chain_bytes :: "nat \<Rightarrow> addr option \<Rightarrow> heap \<Rightarrow> chain option" where
  "pbuf_chain_bytes 0 p h = None"
| "pbuf_chain_bytes (Suc fuel) None h = Some []"
| "pbuf_chain_bytes (Suc fuel) (Some a) h =
     do {
       b \<leftarrow> h_pbuf h a;
       bs \<leftarrow> mem_read h (p_payload b) 0 (unat (p_len b));
       rest \<leftarrow> pbuf_chain_bytes fuel (p_next b) h;
       Some ((case p_payload b of None \<Rightarrow> False | Some (blk, off) \<Rightarrow> odd off, bs) # rest)
     }"

subsection \<open>Error messages\<close>

definition icmp_send_response :: "addr \<Rightarrow> u8 \<Rightarrow> u8 \<Rightarrow> 'a ipnet_scheme \<Rightarrow> 'a ipnet_scheme option" where
  "icmp_send_response p type code s =
     do {
       let n = ICMP_HDR_SIZE + IP_HLEN + ICMP_DEST_UNREACH_DATASIZE;
       (q, h) \<leftarrow> pbuf_alloc PBUF_IP (of_nat n) PBUF_RAM (net_heap s);
       case q of
         None \<Rightarrow> Some (s\<lparr>net_heap := h\<rparr>)
       | Some qa \<Rightarrow>
           do {
             qb \<leftarrow> h_pbuf h qa;
             if \<not> unat (p_len qb) \<ge> n then None
             else do {
               b \<leftarrow> h_pbuf h p;
               let iphdr = p_payload b;
               let icmphdr = p_payload qb;
               h \<leftarrow> wr8 icmphdr 0 type h;
               h \<leftarrow> wr8 icmphdr 1 code h;
               h \<leftarrow> wr16 icmphdr 4 0 h;
               h \<leftarrow> wr16 icmphdr 6 0 h;
               orig \<leftarrow> mem_read h iphdr 0 (IP_HLEN + ICMP_DEST_UNREACH_DATASIZE);
               h \<leftarrow> mem_write h icmphdr ICMP_HDR_SIZE orig;
               iphdr_src \<leftarrow> rd32 h iphdr 12;
               s \<leftarrow> (case ip4_route iphdr_src s of
                       None \<Rightarrow> Some (s\<lparr>net_heap := h\<rparr>)
                     | Some netif \<Rightarrow> do {
                         h \<leftarrow> wr16 icmphdr 2 0 h;
                         msg \<leftarrow> mem_read h icmphdr 0 (unat (p_len qb));
                         h \<leftarrow> wr16 icmphdr 2 (inet_chksum lwip_standard_chksum False msg) h;
                         (err, s) \<leftarrow> ip4_output_if qa None (Some iphdr_src) ICMP_TTL 0 IP_PROTO_ICMP netif (s\<lparr>net_heap := h\<rparr>);
                         Some s
                       });
               (c, h) \<leftarrow> pbuf_free (Some qa) (net_heap s);
               Some (s\<lparr>net_heap := h\<rparr>)
             }
           }
     }"

definition icmp_dest_unreach :: "addr \<Rightarrow> u8 \<Rightarrow> 'a ipnet_scheme \<Rightarrow> 'a ipnet_scheme option" where
  "icmp_dest_unreach p t s = icmp_send_response p ICMP_DUR t s"

subsection \<open>Echo\<close>

text \<open>The targets \<^verbatim>\<open>lenerr\<close> and \<^verbatim>\<open>icmperr\<close>, and the end of the \<^verbatim>\<open>switch\<close>.\<close>

definition icmp_drop :: "addr \<Rightarrow> 'a ipnet_scheme \<Rightarrow> 'a ipnet_scheme option" where
  "icmp_drop p s = do { (c, h) \<leftarrow> pbuf_free (Some p) (net_heap s); Some (s\<lparr>net_heap := h\<rparr>) }"

text \<open>Room for the headers in front of the message: the pbuf to answer with, which is a copy when \<open>p\<close> has
  no room; \<open>Inl\<close> is \<^verbatim>\<open>goto icmperr\<close>.\<close>

definition icmp_echo_room :: "addr \<Rightarrow> nat \<Rightarrow> ptr option \<Rightarrow> heap \<Rightarrow> ((unit + addr) \<times> heap) option" where
  "icmp_echo_room p hlen iphdr_in h =
     do {
       (failed, h) \<leftarrow> pbuf_add_header (Some p) (hlen + PBUF_LINK_HLEN) h;
       if failed \<noteq> 0 then
         do {
           b \<leftarrow> h_pbuf h p;
           let alloc_len = p_tot_len b + of_nat hlen;
           if alloc_len < p_tot_len b then Some (Inl (), h)
           else do {
             (r, h) \<leftarrow> pbuf_alloc PBUF_LINK alloc_len PBUF_RAM h;
             case r of
               None \<Rightarrow> Some (Inl (), h)
             | Some ra \<Rightarrow>
                 do {
                   rb \<leftarrow> h_pbuf h ra;
                   if unat (p_len rb) < hlen + ICMP_HDR_SIZE then
                     do { (c, h) \<leftarrow> pbuf_free (Some ra) h; Some (Inl (), h) }
                   else do {
                     hdr \<leftarrow> mem_read h iphdr_in 0 hlen;
                     h \<leftarrow> mem_write h (p_payload rb) 0 hdr;
                     (failed, h) \<leftarrow> pbuf_remove_header (Some ra) hlen h;
                     if failed \<noteq> 0 then None
                     else do {
                       (err, h) \<leftarrow> pbuf_copy (Some ra) (Some p) h;
                       if err \<noteq> ERR_OK then do { (c, h) \<leftarrow> pbuf_free (Some ra) h; Some (Inl (), h) }
                       else do { (c, h) \<leftarrow> pbuf_free (Some p) h; Some (Inr ra, h) }
                     }
                   }
                 }
           }
         }
       else do {
         (failed, h) \<leftarrow> pbuf_remove_header (Some p) (hlen + PBUF_LINK_HLEN) h;
         if failed \<noteq> 0 then None else Some (Inr p, h)
       }
     }"

text \<open>The incremental update of the checksum when the type goes from echo request to echo reply.\<close>

definition icmp_echo_chksum :: "u16 \<Rightarrow> u16" where
  "icmp_echo_chksum chksum =
     (if chksum > PP_HTONS (0xffff - push_bit 8 (ucast ICMP_ECHO)) then chksum + PP_HTONS (push_bit 8 (ucast ICMP_ECHO)) + 1
      else chksum + PP_HTONS (push_bit 8 (ucast ICMP_ECHO)))"

definition icmp_echo_reply :: "addr \<Rightarrow> nat \<Rightarrow> u32 \<Rightarrow> netif_ref \<Rightarrow> 'a ipnet_scheme \<Rightarrow> 'a ipnet_scheme option" where
  "icmp_echo_reply p hlen src inp s =
     do {
       b \<leftarrow> h_pbuf (net_heap s) p;
       let iecho = p_payload b;
       (failed, h) \<leftarrow> pbuf_add_header (Some p) hlen (net_heap s);
       s \<leftarrow> (if failed \<noteq> 0 then Some (s\<lparr>net_heap := h\<rparr>)
             else do {
               b \<leftarrow> h_pbuf h p;
               let iphdr = p_payload b;
               h \<leftarrow> wr32 iphdr 12 src h;
               h \<leftarrow> wr32 iphdr 16 (current_iphdr_src (ip_data s)) h;
               h \<leftarrow> wr8 iecho 0 ICMP_ER h;
               c \<leftarrow> rd16 h iecho 2;
               h \<leftarrow> wr16 iecho 2 (icmp_echo_chksum c) h;
               h \<leftarrow> wr8 iphdr 8 ICMP_TTL h;
               h \<leftarrow> wr16 iphdr 10 0 h;
               hdr \<leftarrow> mem_read h iphdr 0 hlen;
               h \<leftarrow> wr16 iphdr 10 (inet_chksum lwip_standard_chksum False hdr) h;
               (ret, s) \<leftarrow> ip4_output_if p (Some src) None ICMP_TTL 0 IP_PROTO_ICMP inp (s\<lparr>net_heap := h\<rparr>);
               Some s
             });
       icmp_drop p s
     }"

definition icmp_echo :: "addr \<Rightarrow> nat \<Rightarrow> netif_ref \<Rightarrow> 'a ipnet_scheme \<Rightarrow> 'a ipnet_scheme option" where
  "icmp_echo p hlen inp s =
     do {
       let src = current_iphdr_dest (ip_data s);
       if ip4_addr_ismulticast src then icmp_drop p s
       else do {
         cur \<leftarrow> current_netif (ip_data s);
         if ip4_addr_isbroadcast_u32 src (netifs s cur) then icmp_drop p s
         else do {
         b \<leftarrow> h_pbuf (net_heap s) p;
         if unat (p_tot_len b) < ICMP_HDR_SIZE then icmp_drop p s
         else do {
           bytes \<leftarrow> pbuf_chain_bytes (walk (net_heap s)) (Some p) (net_heap s);
           if inet_chksum_pbuf lwip_standard_chksum bytes \<noteq> 0 then icmp_drop p s
           else do {
             (room, h) \<leftarrow> icmp_echo_room p hlen (current_ip4_header (ip_data s)) (net_heap s);
             case room of
               Inl _ \<Rightarrow> icmp_drop p (s\<lparr>net_heap := h\<rparr>)
             | Inr p \<Rightarrow> icmp_echo_reply p hlen src inp (s\<lparr>net_heap := h\<rparr>)
           }
         }
         }
       }
     }"

definition icmp_input :: "addr \<Rightarrow> netif_ref \<Rightarrow> 'a ipnet_scheme \<Rightarrow> 'a ipnet_scheme option" where
  "icmp_input p inp s =
     do {
       v_hl \<leftarrow> rd8 (net_heap s) (current_ip4_header (ip_data s)) 0;
       let hlen = unat (IPH_HL_BYTES v_hl);
       if hlen < IP_HLEN then icmp_drop p s
       else do {
         b \<leftarrow> h_pbuf (net_heap s) p;
         if unat (p_len b) < 4 then icmp_drop p s
         else do {
           type \<leftarrow> rd8 (net_heap s) (p_payload b) 0;
           if type = ICMP_ECHO then icmp_echo p hlen inp s
           else icmp_drop p s
         }
       }
     }"

end
