(* ===== verification/Ip4_Input.thy ===== *)
theory Ip4_Input
  imports Icmp
begin

text \<open>
  Receiving IPv4 packets: \<^verbatim>\<open>ip4_input\<close> of \<^verbatim>\<open>lwip/core/ipv4/ip4.c\<close>, \<^verbatim>\<open>netif_input\<close> and \<^verbatim>\<open>netif_poll\<close> of
  \<^verbatim>\<open>lwip/core/netif.c\<close>. The transport protocols \<open>udp_input\<close> and \<open>tcp_input\<close> and the call of raw receive
  callbacks are arguments. \<^verbatim>\<open>IP_REASSEMBLY\<close>, \<^verbatim>\<open>IP_FORWARD\<close>, \<^verbatim>\<open>CHECKSUM_CHECK_IP\<close> and \<^verbatim>\<open>LWIP_IGMP\<close> are off, IP options
  are allowed.
\<close>

type_synonym 'a proto_input = "addr \<Rightarrow> netif_ref \<Rightarrow> 'a ipnet_scheme \<Rightarrow> 'a ipnet_scheme option"

text \<open>The program accepts packets for every address on every interface.\<close>

definition ip4_input_accept :: "netif_ref \<Rightarrow> 'a ipnet_scheme \<Rightarrow> bool" where
  "ip4_input_accept netif s = True"

definition ip4_drop :: "addr \<Rightarrow> 'a ipnet_scheme \<Rightarrow> (err_t \<times> 'a ipnet_scheme) option" where
  "ip4_drop p s = do { (c, h) \<leftarrow> pbuf_free (Some p) (net_heap s); Some (ERR_OK, s\<lparr>net_heap := h\<rparr>) }"

text \<open>The interface a packet is for; the search of the interface list when \<open>inp\<close> does not take it.\<close>

definition ip4_input_netif :: "netif_ref \<Rightarrow> 'a ipnet_scheme \<Rightarrow> netif_ref option" where
  "ip4_input_netif inp s =
     (if ip4_addr_ismulticast (current_iphdr_dest (ip_data s)) then
        if netif_is_up (netifs s inp) \<and> ip_addr (netifs s inp) \<noteq> IPADDR_ANY then Some inp else None
      else if ip4_input_accept inp s then Some inp
      else if current_iphdr_dest (ip_data s) AND PP_HTONL 0xff000000 \<noteq> PP_HTONL 0x7f000000 then
        find (\<lambda>r. r \<noteq> inp \<and> ip4_input_accept r s) (netif_list s)
      else None)"

text \<open>The \<^verbatim>\<open>switch\<close> over the protocol, with the pbuf moved to the payload.\<close>

definition ip4_deliver ::
  "'a proto_input \<Rightarrow> 'a proto_input \<Rightarrow> addr \<Rightarrow> ptr option \<Rightarrow> nat \<Rightarrow> netif_ref \<Rightarrow> netif_ref \<Rightarrow> raw_input_state \<Rightarrow>
     'a ipnet_scheme \<Rightarrow> 'a ipnet_scheme option" where
  "ip4_deliver udp_input tcp_input p iphdr iphdr_hlen netif inp raw_status s =
     do {
       (failed, h) \<leftarrow> pbuf_remove_header (Some p) iphdr_hlen (net_heap s);
       let s = s\<lparr>net_heap := h\<rparr>;
       proto \<leftarrow> rd8 h iphdr 9;
       if proto = IP_PROTO_UDP then udp_input p inp s
       else if proto = IP_PROTO_TCP then tcp_input p inp s
       else if proto = IP_PROTO_ICMP then icmp_input p inp s
       else do {
         s \<leftarrow> (if raw_status = RAW_INPUT_DELIVERED then Some s
               else if \<not> ip4_addr_isbroadcast_u32 (current_iphdr_dest (ip_data s)) (netifs s netif) \<and>
                       \<not> ip4_addr_ismulticast (current_iphdr_dest (ip_data s)) then
                 do {
                   (failed, h) \<leftarrow> pbuf_header_force (Some p) (of_nat iphdr_hlen) (net_heap s);
                   icmp_dest_unreach p ICMP_DUR_PROTO (s\<lparr>net_heap := h\<rparr>)
                 }
               else Some s);
         (c, h) \<leftarrow> pbuf_free (Some p) (net_heap s);
         Some (s\<lparr>net_heap := h\<rparr>)
       }
     }"

definition no_ip_data :: ip_globals where
  "no_ip_data = \<lparr>current_netif = None, current_input_netif = None, current_ip4_header = None,
                 current_ip_header_tot_len = 0, current_iphdr_src = IPADDR_ANY, current_iphdr_dest = IPADDR_ANY\<rparr>"

text \<open>The three stages of \<^verbatim>\<open>ip4_input\<close>, last first: the upper layers, the address and fragment checks, the
  version and length checks.\<close>

definition ip4_input_upper ::
  "'a recv_call \<Rightarrow> 'a proto_input \<Rightarrow> 'a proto_input \<Rightarrow> addr \<Rightarrow> ptr option \<Rightarrow> nat \<Rightarrow> netif_ref \<Rightarrow> netif_ref \<Rightarrow>
     'a ipnet_scheme \<Rightarrow> (err_t \<times> 'a ipnet_scheme) option" where
  "ip4_input_upper call udp_input tcp_input p iphdr iphdr_hlen netif inp s =
     do {
       let s = s\<lparr>ip_data := (ip_data s)\<lparr>current_netif := Some netif, current_input_netif := Some inp,
                                       current_ip4_header := iphdr, current_ip_header_tot_len := of_nat iphdr_hlen\<rparr>\<rparr>;
       (raw_status, s) \<leftarrow> raw_input call p s;
       s \<leftarrow> (if raw_status = RAW_INPUT_EATEN then Some s
             else ip4_deliver udp_input tcp_input p iphdr iphdr_hlen netif inp raw_status s);
       Some (ERR_OK, s\<lparr>ip_data := no_ip_data\<rparr>)
     }"

definition ip4_input_checked ::
  "'a recv_call \<Rightarrow> 'a proto_input \<Rightarrow> 'a proto_input \<Rightarrow> addr \<Rightarrow> ptr option \<Rightarrow> nat \<Rightarrow> netif_ref \<Rightarrow>
     'a ipnet_scheme \<Rightarrow> (err_t \<times> 'a ipnet_scheme) option" where
  "ip4_input_checked call udp_input tcp_input p iphdr iphdr_hlen inp s =
     do {
       dest \<leftarrow> rd32 (net_heap s) iphdr 16;
       src \<leftarrow> rd32 (net_heap s) iphdr 12;
       let s = s\<lparr>ip_data := (ip_data s)\<lparr>current_iphdr_dest := dest, current_iphdr_src := src\<rparr>\<rparr>;
       let netif = ip4_input_netif inp s;
       if ip4_addr_isbroadcast_u32 src (netifs s inp) \<or> ip4_addr_ismulticast src then ip4_drop p s
       else case netif of
         None \<Rightarrow> ip4_drop p s
       | Some netif \<Rightarrow> do {
           offset \<leftarrow> rd16 (net_heap s) iphdr 6;
           if offset AND PP_HTONS (IP_OFFMASK OR IP_MF) \<noteq> 0 then ip4_drop p s
           else ip4_input_upper call udp_input tcp_input p iphdr iphdr_hlen netif inp s
         }
     }"

definition ip4_input ::
  "'a recv_call \<Rightarrow> 'a proto_input \<Rightarrow> 'a proto_input \<Rightarrow> addr \<Rightarrow> netif_ref \<Rightarrow> 'a ipnet_scheme \<Rightarrow>
     (err_t \<times> 'a ipnet_scheme) option" where
  "ip4_input call udp_input tcp_input p inp s =
     do {
       b \<leftarrow> h_pbuf (net_heap s) p;
       let iphdr = p_payload b;
       v_hl \<leftarrow> rd8 (net_heap s) iphdr 0;
       if IPH_V v_hl \<noteq> 4 then ip4_drop p s
       else do {
         let iphdr_hlen = unat (IPH_HL_BYTES v_hl);
         len_be \<leftarrow> rd16 (net_heap s) iphdr 2;
         let iphdr_len = lwip_ntohs len_be;
         h \<leftarrow> (if iphdr_len < p_tot_len b then pbuf_realloc (Some p) iphdr_len (net_heap s) else Some (net_heap s));
         b \<leftarrow> h_pbuf h p;
         if iphdr_hlen > unat (p_len b) \<or> iphdr_len > p_tot_len b \<or> iphdr_hlen < IP_HLEN then ip4_drop p (s\<lparr>net_heap := h\<rparr>)
         else ip4_input_checked call udp_input tcp_input p iphdr iphdr_hlen inp (s\<lparr>net_heap := h\<rparr>)
       }
     }"

text \<open>\<^verbatim>\<open>netif_input\<close> without Ethernet, and the interface's own input function.\<close>

definition netif_input ::
  "'a recv_call \<Rightarrow> 'a proto_input \<Rightarrow> 'a proto_input \<Rightarrow> addr option \<Rightarrow> netif_ref option \<Rightarrow> 'a ipnet_scheme \<Rightarrow>
     (err_t \<times> 'a ipnet_scheme) option" where
  "netif_input call udp_input tcp_input p inp s =
     do { a \<leftarrow> p; r \<leftarrow> inp; ip4_input call udp_input tcp_input a r s }"

definition netif_input_func ::
  "'a recv_call \<Rightarrow> 'a proto_input \<Rightarrow> 'a proto_input \<Rightarrow> addr \<Rightarrow> netif_ref \<Rightarrow> 'a ipnet_scheme \<Rightarrow>
     (err_t \<times> 'a ipnet_scheme) option" where
  "netif_input_func call udp_input tcp_input p inp s = ip4_input call udp_input tcp_input p inp s"

subsection \<open>Packets the interface sent to itself\<close>

text \<open>The last pbuf of the first packet of the loop queue.\<close>

fun loop_packet_end :: "nat \<Rightarrow> addr \<Rightarrow> heap \<Rightarrow> addr option" where
  "loop_packet_end 0 a h = None"
| "loop_packet_end (Suc fuel) a h =
     do {
       b \<leftarrow> h_pbuf h a;
       if p_len b = p_tot_len b then Some a else do { q \<leftarrow> p_next b; loop_packet_end fuel q h }
     }"

definition netif_loop_dequeue :: "netif_ref \<Rightarrow> addr \<Rightarrow> 'a ipnet_scheme \<Rightarrow> 'a ipnet_scheme option" where
  "netif_loop_dequeue r a s =
     do {
       in_end \<leftarrow> loop_packet_end (walk (net_heap s)) a (net_heap s);
       e \<leftarrow> h_pbuf (net_heap s) in_end;
       n \<leftarrow> (if loop_last (netifs s r) = Some in_end then Some ((netifs s r)\<lparr>loop_first := None, loop_last := None\<rparr>)
             else do { q \<leftarrow> p_next e; Some ((netifs s r)\<lparr>loop_first := Some q\<rparr>) });
       let h = set_pbuf in_end (e\<lparr>p_next := None\<rparr>) (net_heap s);
       b \<leftarrow> h_pbuf h a;
       let h = set_pbuf a (b\<lparr>p_if_idx := netif_get_index (netifs s r)\<rparr>) h;
       Some (set_netif r n (s\<lparr>net_heap := h\<rparr>))
     }"

fun netif_poll ::
  "nat \<Rightarrow> 'a recv_call \<Rightarrow> 'a proto_input \<Rightarrow> 'a proto_input \<Rightarrow> netif_ref \<Rightarrow> 'a ipnet_scheme \<Rightarrow> 'a ipnet_scheme option" where
  "netif_poll 0 call udp_input tcp_input r s = None"
| "netif_poll (Suc fuel) call udp_input tcp_input r s =
     (case loop_first (netifs s r) of
        None \<Rightarrow> Some s
      | Some a \<Rightarrow>
          do {
            s \<leftarrow> netif_loop_dequeue r a s;
            (err, s) \<leftarrow> ip4_input call udp_input tcp_input a r s;
            s \<leftarrow> (if err \<noteq> ERR_OK then do { (c, h) \<leftarrow> pbuf_free (Some a) (net_heap s); Some (s\<lparr>net_heap := h\<rparr>) } else Some s);
            netif_poll fuel call udp_input tcp_input r s
          })"

fun netif_poll_list ::
  "nat \<Rightarrow> 'a recv_call \<Rightarrow> 'a proto_input \<Rightarrow> 'a proto_input \<Rightarrow> netif_ref list \<Rightarrow> 'a ipnet_scheme \<Rightarrow> 'a ipnet_scheme option" where
  "netif_poll_list fuel call udp_input tcp_input [] s = Some s"
| "netif_poll_list fuel call udp_input tcp_input (r # rs) s =
     do { s \<leftarrow> netif_poll fuel call udp_input tcp_input r s; netif_poll_list fuel call udp_input tcp_input rs s }"

definition netif_poll_all ::
  "nat \<Rightarrow> 'a recv_call \<Rightarrow> 'a proto_input \<Rightarrow> 'a proto_input \<Rightarrow> 'a ipnet_scheme \<Rightarrow> 'a ipnet_scheme option" where
  "netif_poll_all fuel call udp_input tcp_input s = netif_poll_list fuel call udp_input tcp_input (netif_list s) s"

subsection \<open>Raw sockets of the program\<close>

text \<open>With the program's callback every raw pcb leaves the packet and the state alone.\<close>

definition raw_ok :: "'a ipnet_scheme \<Rightarrow> bool" where
  "raw_ok s = (distinct (raw_pcbs s) \<and> (\<forall>a\<in>set (raw_pcbs s). raw_mem s a \<noteq> None \<and> a < h_next (net_heap s)))"

lemma raw_pcb_matches_defined:
  "current_input_netif (ip_data s) = Some r \<Longrightarrow> raw_pcb_matches c proto bc s \<noteq> None"
  by (auto simp: raw_pcb_matches_def raw_input_local_match_def)

lemma raw_input_loop_program:
  assumes "current_input_netif (ip_data s) = Some r" "h_pbuf (net_heap s) p = Some b" "rd8 (net_heap s) (p_payload b) 0 = Some v"
    and "\<forall>a\<in>set as. raw_mem s a \<noteq> None" "ret \<noteq> RAW_INPUT_EATEN"
  shows "\<exists>st. raw_input_loop raw_recv_call p proto bc vs as ret s = Some (st, s) \<and> st \<noteq> RAW_INPUT_EATEN"
  using assms(4,5)
proof (induction as arbitrary: vs ret)
  case (Cons a as)
  obtain c where c: "raw_mem s a = Some c" using Cons.prems(1) by auto
  obtain m where m: "raw_pcb_matches c proto bc s = Some m" using raw_pcb_matches_defined [OF assms(1)] by blast
  show ?case
    using c m Cons assms(2,3)
    by (cases "if m then rp_recv c else None") (auto simp: raw_recv_call_def icmp_recv_func_def)
qed simp

lemma raw_input_program:
  assumes "current_netif (ip_data s) = Some r" "current_input_netif (ip_data s) = Some r'" "raw_ok s"
    and "h_pbuf (net_heap s) p = Some b" "rd8 (net_heap s) (p_payload b) 0 = Some v" "rd8 (net_heap s) (p_payload b) 9 = Some w"
  shows "\<exists>st. raw_input raw_recv_call p s = Some (st, s) \<and> st \<noteq> RAW_INPUT_EATEN"
  using assms raw_input_loop_program [OF assms(2,4,5), of "raw_pcbs s" RAW_INPUT_NONE]
  by (auto simp: raw_input_def raw_ok_def)

subsection \<open>Packets in one piece\<close>

lemma rd_ram:
  "off < length data \<Longrightarrow> rd8 (ram a pre data post h) (Some (a, int (length pre))) off = Some (data ! off)"
  "Suc off < length data \<Longrightarrow>
   rd16 (ram a pre data post h) (Some (a, int (length pre))) off = Some (le16 (data ! off) (data ! Suc off))"
  "off + 4 \<le> length data \<Longrightarrow>
   rd32 (ram a pre data post h) (Some (a, int (length pre))) off =
     Some (le32 (data ! off) (data ! (off + 1)) (data ! (off + 2)) (data ! (off + 3)))"
  by (simp_all add: rd8_def rd16_def rd32_def mem_read_ram_payload slice_def)

text \<open>Moving the payload pointer does not change what other pointers read.\<close>

lemma mem_read_ram_shift:
  "pre @ data @ post = pre' @ data' @ post' \<Longrightarrow>
   mem_read (ram a pre data post h) q off n = mem_read (ram a pre' data' post' h) q off n"
  by (simp add: mem_read_def)

text \<open>What the IP layer reads from a packet.\<close>

definition ip_hlen :: "bytes \<Rightarrow> nat" where
  "ip_hlen pkt = unat (IPH_HL_BYTES (pkt ! 0))"

definition ip_len :: "bytes \<Rightarrow> nat" where
  "ip_len pkt = unat (lwip_ntohs (le16 (pkt ! 2) (pkt ! 3)))"

definition ip_src :: "bytes \<Rightarrow> u32" where
  "ip_src pkt = le32 (pkt ! 12) (pkt ! 13) (pkt ! 14) (pkt ! 15)"

definition ip_dest :: "bytes \<Rightarrow> u32" where
  "ip_dest pkt = le32 (pkt ! 16) (pkt ! 17) (pkt ! 18) (pkt ! 19)"

definition ip_fragment :: "bytes \<Rightarrow> bool" where
  "ip_fragment pkt = (le16 (pkt ! 6) (pkt ! 7) AND PP_HTONS (IP_OFFMASK OR IP_MF) \<noteq> 0)"

definition ip_lengths_ok :: "bytes \<Rightarrow> bool" where
  "ip_lengths_ok pkt = (20 \<le> ip_hlen pkt \<and> ip_hlen pkt \<le> ip_len pkt \<and> ip_len pkt \<le> length pkt)"

definition ip_source_ok :: "bytes \<Rightarrow> netif \<Rightarrow> bool" where
  "ip_source_ok pkt n = (\<not> ip4_addr_isbroadcast_u32 (ip_src pkt) n \<and> \<not> ip4_addr_ismulticast (ip_src pkt))"

text \<open>The trimmed packet: the heap and the length fields after the first checks.\<close>

lemma ip4_input_trim:
  assumes "net_heap s = ram p pre pkt post h" "20 \<le> length pkt" "length pkt < 65536"
  shows "\<exists>post'. (if lwip_ntohs (le16 (pkt ! 2) (pkt ! 3)) < of_nat (length pkt)
     then pbuf_realloc (Some p) (lwip_ntohs (le16 (pkt ! 2) (pkt ! 3))) (net_heap s) else Some (net_heap s)) =
     Some (ram p pre (take (ip_len pkt) pkt) post' h) \<and> take (ip_len pkt) pkt @ post' = pkt @ post"
proof -
  have n: "unat (of_nat (length pkt) :: u16) = length pkt" using assms(3) by (simp add: unat_of_nat)
  show ?thesis
  proof (cases "ip_len pkt < length pkt")
    case True
    then show ?thesis
      using assms n pbuf_realloc_ram [of "lwip_ntohs (le16 (pkt ! 2) (pkt ! 3))" pkt p pre post h]
      by (intro exI [of _ "drop (ip_len pkt) pkt @ post"]) (simp add: ip_len_def word_less_nat_alt)
  next
    case False
    then show ?thesis using assms n by (intro exI [of _ post]) (simp add: ip_len_def word_less_nat_alt)
  qed
qed

definition ip_context :: "netif_ref \<Rightarrow> ptr option \<Rightarrow> bytes \<Rightarrow> ip_globals" where
  "ip_context inp iphdr pkt =
     \<lparr>current_netif = Some inp, current_input_netif = Some inp, current_ip4_header = iphdr,
      current_ip_header_tot_len = of_nat (ip_hlen pkt), current_iphdr_src = ip_src pkt, current_iphdr_dest = ip_dest pkt\<rparr>"

text \<open>Which of the protocols gets the payload, with the header moved out of the way.\<close>

definition ip_upcall :: "'a proto_input \<Rightarrow> 'a proto_input \<Rightarrow> addr \<Rightarrow> netif_ref \<Rightarrow> u8 \<Rightarrow> 'a ipnet_scheme \<Rightarrow> 'a ipnet_scheme option" where
  "ip_upcall udp_input tcp_input p inp proto s =
     (if proto = IP_PROTO_UDP then udp_input p inp s
      else if proto = IP_PROTO_TCP then tcp_input p inp s
      else icmp_input p inp s)"

lemma nth_take_ip_len:
  assumes "ip_lengths_ok pkt"
  shows "i < 20 \<Longrightarrow> take (ip_len pkt) pkt ! i = pkt ! i" "20 \<le> length (take (ip_len pkt) pkt)"
  using assms by (auto simp: ip_lengths_ok_def)

lemma ip_data_net_heap [simp]: "s\<lparr>ip_data := x, net_heap := y\<rparr> = s\<lparr>net_heap := y, ip_data := x\<rparr>"
  by (cases s) simp

lemma bind_Some_map: "Option.bind x (\<lambda>y. Some (f y)) = map_option f x"
  by (cases x) simp_all

lemma ip4_input_upper_ram:
  assumes s: "net_heap s = ram p pre t post h" "raw_ok s"
    and t: "20 \<le> length t" "length t < 65536" "20 \<le> ip_hlen t" "ip_hlen t \<le> length t"
    and proto: "t ! 9 \<in> {IP_PROTO_UDP, IP_PROTO_TCP, IP_PROTO_ICMP}"
    and addrs: "current_iphdr_src (ip_data s) = ip_src t" "current_iphdr_dest (ip_data s) = ip_dest t"
  shows "ip4_input_upper raw_recv_call udp_input tcp_input p (Some (p, int (length pre))) (ip_hlen t) inp inp s =
    map_option (\<lambda>s. (ERR_OK, s\<lparr>ip_data := no_ip_data\<rparr>))
      (ip_upcall udp_input tcp_input p inp (t ! 9)
        (s\<lparr>net_heap := ram p (pre @ take (ip_hlen t) t) (drop (ip_hlen t) t) post h,
           ip_data := ip_context inp (Some (p, int (length pre))) t\<rparr>))"
proof -
  let ?ptr = "Some (p, int (length pre))" and ?h = "ram p (pre @ take (ip_hlen t) t) (drop (ip_hlen t) t) post h"
  let ?s = "s\<lparr>ip_data := ip_context inp ?ptr t\<rparr>"
  have ctx: "(ip_data s)\<lparr>current_netif := Some inp, current_input_netif := Some inp, current_ip4_header := ?ptr,
      current_ip_header_tot_len := of_nat (ip_hlen t)\<rparr> = ip_context inp ?ptr t"
    using addrs by (simp add: ip_context_def)
  have "raw_ok ?s" using s(2) by (simp add: raw_ok_def)
  moreover have "rd8 (net_heap s) ?ptr 0 = Some (t ! 0)" "rd8 (net_heap s) ?ptr 9 = Some (t ! 9)"
    unfolding s(1) by (rule rd_ram; use t(1) in linarith)+
  ultimately have "\<exists>st. raw_input raw_recv_call p ?s = Some (st, ?s) \<and> st \<noteq> RAW_INPUT_EATEN"
    by (intro raw_input_program [where b = "ram_struct p (length pre) (length t)"]) (simp_all add: ip_context_def s(1))
  then obtain st where st: "raw_input raw_recv_call p ?s = Some (st, ?s)" "st \<noteq> RAW_INPUT_EATEN" by blast
  have rm: "pbuf_remove_header (Some p) (ip_hlen t) (net_heap s) = Some (0, ?h)"
    using t s(1) by (simp add: pbuf_remove_header_ram)
  have "rd8 ?h ?ptr 9 = rd8 (net_heap s) ?ptr 9"
    unfolding rd8_def s(1) by (subst mem_read_ram_shift [where pre' = pre and data' = t and post' = post]) simp_all
  then have rd9: "rd8 ?h ?ptr 9 = Some (t ! 9)" using s(1) t(1) by (simp add: rd_ram)
  have "ip4_deliver udp_input tcp_input p ?ptr (ip_hlen t) inp inp st ?s =
      ip_upcall udp_input tcp_input p inp (t ! 9) (?s\<lparr>net_heap := ?h\<rparr>)"
    using rm rd9 proto by (auto simp: ip4_deliver_def ip_upcall_def)
  then show ?thesis
    using st ctx by (simp add: ip4_input_upper_def Let_def bind_Some_map)
qed

lemma ip4_input_checked_ram:
  assumes s: "net_heap s = ram p pre t post h" "raw_ok s"
    and t: "20 \<le> length t" "length t < 65536" "20 \<le> ip_hlen t" "ip_hlen t \<le> length t"
      "ip_source_ok t (netifs s inp)" "\<not> ip_fragment t"
      "\<not> ip4_addr_ismulticast (ip_dest t) \<or> netif_is_up (netifs s inp) \<and> ip_addr (netifs s inp) \<noteq> IPADDR_ANY"
    and proto: "t ! 9 \<in> {IP_PROTO_UDP, IP_PROTO_TCP, IP_PROTO_ICMP}"
  shows "ip4_input_checked raw_recv_call udp_input tcp_input p (Some (p, int (length pre))) (ip_hlen t) inp s =
    map_option (\<lambda>s. (ERR_OK, s\<lparr>ip_data := no_ip_data\<rparr>))
      (ip_upcall udp_input tcp_input p inp (t ! 9)
        (s\<lparr>net_heap := ram p (pre @ take (ip_hlen t) t) (drop (ip_hlen t) t) post h,
           ip_data := ip_context inp (Some (p, int (length pre))) t\<rparr>))"
proof -
  let ?ptr = "Some (p, int (length pre))"
  let ?s = "s\<lparr>ip_data := (ip_data s)\<lparr>current_iphdr_dest := ip_dest t, current_iphdr_src := ip_src t\<rparr>\<rparr>"
  have rds: "rd32 (net_heap s) ?ptr 16 = Some (ip_dest t)" "rd32 (net_heap s) ?ptr 12 = Some (ip_src t)"
    "rd16 (net_heap s) ?ptr 6 = Some (le16 (t ! 6) (t ! 7))"
    using s(1) t(1) by (simp_all add: rd_ram ip_dest_def ip_src_def)
  have "ip4_input_netif inp ?s = Some inp"
    using t(7) by (auto simp: ip4_input_netif_def ip4_input_accept_def)
  then have "ip4_input_checked raw_recv_call udp_input tcp_input p ?ptr (ip_hlen t) inp s =
      ip4_input_upper raw_recv_call udp_input tcp_input p ?ptr (ip_hlen t) inp inp ?s"
    using rds t(5,6) by (simp add: ip4_input_checked_def Let_def ip_source_ok_def ip_fragment_def)
  also have "raw_ok ?s" using s(2) by (simp add: raw_ok_def)
  note ip4_input_upper_ram [OF _ this t(1-4) proto, where pre = pre and post = post and h = h and inp = inp]
  finally show ?thesis using s(1) by simp
qed

lemma ip_fields_take:
  assumes "20 \<le> n"
  shows "ip_hlen (take n pkt) = ip_hlen pkt" "ip_src (take n pkt) = ip_src pkt" "ip_dest (take n pkt) = ip_dest pkt"
    "ip_fragment (take n pkt) = ip_fragment pkt" "ip_source_ok (take n pkt) m = ip_source_ok pkt m"
    "ip_context inp q (take n pkt) = ip_context inp q pkt" "take n pkt ! 9 = pkt ! 9"
  using assms by (simp_all add: ip_hlen_def ip_src_def ip_dest_def ip_fragment_def ip_source_ok_def ip_context_def)

lemma ip4_input_ram:
  assumes s: "net_heap s = ram p pre pkt post h" "raw_ok s"
    and pkt: "20 \<le> length pkt" "length pkt < 65536" "IPH_V (pkt ! 0) = 4" "ip_lengths_ok pkt"
      "ip_source_ok pkt (netifs s inp)" "\<not> ip_fragment pkt"
      "\<not> ip4_addr_ismulticast (ip_dest pkt) \<or> netif_is_up (netifs s inp) \<and> ip_addr (netifs s inp) \<noteq> IPADDR_ANY"
    and proto: "pkt ! 9 \<in> {IP_PROTO_UDP, IP_PROTO_TCP, IP_PROTO_ICMP}"
  shows "\<exists>post'. ip4_input raw_recv_call udp_input tcp_input p inp s =
      map_option (\<lambda>s. (ERR_OK, s\<lparr>ip_data := no_ip_data\<rparr>))
        (ip_upcall udp_input tcp_input p inp (pkt ! 9)
          (s\<lparr>net_heap := ram p (pre @ take (ip_hlen pkt) pkt) (drop (ip_hlen pkt) (take (ip_len pkt) pkt)) post' h,
             ip_data := ip_context inp (Some (p, int (length pre))) pkt\<rparr>))"
proof -
  let ?t = "take (ip_len pkt) pkt" and ?ptr = "Some (p, int (length pre))"
  obtain post' where tr: "(if lwip_ntohs (le16 (pkt ! 2) (pkt ! 3)) < of_nat (length pkt)
     then pbuf_realloc (Some p) (lwip_ntohs (le16 (pkt ! 2) (pkt ! 3))) (net_heap s) else Some (net_heap s)) =
     Some (ram p pre ?t post' h)"
    using ip4_input_trim [OF s(1) pkt(1,2)] by blast
  have len: "20 \<le> ip_hlen pkt" "ip_hlen pkt \<le> ip_len pkt" "ip_len pkt \<le> length pkt" "20 \<le> ip_len pkt"
    using pkt(4) by (auto simp: ip_lengths_ok_def)
  note eqs = ip_fields_take [OF len(4), where pkt = pkt]
  have n: "unat (of_nat (ip_len pkt) :: u16) = ip_len pkt" using len(3) pkt(2) by (simp add: unat_of_nat)
  have rds: "rd8 (net_heap s) ?ptr 0 = Some (pkt ! 0)" "rd16 (net_heap s) ?ptr 2 = Some (le16 (pkt ! 2) (pkt ! 3))"
  proof -
    have "0 < length pkt" using pkt(1) by linarith
    then show "rd8 (net_heap s) ?ptr 0 = Some (pkt ! 0)" unfolding s(1) by (rule rd_ram)
    show "rd16 (net_heap s) ?ptr 2 = Some (le16 (pkt ! 2) (pkt ! 3))"
      using rd_ram(2) [of 2 pkt p pre post h] pkt(1) s(1) by simp
  qed
  have le: "\<not> lwip_ntohs (le16 (pkt ! 2) (pkt ! 3)) > of_nat (ip_len pkt)"
    using n by (simp add: word_less_nat_alt ip_len_def)
  let ?s = "s\<lparr>net_heap := ram p pre ?t post' h\<rparr>"
  have "raw_ok ?s" using s by (simp add: raw_ok_def)
  then have "ip4_input_checked raw_recv_call udp_input tcp_input p ?ptr (ip_hlen pkt) inp ?s =
      map_option (\<lambda>s. (ERR_OK, s\<lparr>ip_data := no_ip_data\<rparr>))
        (ip_upcall udp_input tcp_input p inp (pkt ! 9)
          (s\<lparr>net_heap := ram p (pre @ take (ip_hlen pkt) pkt) (drop (ip_hlen pkt) ?t) post' h,
             ip_data := ip_context inp ?ptr pkt\<rparr>))"
    using ip4_input_checked_ram [of ?s p pre ?t post' h inp udp_input tcp_input] pkt(2,5-7) len proto
    by (simp add: eqs min_def)
  moreover have "ip4_input raw_recv_call udp_input tcp_input p inp s =
      ip4_input_checked raw_recv_call udp_input tcp_input p ?ptr (ip_hlen pkt) inp ?s"
    using s(1) rds pkt(3) tr n le len
    by (simp add: ip4_input_def Let_def min_def IP_HLEN_def flip: ip_hlen_def)
  ultimately show ?thesis by (intro exI [of _ post']) simp
qed

subsection \<open>Dropped packets\<close>

text \<open>A packet the IP layer refuses is freed and nothing else happens.\<close>

definition ip_refused :: "bytes \<Rightarrow> netif \<Rightarrow> bool" where
  "ip_refused pkt n =
     (IPH_V (pkt ! 0) \<noteq> 4 \<or> \<not> ip_lengths_ok pkt \<or> \<not> ip_source_ok pkt n \<or> ip_fragment pkt \<or>
      ip4_addr_ismulticast (ip_dest pkt) \<and> (\<not> netif_is_up n \<or> ip_addr n = IPADDR_ANY))"

lemma ip4_drop_ram:
  "net_heap s = ram p pre data post h \<Longrightarrow> 0 < h_next h \<Longrightarrow> ip4_drop p s = Some (ERR_OK, s\<lparr>net_heap := mem_free p h\<rparr>)"
  by (simp add: ip4_drop_def pbuf_free_ram)

lemma ip4_input_checked_refuses:
  assumes "net_heap s = ram p pre t post h" "0 < h_next h" "20 \<le> length t"
    and "\<not> ip_source_ok t (netifs s inp) \<or> ip_fragment t \<or>
      ip4_addr_ismulticast (ip_dest t) \<and> (\<not> netif_is_up (netifs s inp) \<or> ip_addr (netifs s inp) = IPADDR_ANY)"
  shows "\<exists>i. ip4_input_checked call udp_input tcp_input p (Some (p, int (length pre))) hlen inp s =
    Some (ERR_OK, s\<lparr>net_heap := mem_free p h, ip_data := i\<rparr>)"
proof -
  let ?ptr = "Some (p, int (length pre))"
  let ?i = "(ip_data s)\<lparr>current_iphdr_dest := ip_dest t, current_iphdr_src := ip_src t\<rparr>"
  have rds: "rd32 (net_heap s) ?ptr 16 = Some (ip_dest t)" "rd32 (net_heap s) ?ptr 12 = Some (ip_src t)"
    "rd16 (net_heap s) ?ptr 6 = Some (le16 (t ! 6) (t ! 7))"
    using assms(1,3) by (simp_all add: rd_ram ip_dest_def ip_src_def)
  have dr: "ip4_drop p (s\<lparr>ip_data := ?i\<rparr>) = Some (ERR_OK, s\<lparr>net_heap := mem_free p h, ip_data := ?i\<rparr>)"
    using ip4_drop_ram [of "s\<lparr>ip_data := ?i\<rparr>"] assms(1,2) by simp
  show ?thesis
    using rds dr assms(4)
    by (intro exI [of _ ?i])
      (auto simp: ip4_input_checked_def Let_def ip_source_ok_def ip_fragment_def ip4_input_netif_def ip4_input_accept_def)
qed

lemma ip4_input_refuses:
  assumes s: "net_heap s = ram p pre pkt post h" "0 < h_next h" "20 \<le> length pkt" "length pkt < 65536"
    and "ip_refused pkt (netifs s inp)"
  shows "\<exists>i. ip4_input call udp_input tcp_input p inp s = Some (ERR_OK, s\<lparr>net_heap := mem_free p h, ip_data := i\<rparr>)"
proof -
  let ?t = "take (ip_len pkt) pkt" and ?ptr = "Some (p, int (length pre))"
  obtain post' where tr: "(if lwip_ntohs (le16 (pkt ! 2) (pkt ! 3)) < of_nat (length pkt)
     then pbuf_realloc (Some p) (lwip_ntohs (le16 (pkt ! 2) (pkt ! 3))) (net_heap s) else Some (net_heap s)) =
     Some (ram p pre ?t post' h)"
    using ip4_input_trim [OF s(1,3,4)] by blast
  let ?s = "s\<lparr>net_heap := ram p pre ?t post' h\<rparr>"
  have "0 < length pkt" using s(3) by linarith
  then have rds: "rd8 (net_heap s) ?ptr 0 = Some (pkt ! 0)" unfolding s(1) by (rule rd_ram)
  have rd2: "rd16 (net_heap s) ?ptr 2 = Some (le16 (pkt ! 2) (pkt ! 3))"
    using rd_ram(2) [of 2 pkt p pre post h] s(1,3) by simp
  have dr: "ip4_drop p ?s = Some (ERR_OK, s\<lparr>net_heap := mem_free p h\<rparr>)" "ip4_drop p s = Some (ERR_OK, s\<lparr>net_heap := mem_free p h\<rparr>)"
    using ip4_drop_ram [of ?s] ip4_drop_ram [of s] s(1,2) by simp_all
  have n: "unat (of_nat (length ?t) :: u16) = length ?t" using s(4) by (simp add: unat_of_nat)
  have lt: "lwip_ntohs (le16 (pkt ! 2) (pkt ! 3)) > of_nat (length ?t) \<longleftrightarrow> ip_len pkt > length pkt"
    using n by (auto simp: word_less_nat_alt ip_len_def)
  have id: "s\<lparr>net_heap := mem_free p h\<rparr> = s\<lparr>net_heap := mem_free p h, ip_data := ip_data s\<rparr>" by simp
  have whole: "ip4_input call udp_input tcp_input p inp s =
      (if IPH_V (pkt ! 0) \<noteq> 4 \<or> \<not> ip_lengths_ok pkt then Some (ERR_OK, s\<lparr>net_heap := mem_free p h\<rparr>)
       else ip4_input_checked call udp_input tcp_input p ?ptr (ip_hlen pkt) inp ?s)"
    using s(1) rds rd2 tr n dr lt
    by (auto simp: ip4_input_def Let_def IP_HLEN_def ip_lengths_ok_def simp flip: ip_hlen_def)
  show ?thesis
  proof (cases "IPH_V (pkt ! 0) \<noteq> 4 \<or> \<not> ip_lengths_ok pkt")
    case True
    then show ?thesis using whole id by metis
  next
    case False
    then have len: "20 \<le> ip_len pkt" "20 \<le> length ?t" by (auto simp: ip_lengths_ok_def)
    note eqs = ip_fields_take [OF len(1), where pkt = pkt]
    have "\<exists>i. ip4_input_checked call udp_input tcp_input p ?ptr (ip_hlen pkt) inp ?s =
        Some (ERR_OK, ?s\<lparr>net_heap := mem_free p h, ip_data := i\<rparr>)"
      using False assms(5) s(2) len(2) by (intro ip4_input_checked_refuses [where t = ?t and post = post']) (simp_all add: eqs ip_refused_def)
    then show ?thesis using whole False by simp
  qed
qed

end
