(* ===== verification/Icmp_Echo.thy ===== *)
theory Icmp_Echo
  imports Ip4_Input
begin

text \<open>
  The echo responder on a packet in one piece: what it answers, that the answer has valid checksums, and
  that it is the only thing that is sent.
\<close>

subsection \<open>The answer\<close>

definition echo_ip_header :: "u32 \<Rightarrow> u32 \<Rightarrow> bytes \<Rightarrow> bytes" where
  "echo_ip_header src dest hdr =
     (let addrs = bytes_of32 src @ bytes_of32 dest @ drop 20 hdr;
          c = inet_chksum lwip_standard_chksum False (take 8 hdr @ [ICMP_TTL, hdr ! 9, 0, 0] @ addrs)
      in take 8 hdr @ [ICMP_TTL, hdr ! 9, lo8 c, hi8 c] @ addrs)"

definition echo_message :: "bytes \<Rightarrow> bytes" where
  "echo_message msg = (let c = icmp_echo_chksum (le16 (msg ! 2) (msg ! 3)) in [ICMP_ER, msg ! 1, lo8 c, hi8 c] @ drop 4 msg)"

definition echo_reply :: "bytes \<Rightarrow> bytes" where
  "echo_reply pkt =
     echo_ip_header (ip_dest pkt) (ip_src pkt) (take (ip_hlen pkt) pkt) @ echo_message (drop (ip_hlen pkt) (take (ip_len pkt) pkt))"

lemma length_echo [simp]:
  "20 \<le> length hdr \<Longrightarrow> length (echo_ip_header src dest hdr) = length hdr"
  "4 \<le> length msg \<Longrightarrow> length (echo_message msg) = length msg"
  by (simp_all add: echo_ip_header_def echo_message_def Let_def)

lemma echo_ip_header_verifies:
  assumes "20 \<le> length hdr" "length hdr \<le> 65535"
  shows "inet_chksum lwip_standard_chksum a (echo_ip_header src dest hdr) = 0"
  using chksum_v2.inet_chksum_verifies_law [of "take 8 hdr @ [ICMP_TTL, hdr ! 9]" "bytes_of32 src @ bytes_of32 dest @ drop 20 hdr" _ False a] assms
  by (simp add: echo_ip_header_def Let_def)

lemma icmp_echo_chksum_oceq: "oceq (unat (icmp_echo_chksum c)) (unat c + 8)"
proof -
  have k: "PP_HTONS (push_bit 8 (ucast ICMP_ECHO)) = (8 :: u16)" "PP_HTONS (0xffff - push_bit 8 (ucast ICMP_ECHO)) = (0xfff7 :: u16)"
    by (simp_all add: PP_HTONS_def ICMP_ECHO_def)
  show ?thesis
  proof (cases "unat c > 65527")
    case True
    have "unat (c + 9) = (unat c + 9) mod 65536" by (simp add: unat_word_ariths)
    also have "\<dots> = unat c + 9 - 65536"
      using True unat_u16_lt [of c] by (subst le_mod_geq) simp_all
    finally have "unat (c + 9) + 65535 = unat c + 8" "unat (c + 9) \<noteq> 0" using True by simp_all
    then have "oceq (unat (c + 9)) (unat c + 8)"
      unfolding oceq_def by (metis mod_add_self2 add_is_0)
    moreover have "icmp_echo_chksum c = c + 9"
      using True unfolding icmp_echo_chksum_def k by (simp add: word_less_nat_alt)
    ultimately show ?thesis by simp
  next
    case False
    then have "unat (c + 8) = unat c + 8" by (subst unat_add_u16) simp_all
    moreover have "icmp_echo_chksum c = c + 8"
      using False unfolding icmp_echo_chksum_def k by (simp add: word_less_nat_alt)
    ultimately show ?thesis by simp
  qed
qed

lemma echo_message_verifies:
  assumes "4 \<le> length msg" "length msg \<le> 65535" "msg ! 0 = ICMP_ECHO" "inet_chksum lwip_standard_chksum a msg = 0"
  shows "inet_chksum lwip_standard_chksum a' (echo_message msg) = 0"
proof -
  obtain t c k0 k1 rest where m: "msg = t # c # k0 # k1 # rest"
    using assms(1) by (auto simp: numeral_eq_Suc Suc_le_length_iff)
  let ?k = "icmp_echo_chksum (le16 k0 k1)"
  have "ocsum (echo_message msg) = 256 * unat c + unat ?k + ocsum rest"
    using unat_le16 [of "lo8 ?k" "hi8 ?k"] by (simp add: m echo_message_def Let_def ICMP_ER_def)
  also have "oceq \<dots> (256 * unat c + (unat (le16 k0 k1) + 8) + ocsum rest)"
    by (intro oceq_add oceq_refl icmp_echo_chksum_oceq)
  also have "\<dots> = ocsum msg" using assms(3) by (simp add: m unat_le16 ICMP_ECHO_def)
  finally have "fold16 (ocsum (echo_message msg)) = fold16 (ocsum msg)" by (rule fold16_cong)
  moreover have "unat (inet_chksum lwip_standard_chksum a msg) = 65535 - fold16 (ocsum msg)"
    using assms(2) by (simp add: chksum_v2.inet_chksum_spec)
  moreover have "unat (inet_chksum lwip_standard_chksum a' (echo_message msg)) = 65535 - fold16 (ocsum (echo_message msg))"
    using assms(1,2) by (simp add: chksum_v2.inet_chksum_spec)
  ultimately show ?thesis using assms(4) by (simp add: word_unat_eq_iff)
qed

subsection \<open>The responder writes it\<close>

lemma overwrite_appendL: "i + length ys \<le> length xs \<Longrightarrow> overwrite i ys (xs @ zs) = overwrite i ys xs @ zs"
  by (simp add: overwrite_def)

lemma overwrite_appendR: "overwrite (length xs + i) ys (xs @ zs) = xs @ overwrite i ys zs"
  by (simp add: overwrite_def)

lemma wr_ram_header:
  assumes "off + length ys \<le> length hdr"
  shows "mem_write (ram p pre (hdr @ msg) post h) (Some (p, int (length pre))) off ys =
    Some (ram p pre (overwrite off ys hdr @ msg) post h)"
  using assms by (subst mem_write_ram_payload) (simp_all add: overwrite_appendL)

lemma wr_ram_message:
  assumes "k = length pre + length hdr" "off + length ys \<le> length msg"
  shows "mem_write (ram p pre (hdr @ msg) post h) (Some (p, int k)) off ys = Some (ram p pre (hdr @ overwrite off ys msg) post h)"
  using assms by (subst mem_write_ram) (simp_all add: overwrite_appendR)

lemma rd16_ram_message:
  assumes "k = length pre + length hdr" "4 \<le> length msg"
  shows "rd16 (ram p pre (hdr @ msg) post h) (Some (p, int k)) 2 = Some (le16 (msg ! 2) (msg ! 3))"
proof -
  have "slice 2 2 (msg @ post) = [msg ! 2, msg ! 3]"
    using assms(2) by (auto simp: numeral_eq_Suc Suc_le_length_iff slice_def)
  then have "slice (k + 2) 2 (pre @ (hdr @ msg) @ post) = [msg ! 2, msg ! 3]"
    using assms(1) by (simp add: slice_def)
  then show ?thesis
    using assms unfolding rd16_def by (subst mem_read_ram [OF refl]) simp_all
qed

lemma echo_ip_header_overwrites:
  assumes "20 \<le> length hdr"
    and z: "z = overwrite 10 [0, 0] (overwrite 8 [ICMP_TTL] (overwrite 16 (bytes_of32 dest) (overwrite 12 (bytes_of32 src) hdr)))"
  shows "overwrite 10 [lo8 (inet_chksum lwip_standard_chksum False z), hi8 (inet_chksum lwip_standard_chksum False z)] z =
    echo_ip_header src dest hdr"
proof -
  have "length (take 20 hdr) = 20" using assms(1) by simp
  then obtain a0 a1 a2 a3 a4 a5 a6 a7 a8 a9 b0 b1 b2 b3 b4 b5 b6 b7 b8 b9 where
    "take 20 hdr = [a0, a1, a2, a3, a4, a5, a6, a7, a8, a9, b0, b1, b2, b3, b4, b5, b6, b7, b8, b9]"
    by (rule literal20)
  then have h: "hdr = [a0, a1, a2, a3, a4, a5, a6, a7, a8, a9, b0, b1, b2, b3, b4, b5, b6, b7, b8, b9] @ drop 20 hdr"
    using append_take_drop_id [of 20 hdr] by simp
  obtain r where r: "hdr = [a0, a1, a2, a3, a4, a5, a6, a7, a8, a9, b0, b1, b2, b3, b4, b5, b6, b7, b8, b9] @ r"
    using h by blast
  show ?thesis
    unfolding z r by (simp add: overwrite_literal bytes_of32_def echo_ip_header_def Let_def)
qed

lemma echo_message_overwrites:
  assumes "4 \<le> length msg"
  defines "c \<equiv> icmp_echo_chksum (le16 (msg ! 2) (msg ! 3))"
  shows "overwrite 2 [lo8 c, hi8 c] (overwrite 0 [ICMP_ER] msg) = echo_message msg"
  using assms(1) unfolding c_def
  by (auto simp: numeral_eq_Suc Suc_le_length_iff overwrite_def echo_message_def Let_def)

lemma icmp_echo_reply_ram:
  assumes s: "net_heap s = ram p (pre @ hdr) msg post h"
    and len: "20 \<le> length hdr" "4 \<le> length msg" "length hdr + length msg < 65536"
    and dst: "current_iphdr_src (ip_data s) = dest"
  shows "icmp_echo_reply p (length hdr) src inp s =
    do {
      (ret, s) \<leftarrow> ip4_transmit p dest inp (s\<lparr>net_heap := ram p pre (echo_ip_header src dest hdr @ echo_message msg) post h\<rparr>);
      icmp_drop p s
    }"
proof -
  let ?k = "length pre + length hdr"
  have add: "pbuf_add_header (Some p) (length hdr) (net_heap s) = Some (0, ram p pre (hdr @ msg) post h)"
    unfolding s using len by (intro pbuf_add_header_ram) simp_all
  let ?h1 = "overwrite 12 (bytes_of32 src) hdr"
  let ?h2 = "overwrite 16 (bytes_of32 dest) ?h1"
  let ?m1 = "overwrite 0 [ICMP_ER] msg"
  let ?c = "icmp_echo_chksum (le16 (msg ! 2) (msg ! 3))"
  let ?m2 = "overwrite 2 [lo8 ?c, hi8 ?c] ?m1"
  let ?h4 = "overwrite 10 [0, 0] (overwrite 8 [ICMP_TTL] ?h2)"
  let ?i = "inet_chksum lwip_standard_chksum False ?h4"
  let ?h5 = "overwrite 10 [lo8 ?i, hi8 ?i] ?h4"
  have m1: "?m1 ! 2 = msg ! 2" "?m1 ! 3 = msg ! 3" using len(2) by (simp_all add: nth_overwrite)
  have hd: "mem_read (ram p pre (?h4 @ ?m2) post h) (Some (p, int (length pre))) 0 (length hdr) = Some ?h4"
    using len(1) by (subst mem_read_ram_payload) (simp_all add: slice_def)
  have h5: "?h5 = echo_ip_header src dest hdr" by (rule echo_ip_header_overwrites [OF len(1) refl])
  have m2: "?m2 = echo_message msg" by (rule echo_message_overwrites [OF len(2)])
  let ?s = "s\<lparr>net_heap := ram p pre (?h5 @ ?m2) post h\<rparr>"
  have "rd32 (net_heap ?s) (Some (p, int (length pre))) 16 = Some dest"
    using len(1) unfolding h5 by (simp add: rd_ram echo_ip_header_def Let_def nth_append bytes_of32_def)
  moreover have "unat (of_nat (length hdr + length msg) :: u16) = length hdr + length msg"
    using len(3) by (simp add: unat_of_nat del: of_nat_add)
  ultimately have "ip4_output_if p (Some src) None ICMP_TTL 0 IP_PROTO_ICMP inp ?s = ip4_transmit p dest inp ?s"
    using len by (simp add: ip4_output_if_def ip4_output_if_src_def IP_HLEN_def h5 m2)
  then show ?thesis
    using s len add dst hd
    by (simp add: icmp_echo_reply_def Let_def wr_defs wr_ram_header wr_ram_message rd16_ram_message m1 h5 m2 case_prod_unfold
      del: of_nat_add)
qed

subsection \<open>An echo request is answered\<close>

lemma inet_chksum_pbuf_single:
  "length msg \<le> 65535 \<Longrightarrow> inet_chksum_pbuf lwip_standard_chksum [(a, msg)] = inet_chksum lwip_standard_chksum False msg"
  by (simp add: word_unat_eq_iff chksum_v2.inet_chksum_pbuf_spec chksum_v2.inet_chksum_spec short_bufs_def chain_bytes_def)

lemma icmp_echo_room_ram:
  assumes "length hdr + 14 \<le> length pre + length hdr" "14 + length hdr + length msg < 65536"
  shows "icmp_echo_room p (length hdr) q (ram p (pre @ hdr) msg post h) = Some (Inr p, ram p (pre @ hdr) msg post h)"
proof -
  let ?k = "length pre - 14"
  have e: "pre @ hdr = take ?k pre @ (drop ?k pre @ hdr)" by simp
  have "pbuf_add_header (Some p) (length hdr + 14) (ram p (pre @ hdr) msg post h) =
      Some (0, ram p (take ?k pre) ((drop ?k pre @ hdr) @ msg) post h)"
    unfolding e using assms by (intro pbuf_add_header_ram) simp_all
  moreover have "pbuf_remove_header (Some p) (length hdr + 14) (ram p (take ?k pre) ((drop ?k pre @ hdr) @ msg) post h) =
      Some (0, ram p (pre @ hdr) msg post h)"
    using assms by (subst pbuf_remove_header_ram) simp_all
  ultimately show ?thesis by (simp add: icmp_echo_room_def PBUF_LINK_HLEN_def)
qed

definition echo_request :: "bytes \<Rightarrow> netif \<Rightarrow> bool" where
  "echo_request pkt n =
     (let msg = drop (ip_hlen pkt) (take (ip_len pkt) pkt)
      in 8 \<le> length msg \<and> msg ! 0 = ICMP_ECHO \<and> inet_chksum lwip_standard_chksum False msg = 0 \<and>
         \<not> ip4_addr_ismulticast (ip_dest pkt) \<and> \<not> ip4_addr_isbroadcast_u32 (ip_dest pkt) n)"

lemma pbuf_chain_bytes_ram:
  assumes "0 < h_next h" "length msg < 65536"
  shows "\<exists>par. pbuf_chain_bytes (walk (ram p pre msg post h)) (Some p) (ram p pre msg post h) = Some [(par, msg)]"
proof -
  have n: "unat (of_nat (length msg) :: u16) = length msg" using assms(2) by (simp add: unat_of_nat)
  obtain k where "walk h = Suc (Suc k)" using assms(1) by (cases "h_next h") (simp_all add: walk_def)
  then show ?thesis using n by (simp add: mem_read_ram_payload)
qed

lemma icmp_echo_ram:
  assumes s: "net_heap s = ram p (pre @ hdr) msg post h" "0 < h_next h" "current_netif (ip_data s) = Some r"
    and len: "14 \<le> length pre" "14 + length hdr + length msg < 65536" "8 \<le> length msg"
    and msg: "inet_chksum lwip_standard_chksum False msg = 0" "\<not> ip4_addr_ismulticast (current_iphdr_dest (ip_data s))"
      "\<not> ip4_addr_isbroadcast_u32 (current_iphdr_dest (ip_data s)) (netifs s r)"
  shows "icmp_echo p (length hdr) inp s = icmp_echo_reply p (length hdr) (current_iphdr_dest (ip_data s)) inp s"
proof -
  obtain par where b: "pbuf_chain_bytes (walk (net_heap s)) (Some p) (net_heap s) = Some [(par, msg)]"
    using pbuf_chain_bytes_ram [of h msg p "pre @ hdr" post] s(1,2) len(2) by auto
  have r: "icmp_echo_room p (length hdr) q (net_heap s) = Some (Inr p, net_heap s)" for q
    unfolding s(1) using len by (intro icmp_echo_room_ram) simp_all
  have n: "unat (of_nat (length msg) :: u16) = length msg" using len(2) by (simp add: unat_of_nat)
  have k: "inet_chksum_pbuf lwip_standard_chksum [(par, msg)] = 0"
    using len(2) msg(1) by (subst inet_chksum_pbuf_single) simp_all
  have "\<not> unat (p_tot_len (ram_struct p (length (pre @ hdr)) (length msg))) < ICMP_HDR_SIZE"
    using n len(3) by (simp add: ICMP_HDR_SIZE_def)
  moreover have "h_pbuf (net_heap s) p = Some (ram_struct p (length (pre @ hdr)) (length msg))" using s(1) by simp
  ultimately show ?thesis
    using b r k s(3) msg(2,3) by (simp add: icmp_echo_def Let_def)
qed

lemma icmp_input_echo:
  assumes s: "net_heap s = ram p (pre @ take (ip_hlen pkt) pkt) (drop (ip_hlen pkt) (take (ip_len pkt) pkt)) post h"
      "ip_data s = ip_context inp (Some (p, int (length pre))) pkt" "0 < h_next h"
    and pkt: "ip_lengths_ok pkt" "ip_len pkt + 14 < 65536" "14 \<le> length pre" "echo_request pkt (netifs s inp)"
  shows "icmp_input p inp s =
    do {
      (ret, s) \<leftarrow> ip4_transmit p (ip_src pkt) inp (s\<lparr>net_heap := ram p pre (echo_reply pkt) post h\<rparr>);
      icmp_drop p s
    }"
proof -
  define hdr msg where "hdr = take (ip_hlen pkt) pkt" and "msg = drop (ip_hlen pkt) (take (ip_len pkt) pkt)"
  note s' = s(1) [folded hdr_def msg_def]
  let ?ptr = "Some (p, int (length pre))"
  have len: "20 \<le> ip_hlen pkt" "ip_hlen pkt \<le> ip_len pkt" "ip_len pkt \<le> length pkt" "length hdr = ip_hlen pkt"
    "length msg = ip_len pkt - ip_hlen pkt"
    using pkt(1) by (auto simp: ip_lengths_ok_def hdr_def msg_def)
  have msg: "8 \<le> length msg" "msg ! 0 = ICMP_ECHO" "inet_chksum lwip_standard_chksum False msg = 0"
    "\<not> ip4_addr_ismulticast (ip_dest pkt)" "\<not> ip4_addr_isbroadcast_u32 (ip_dest pkt) (netifs s inp)"
    using pkt(4) unfolding echo_request_def Let_def msg_def by blast+
  have "length msg < 65536" using pkt(2) len(5) by linarith
  then have n: "unat (of_nat (length msg) :: u16) = length msg" by (simp add: unat_of_nat)
  have "hdr ! 0 = pkt ! 0" "0 < length (hdr @ msg)" using len(1,4) by (simp_all add: hdr_def)
  then have "rd8 (ram p pre (hdr @ msg) post h) ?ptr 0 = Some (pkt ! 0)"
    using len(1,4) by (subst rd_ram) (simp_all add: nth_append)
  then have v: "rd8 (net_heap s) ?ptr 0 = Some (pkt ! 0)"
    unfolding rd8_def s' by (subst mem_read_ram_shift [where pre' = pre and data' = "hdr @ msg" and post' = post]) simp_all
  have t: "rd8 (net_heap s) (Some (p, int (length (pre @ hdr)))) 0 = Some ICMP_ECHO"
    unfolding s' using msg(1,2) by (subst rd_ram) auto
  have "icmp_echo p (length hdr) inp s = icmp_echo_reply p (length hdr) (ip_dest pkt) inp s"
    using icmp_echo_ram [OF s' s(3), of inp inp] pkt(2,3) len msg s(2) by (simp add: ip_context_def)
  also have "\<dots> = do {
      (ret, s) \<leftarrow> ip4_transmit p (ip_src pkt) inp (s\<lparr>net_heap := ram p pre (echo_reply pkt) post h\<rparr>);
      icmp_drop p s
    }"
    using icmp_echo_reply_ram [OF s', of "ip_src pkt" "ip_dest pkt" inp] pkt(2) len msg(1) s(2)
    by (simp add: ip_context_def echo_reply_def hdr_def [symmetric] msg_def [symmetric])
  finally show ?thesis
    using v t s(2) len n msg(1) s'
    by (simp add: icmp_input_def ip_context_def IP_HLEN_def ip_hlen_def del: of_nat_add)
qed

text \<open>The answer leaves through a fresh pbuf; the request is freed.\<close>

lemma length_echo_reply:
  assumes "ip_lengths_ok pkt" "echo_request pkt n"
  shows "length (echo_reply pkt) = ip_len pkt"
  using assms by (simp add: echo_reply_def ip_lengths_ok_def echo_request_def Let_def)

definition answered :: "platform \<Rightarrow> addr \<Rightarrow> bytes \<Rightarrow> heap \<Rightarrow> heap" where
  "answered pf p reply h =
     ram (h_next h) (map (h_fill h (h_next h)) [0..<34]) (tun_prefix pf @ reply) [] (mem_free p (h\<lparr>h_next := Suc (h_next h)\<rparr>))"

lemma icmp_drop_tun_copy:
  assumes "net_heap s = tun_copy pf reply (ram p pre data post h)" "p < h_next h"
  shows "icmp_drop p s = Some (s\<lparr>net_heap := answered pf p reply h\<rparr>)"
proof -
  have "net_heap s = ram p pre data post (ram (h_next h) (map (h_fill h (h_next h)) [0..<34]) (tun_prefix pf @ reply) [] (h\<lparr>h_next := Suc (h_next h)\<rparr>))"
    using assms by (simp add: tun_copy_def ram_commute)
  then show ?thesis
    using assms(2) by (simp add: icmp_drop_def pbuf_free_ram answered_def mem_free_ram_other)
qed

lemma ip4_input_echo:
  assumes s: "net_heap s = ram p pre pkt post h" "raw_ok s" "p < h_next h" "\<not> h_fail h (h_next h)"
    and pkt: "20 \<le> length pkt" "length pkt < 65000" "IPH_V (pkt ! 0) = 4" "ip_lengths_ok pkt"
      "ip_source_ok pkt (netifs s inp)" "\<not> ip_fragment pkt" "pkt ! 9 = IP_PROTO_ICMP" "14 \<le> length pre"
      "echo_request pkt (netifs s inp)"
    and out: "ip_src pkt \<noteq> ip_addr (netifs s inp)" "output_fn (netifs s inp) = Netif_output_func"
      "ip_len pkt \<le> unat (mtu (netifs s inp))"
  shows "ip4_input raw_recv_call udp_input tcp_input p inp s =
    Some (ERR_OK, s\<lparr>net_heap := answered (plat s) p (echo_reply pkt) h, tun_writes := tun_writes s @ [h_next h], ip_data := no_ip_data\<rparr>)"
proof -
  let ?hdr = "take (ip_hlen pkt) pkt" and ?msg = "drop (ip_hlen pkt) (take (ip_len pkt) pkt)"
  have mc: "\<not> ip4_addr_ismulticast (ip_dest pkt)" using pkt(9) by (simp add: echo_request_def Let_def)
  have len: "20 \<le> ip_len pkt" "ip_len pkt \<le> length pkt" using pkt(4) by (auto simp: ip_lengths_ok_def)
  note lr = length_echo_reply [OF pkt(4,9)]
  have ne: "echo_reply pkt \<noteq> []" using lr len(1) by fastforce
  obtain post' where ip: "ip4_input raw_recv_call udp_input tcp_input p inp s =
      map_option (\<lambda>s. (ERR_OK, s\<lparr>ip_data := no_ip_data\<rparr>))
        (ip_upcall udp_input tcp_input p inp (pkt ! 9)
          (s\<lparr>net_heap := ram p (pre @ ?hdr) ?msg post' h, ip_data := ip_context inp (Some (p, int (length pre))) pkt\<rparr>))"
    using ip4_input_ram [OF s(1,2) pkt(1) _ pkt(3-6), of udp_input tcp_input] mc pkt(2,7) by auto
  let ?s = "s\<lparr>net_heap := ram p (pre @ ?hdr) ?msg post' h, ip_data := ip_context inp (Some (p, int (length pre))) pkt\<rparr>"
  let ?t = "?s\<lparr>net_heap := ram p pre (echo_reply pkt) post' h\<rparr>"
  have "ip4_transmit p (ip_src pkt) inp ?t =
      Some (ERR_OK, TuntapHelper_Inject (h_next h) (?t\<lparr>net_heap := tun_copy (plat s) (echo_reply pkt) (ram p pre (echo_reply pkt) post' h)\<rparr>))"
    using ip4_transmit_ram [of ?t p pre "echo_reply pkt" post' h "ip_src pkt" inp] s(3,4) ne out lr len(2) pkt(2)
    by (simp add: TUN_IP_OFFSET_def split: platform.split)
  moreover have "icmp_input p inp ?s =
      do { (ret, s) \<leftarrow> ip4_transmit p (ip_src pkt) inp ?t; icmp_drop p s }"
    using icmp_input_echo [of ?s p pre pkt post' h inp] s(3) pkt(2,4,8,9) len(2) by simp
  ultimately have "icmp_input p inp ?s = Some (?s\<lparr>net_heap := answered (plat s) p (echo_reply pkt) h, tun_writes := tun_writes s @ [h_next h]\<rparr>)"
    using s(3) by (simp add: TuntapHelper_Inject_def icmp_drop_tun_copy)
  then show ?thesis
    using ip pkt(7) by (simp add: ip_upcall_def IP_PROTO_ICMP_def IP_PROTO_TCP_def IP_PROTO_UDP_def)
qed

lemma adata_answered:
  "TUN_IP_OFFSET pf + length reply < 65536 \<Longrightarrow> adata (answered pf p reply h) (h_next h) = tun_prefix pf @ reply"
  unfolding answered_def by (subst adata_ram) simp_all

lemma answered_frees: "p < h_next h \<Longrightarrow> h_pbuf (answered pf p reply h) p = None"
  by (simp add: answered_def mem_free_def)

end
