(* ===== verification/Packet_Handler.thy ===== *)
theory Packet_Handler
  imports Icmp_Echo Udp_Proxy
begin

text \<open>
  The entry of packets read from the TUN device: \<^verbatim>\<open>PacketHandler::Input\<close> (\<^verbatim>\<open>net/packethandler.cpp\<close>), which
  hands UDP to the proxy of \<open>Udp_Proxy\<close> and TCP and ICMP to lwIP's \<open>ip4_input\<close>, the receive loop of
  \<^verbatim>\<open>net/socksifier.cpp\<close> and the setup of the stack (\<^verbatim>\<open>net/lwiphelper.cpp\<close>).
  The packet is the receive buffer, of which \<^verbatim>\<open>size\<close> bytes were read. The UDP proxy and lwIP allocate from
  one heap. \<open>from_string\<close>, \<open>socks_info\<close> and \<open>now\<close> are as in \<open>Udp_Proxy\<close>, \<open>call\<close>, \<open>udp_input\<close> and \<open>tcp_input\<close> as in
  \<open>Ip4_Input\<close>.
\<close>

record tunnet = ipnet +
  udp_proxy :: udp_state

type_synonym u64 = "64 word"

text \<open>The protocol information of the device in front of each packet; there is none on Windows.\<close>

definition tun_skip :: "platform \<Rightarrow> nat" where
  "tun_skip pf = (case pf of Windows \<Rightarrow> 0 | _ \<Rightarrow> 4)"

definition PROTO_TCP :: u8 where "PROTO_TCP = 6"
definition PROTO_UDP :: u8 where "PROTO_UDP = 17"
definition PROTO_ICMP :: u8 where "PROTO_ICMP = 1"

text \<open>The interface \<^verbatim>\<open>Input\<close> passes on is a copy on its stack, \<^verbatim>\<open>auto netif = GetNetIf()\<close>.\<close>

definition stack_netif :: netif_ref where "stack_netif = 2"

definition GetNetIf :: "'a net_scheme \<Rightarrow> netif" where
  "GetNetIf s = netifs s tun64"

text \<open>Copying the packet into a pbuf. The test after the allocation is of \<^verbatim>\<open>packet\<close>, not of the pbuf, and only
  prints.\<close>

definition input_pbuf :: "nat \<Rightarrow> bytes \<Rightarrow> u64 \<Rightarrow> heap \<Rightarrow> (addr option \<times> heap) option" where
  "input_pbuf off packet size_t h =
     do {
       let n = size_t - of_nat off;
       (p, h) \<leftarrow> pbuf_alloc PBUF_IP (ucast n) PBUF_RAM h;
       case p of
         None \<Rightarrow> Some (None, h)
       | Some a \<Rightarrow> do {
           data \<leftarrow> get_bytes off (unat (ucast n :: u16)) packet;
           (err, h) \<leftarrow> pbuf_take p data h;
           b \<leftarrow> h_pbuf h a;
           if err = ERR_OK \<and> ucast (p_len b) \<noteq> n then None else Some (p, h)
         }
     }"

text \<open>The result is the datagram the UDP proxy sends, if any, the buffer and the state.\<close>

definition Input ::
  "'a tunnet_ext recv_call \<Rightarrow> 'a tunnet_ext proto_input \<Rightarrow> 'a tunnet_ext proto_input \<Rightarrow> (string \<Rightarrow> string option) \<Rightarrow>
     string \<times> u16 \<Rightarrow> int \<Rightarrow> bytes \<Rightarrow> u64 \<Rightarrow> 'a tunnet_scheme \<Rightarrow>
     ((nat \<times> endpoint \<times> addr \<times> bytes) option \<times> bytes \<times> 'a tunnet_scheme) option" where
  "Input call udp_input tcp_input from_string socks_info now packet size_t s =
     do {
       let off = tun_skip (plat s);
       v_hl \<leftarrow> get8 off packet;
       if drop_bit 4 (v_hl AND 0xf0) \<noteq> 4 then Some (None, packet, s)
       else do {
         proto \<leftarrow> get8 (off + 9) packet;
         if proto = PROTO_UDP then
           do {
             dest \<leftarrow> get32 (off + 16) packet;
             if Pass dest then
               do {
                 (sent, packet, u) \<leftarrow> UdpHandler_Handle from_string socks_info now off packet ((udp_proxy s)\<lparr>ust_heap := net_heap s\<rparr>);
                 Some (sent, packet, s\<lparr>udp_proxy := u, net_heap := ust_heap u\<rparr>)
               }
             else Some (None, packet, s)
           }
         else if proto \<noteq> PROTO_TCP \<and> proto \<noteq> PROTO_UDP \<and> proto \<noteq> PROTO_ICMP then Some (None, packet, s)
         else do {
           (p, h) \<leftarrow> input_pbuf off packet size_t (net_heap s);
           a \<leftarrow> p;
           let s = set_netif stack_netif (GetNetIf s) (s\<lparr>net_heap := h\<rparr>);
           (err, s) \<leftarrow> netif_input_func call udp_input tcp_input a stack_netif s;
           Some (None, packet, s)
         }
       }
     }"

definition TUN_DEVICE_BUFFER_SIZE :: nat where "TUN_DEVICE_BUFFER_SIZE = 2048"

text \<open>The receive coroutine: each read puts its bytes at the start of the buffer, \<open>None\<close> is a failed read,
  which ends it. The result lists the datagrams the UDP proxy sends.\<close>

fun TUN_RECV_COROUTINE ::
  "'a tunnet_ext recv_call \<Rightarrow> 'a tunnet_ext proto_input \<Rightarrow> 'a tunnet_ext proto_input \<Rightarrow> (string \<Rightarrow> string option) \<Rightarrow>
     string \<times> u16 \<Rightarrow> (int \<times> bytes option) list \<Rightarrow> bytes \<Rightarrow> 'a tunnet_scheme \<Rightarrow>
     ((nat \<times> endpoint \<times> addr \<times> bytes) list \<times> bytes \<times> 'a tunnet_scheme) option" where
  "TUN_RECV_COROUTINE call udp_input tcp_input from_string socks_info [] buff s = Some ([], buff, s)"
| "TUN_RECV_COROUTINE call udp_input tcp_input from_string socks_info ((now, None) # reads) buff s = Some ([], buff, s)"
| "TUN_RECV_COROUTINE call udp_input tcp_input from_string socks_info ((now, Some bs) # reads) buff s =
     do {
       let bs = take TUN_DEVICE_BUFFER_SIZE bs;
       (sent, buff, s) \<leftarrow> Input call udp_input tcp_input from_string socks_info now (overwrite 0 bs buff) (of_nat (length bs)) s;
       (more, buff, s) \<leftarrow> TUN_RECV_COROUTINE call udp_input tcp_input from_string socks_info reads buff s;
       Some (case sent of None \<Rightarrow> (more, buff, s) | Some d \<Rightarrow> (d # more, buff, s))
     }"

subsection \<open>What becomes of a packet\<close>

text \<open>In the buffer the packet \<open>pkt\<close> follows the device's information \<open>info\<close>; behind it is what earlier reads
  left.\<close>

lemma version_nibble: "drop_bit 4 (v AND 0xf0 :: u8) = IPH_V v"
proof (rule bit_word_eqI)
  fix n assume "n < LENGTH(8)"
  then have "n \<in> {0,1,2,3,4,5,6,7}" by auto
  moreover have "(0xf0 :: u8) = push_bit 4 (mask 4)" by (simp add: mask_eq_exp_minus_1 push_bit_eq_mult)
  ultimately show "bit (drop_bit 4 (v AND 0xf0)) n = bit (IPH_V v) n"
    by (auto simp: IPH_V_def bit_simps u8_bit_ge)
qed

lemma get8_packet: "i < length pkt \<Longrightarrow> get8 (length info + i) (info @ pkt @ old) = Some (pkt ! i)"
  by (simp add: get8_def nth_append)

lemma get32_packet: "20 \<le> length pkt \<Longrightarrow> get32 (length info + 16) (info @ pkt @ old) = Some (ip_dest pkt)"
  by (simp add: get32_def ip_dest_def nth_append)

definition headroom :: "heap \<Rightarrow> bytes" where
  "headroom h = map (h_fill h (h_next h)) [0..<34]"

lemma length_headroom [simp]: "length (headroom h) = 34"
  by (simp add: headroom_def)

lemma input_pbuf_ram:
  assumes "length pkt + 34 < 65536" "\<not> h_fail h (h_next h)"
  shows "input_pbuf (length info) (info @ pkt @ old) (of_nat (length info + length pkt)) h =
    Some (Some (h_next h), ram (h_next h) (headroom h) pkt [] (h\<lparr>h_next := Suc (h_next h)\<rparr>))"
proof -
  let ?n = "of_nat (length pkt) :: u64"
  have e: "of_nat (length info + length pkt) - of_nat (length info) = ?n" by simp
  have u: "unat ?n = length pkt" using assms(1) by (simp add: unat_of_nat)
  have n: "unat (of_nat (length pkt) :: u16) = length pkt" using assms(1) by (simp add: unat_of_nat)
  then have c: "ucast ?n = (of_nat (length pkt) :: u16)"
    using assms(1) by (simp add: word_unat_eq_iff u unsigned_ucast_eq take_bit_nat_def)
  have c': "(ucast (of_nat (length pkt) :: u16) :: u64) = ?n"
    using assms(1) by (simp add: word_unat_eq_iff n u unsigned_ucast_eq take_bit_nat_def)
  have al: "pbuf_alloc PBUF_IP (of_nat (length pkt)) PBUF_RAM h = Some (Some (h_next h),
      ram (h_next h) (headroom h) (map (h_fill h (h_next h)) [34..<34 + length pkt]) [] (h\<lparr>h_next := Suc (h_next h)\<rparr>))"
    using pbuf_alloc_ram_eq [of h PBUF_IP "of_nat (length pkt)"] assms n by (simp add: headroom_def)
  have "overwrite 0 pkt (map (h_fill h (h_next h)) [34..<34 + length pkt]) = pkt" by (simp add: overwrite_def)
  then show ?thesis
    unfolding input_pbuf_def Let_def e c
    using al assms(1) n c' by (simp add: get_bytes_def slice_def pbuf_take_ram)
qed

lemma set_netif_sel [simp]:
  "net_heap (set_netif r n s) = net_heap s" "plat (set_netif r n s) = plat s" "tun_writes (set_netif r n s) = tun_writes s"
  "netifs (set_netif r n s) = (netifs s)(r := n)"
  by (simp_all add: set_netif_def)

text \<open>The state \<^verbatim>\<open>ip4_input\<close> starts in: the packet in a fresh pbuf, the interface copied.\<close>

definition received :: "bytes \<Rightarrow> 'a tunnet_scheme \<Rightarrow> 'a tunnet_scheme" where
  "received pkt s =
     set_netif stack_netif (GetNetIf s)
       (s\<lparr>net_heap := ram (h_next (net_heap s)) (headroom (net_heap s)) pkt [] ((net_heap s)\<lparr>h_next := Suc (h_next (net_heap s))\<rparr>)\<rparr>)"

lemma received_sel [simp]:
  "net_heap (received pkt s) =
     ram (h_next (net_heap s)) (headroom (net_heap s)) pkt [] ((net_heap s)\<lparr>h_next := Suc (h_next (net_heap s))\<rparr>)"
  "plat (received pkt s) = plat s" "tun_writes (received pkt s) = tun_writes s" "netifs (received pkt s) stack_netif = netifs s tun64"
  by (simp_all add: received_def GetNetIf_def)

lemma raw_ok_received [simp]: "raw_ok s \<Longrightarrow> raw_ok (received pkt s)"
  by (fastforce simp: raw_ok_def received_def set_netif_def)

lemma Input_lwip:
  assumes "packet = info @ pkt @ old" "length info = tun_skip (plat s)" "20 \<le> length pkt" "length pkt + 34 < 65536"
    and "\<not> h_fail (net_heap s) (h_next (net_heap s))" "IPH_V (pkt ! 0) = 4" "pkt ! 9 \<in> {IP_PROTO_TCP, IP_PROTO_ICMP}"
  shows "Input call udp_input tcp_input from_string socks_info now packet (of_nat (length info + length pkt)) s =
    map_option (\<lambda>(err, s). (None, packet, s)) (ip4_input call udp_input tcp_input (h_next (net_heap s)) stack_netif (received pkt s))"
proof -
  have v: "get8 (tun_skip (plat s)) packet = Some (pkt ! 0)"
    using get8_packet [of 0 pkt info old] assms(1-3) by fastforce
  have pr: "get8 (tun_skip (plat s) + 9) packet = Some (pkt ! 9)"
    using get8_packet [of 9 pkt info old] assms(1-3) by simp
  have k: "\<not> (pkt ! 9 = PROTO_UDP)" "\<not> (pkt ! 9 \<noteq> PROTO_TCP \<and> pkt ! 9 \<noteq> PROTO_UDP \<and> pkt ! 9 \<noteq> PROTO_ICMP)"
    using assms(7) by (auto simp: PROTO_UDP_def PROTO_TCP_def PROTO_ICMP_def IP_PROTO_TCP_def IP_PROTO_ICMP_def)
  have "input_pbuf (tun_skip (plat s)) packet (of_nat (length info + length pkt)) (net_heap s) =
      Some (Some (h_next (net_heap s)), net_heap (received pkt s))"
    using input_pbuf_ram [OF assms(4,5), of info old] assms(1,2) by simp
  moreover have "drop_bit 4 (pkt ! 0 AND 0xf0) = 4" by (simp only: version_nibble assms(6))
  ultimately show ?thesis
    using v pr k
    by (cases "ip4_input call udp_input tcp_input (h_next (net_heap s)) stack_netif (received pkt s)")
      (auto simp: Input_def Let_def netif_input_func_def received_def GetNetIf_def)
qed

text \<open>Packets that are answered without anything above IP: the heap after an echo request.\<close>

definition after_echo :: "bytes \<Rightarrow> 'a tunnet_scheme \<Rightarrow> 'a tunnet_scheme" where
  "after_echo pkt s =
     (let h = net_heap s
      in (received pkt s)\<lparr>net_heap := answered (plat s) (h_next h) (echo_reply pkt) (h\<lparr>h_next := Suc (h_next h)\<rparr>),
           tun_writes := tun_writes s @ [Suc (h_next h)], ip_data := no_ip_data\<rparr>)"

definition ping :: "bytes \<Rightarrow> netif \<Rightarrow> bool" where
  "ping pkt n = (20 \<le> length pkt \<and> length pkt < 65000 \<and> \<not> ip_refused pkt n \<and> pkt ! 9 = IP_PROTO_ICMP \<and> echo_request pkt n \<and>
     ip_src pkt \<noteq> ip_addr n \<and> ip_len pkt \<le> unat (mtu n))"

lemma Input_ping:
  assumes "packet = info @ pkt @ old" "length info = tun_skip (plat s)" "raw_ok s"
    and "\<not> h_fail (net_heap s) (h_next (net_heap s))" "\<not> h_fail (net_heap s) (Suc (h_next (net_heap s)))"
    and "ping pkt (netifs s tun64)" "output_fn (netifs s tun64) = Netif_output_func"
  shows "Input raw_recv_call udp_input tcp_input from_string socks_info now packet (of_nat (length info + length pkt)) s =
    Some (None, packet, after_echo pkt s)"
proof -
  let ?h = "(net_heap s)\<lparr>h_next := Suc (h_next (net_heap s))\<rparr>"
  have pkt: "20 \<le> length pkt" "length pkt < 65000" "IPH_V (pkt ! 0) = 4" "ip_lengths_ok pkt" "ip_source_ok pkt (netifs s tun64)"
    "\<not> ip_fragment pkt" "pkt ! 9 = IP_PROTO_ICMP" "echo_request pkt (netifs s tun64)" "ip_src pkt \<noteq> ip_addr (netifs s tun64)"
    "ip_len pkt \<le> unat (mtu (netifs s tun64))"
    using assms(6) by (auto simp: ping_def ip_refused_def)
  have "ip4_input raw_recv_call udp_input tcp_input (h_next (net_heap s)) stack_netif (received pkt s) = Some (ERR_OK, after_echo pkt s)"
    using ip4_input_echo [of "received pkt s" "h_next (net_heap s)" "headroom (net_heap s)" pkt "[]" ?h stack_netif udp_input tcp_input]
      assms(3,5,7) pkt
    by (simp add: after_echo_def Let_def)
  then show ?thesis
    using Input_lwip [OF assms(1,2) pkt(1) _ assms(4) pkt(3), of raw_recv_call udp_input tcp_input from_string socks_info now] pkt(2,7)
    by simp
qed

lemma echo_reply_header:
  assumes "ip_lengths_ok pkt"
  shows "take (ip_hlen pkt) (echo_reply pkt) = echo_ip_header (ip_dest pkt) (ip_src pkt) (take (ip_hlen pkt) pkt)"
    "drop (ip_hlen pkt) (echo_reply pkt) = echo_message (drop (ip_hlen pkt) (take (ip_len pkt) pkt))"
  using assms by (simp_all add: echo_reply_def ip_lengths_ok_def)

lemma echo_reply_addrs:
  assumes "ip_lengths_ok pkt"
  shows "ip_src (echo_reply pkt) = ip_dest pkt" "ip_dest (echo_reply pkt) = ip_src pkt"
  using assms
  by (simp_all add: echo_reply_def echo_ip_header_def Let_def ip_src_def [of "_ @ _"] ip_dest_def [of "_ @ _"] nth_append
      ip_lengths_ok_def bytes_of32_def)

lemma ping_reply:
  assumes "ping pkt n"
  shows "inet_chksum lwip_standard_chksum False (take (ip_hlen pkt) (echo_reply pkt)) = 0"
    "inet_chksum lwip_standard_chksum False (drop (ip_hlen pkt) (echo_reply pkt)) = 0"
    "length (echo_reply pkt) = ip_len pkt" "ip_src (echo_reply pkt) = ip_dest pkt" "ip_dest (echo_reply pkt) = ip_src pkt"
proof -
  have ok: "ip_lengths_ok pkt" "length pkt < 65000" "echo_request pkt n" using assms by (auto simp: ping_def ip_refused_def)
  have len: "20 \<le> ip_hlen pkt" "ip_hlen pkt \<le> length pkt" using ok(1) by (auto simp: ip_lengths_ok_def)
  show "inet_chksum lwip_standard_chksum False (take (ip_hlen pkt) (echo_reply pkt)) = 0"
    unfolding echo_reply_header(1) [OF ok(1)] using len ok(2) by (intro echo_ip_header_verifies) simp_all
  show "inet_chksum lwip_standard_chksum False (drop (ip_hlen pkt) (echo_reply pkt)) = 0"
    unfolding echo_reply_header(2) [OF ok(1)]
    by (rule echo_message_verifies [where a = False]) (use ok in \<open>auto simp: echo_request_def Let_def\<close>)
  show "length (echo_reply pkt) = ip_len pkt" by (rule length_echo_reply [OF ok(1,3)])
  show "ip_src (echo_reply pkt) = ip_dest pkt" "ip_dest (echo_reply pkt) = ip_src pkt" by (rule echo_reply_addrs [OF ok(1)])+
qed

lemma after_echo_sel:
  assumes "ping pkt n"
  shows "tun_writes (after_echo pkt s) = tun_writes s @ [Suc (h_next (net_heap s))]" "plat (after_echo pkt s) = plat s"
    "netifs (after_echo pkt s) tun64 = netifs s tun64" "h_next (net_heap (after_echo pkt s)) = h_next (net_heap s) + 2"
    "h_fail (net_heap (after_echo pkt s)) = h_fail (net_heap s)"
    "adata (net_heap (after_echo pkt s)) (Suc (h_next (net_heap s))) = tun_prefix (plat s) @ echo_reply pkt"
    "h_pbuf (net_heap (after_echo pkt s)) (h_next (net_heap s)) = None"
    "a < h_next (net_heap s) \<Longrightarrow> h_pbuf (net_heap (after_echo pkt s)) a = h_pbuf (net_heap s) a \<and>
       h_mem (net_heap (after_echo pkt s)) a = h_mem (net_heap s) a"
    "raw_ok s \<Longrightarrow> raw_ok (after_echo pkt s)"
proof -
  have "length (echo_reply pkt) < 65000" using ping_reply(3) [OF assms] assms by (auto simp: ping_def ip_refused_def ip_lengths_ok_def)
  then show "adata (net_heap (after_echo pkt s)) (Suc (h_next (net_heap s))) = tun_prefix (plat s) @ echo_reply pkt"
    using adata_answered [of "plat s" "echo_reply pkt" "h_next (net_heap s)" "(net_heap s)\<lparr>h_next := Suc (h_next (net_heap s))\<rparr>"]
    by (simp add: after_echo_def Let_def TUN_IP_OFFSET_def split: platform.splits)
qed (auto simp: after_echo_def Let_def answered_def mem_free_def received_def set_netif_def stack_netif_def tun64_def raw_ok_def)

lemma h_pbuf_after_echo:
  "h_pbuf (net_heap (after_echo pkt s)) (Suc (h_next (net_heap s))) =
     Some (ram_struct (Suc (h_next (net_heap s))) 34 (TUN_IP_OFFSET (plat s) + length (echo_reply pkt)))"
  by (simp add: after_echo_def Let_def answered_def)

lemma adata_ram_struct:
  "h_pbuf h a = Some (ram_struct a r n) \<Longrightarrow> h_pbuf h' a = h_pbuf h a \<Longrightarrow> h_mem h' a = h_mem h a \<Longrightarrow> adata h' a = adata h a"
  by (simp add: adata_def pdata_def)

lemma pings_answered:
  assumes "length buff = TUN_DEVICE_BUFFER_SIZE" "raw_ok s" "\<forall>a. \<not> h_fail (net_heap s) a"
    and "output_fn (netifs s tun64) = Netif_output_func"
    and "\<forall>(now, info, pkt)\<in>set ps. ping pkt (netifs s tun64) \<and> length info = tun_skip (plat s) \<and>
           length info + length pkt \<le> TUN_DEVICE_BUFFER_SIZE"
  shows "\<exists>buff' s' ds.
    TUN_RECV_COROUTINE raw_recv_call udp_input tcp_input from_string socks_info (map (\<lambda>(now, info, pkt). (now, Some (info @ pkt))) ps) buff s =
      Some ([], buff', s') \<and> tun_writes s' = tun_writes s @ ds \<and>
    map (adata (net_heap s')) ds = map (\<lambda>(now, info, pkt). tun_prefix (plat s) @ echo_reply pkt) ps \<and>
    (\<forall>a < h_next (net_heap s). h_pbuf (net_heap s') a = h_pbuf (net_heap s) a \<and> h_mem (net_heap s') a = h_mem (net_heap s) a)"
  using assms
proof (induction ps arbitrary: buff s)
  case (Cons p ps)
  obtain now info pkt where p: "p = (now, info, pkt)" by (cases p)
  have pk: "ping pkt (netifs s tun64)" "length info = tun_skip (plat s)" "length info + length pkt \<le> TUN_DEVICE_BUFFER_SIZE"
    using Cons.prems(5) p by auto
  let ?buf = "info @ pkt @ drop (length (info @ pkt)) buff" and ?s = "after_echo pkt s" and ?d = "Suc (h_next (net_heap s))"
  note sel = after_echo_sel [OF pk(1), where s = s]
  have buf: "overwrite 0 (info @ pkt) buff = ?buf" "take TUN_DEVICE_BUFFER_SIZE (info @ pkt) = info @ pkt"
    using pk(3) by (simp_all add: overwrite_def)
  have step: "Input raw_recv_call udp_input tcp_input from_string socks_info now ?buf (of_nat (length (info @ pkt))) s = Some (None, ?buf, ?s)"
    using Input_ping [OF refl pk(2) Cons.prems(2) _ _ pk(1) Cons.prems(4)] Cons.prems(3) by simp
  have "length ?buf = TUN_DEVICE_BUFFER_SIZE" using Cons.prems(1) pk(3) by simp
  then obtain buff' s' ds where ih:
    "TUN_RECV_COROUTINE raw_recv_call udp_input tcp_input from_string socks_info (map (\<lambda>(now, info, pkt). (now, Some (info @ pkt))) ps) ?buf ?s =
      Some ([], buff', s')" "tun_writes s' = tun_writes ?s @ ds"
    "map (adata (net_heap s')) ds = map (\<lambda>(now, info, pkt). tun_prefix (plat ?s) @ echo_reply pkt) ps"
    "\<forall>a < h_next (net_heap ?s). h_pbuf (net_heap s') a = h_pbuf (net_heap ?s) a \<and> h_mem (net_heap s') a = h_mem (net_heap ?s) a"
    using Cons.IH [of ?buf ?s] Cons.prems(2-5) sel(2,3,5,9) by auto
  have "adata (net_heap s') ?d = tun_prefix (plat s) @ echo_reply pkt"
    using ih(4) sel(4,6) adata_ram_struct [OF h_pbuf_after_echo [of pkt s], of "net_heap s'"] by simp
  moreover have "\<forall>a < h_next (net_heap s). h_pbuf (net_heap s') a = h_pbuf (net_heap s) a \<and> h_mem (net_heap s') a = h_mem (net_heap s) a"
    using ih(4) sel(4,8) by simp
  ultimately show ?case
    using ih(1-3) step buf sel(1,2) p
    by (intro exI [of _ buff'] exI [of _ s'] exI [of _ "?d # ds"]) simp
qed simp

subsection \<open>Properties\<close>

text \<open>C2: an ICMP echo request read from the device, to any unicast address, is answered by the echo reply and by
  nothing else: the reply is what gets written to the device, its addresses are those of the request
  swapped, its IP and ICMP checksums are correct, the pbuf of the request is freed and everything
  allocated before is unchanged.\<close>

theorem Input_answers_ping:
  assumes "packet = info @ pkt @ old" "length info = tun_skip (plat s)" "raw_ok s"
    and "\<not> h_fail (net_heap s) (h_next (net_heap s))" "\<not> h_fail (net_heap s) (Suc (h_next (net_heap s)))"
    and "ping pkt (netifs s tun64)" "output_fn (netifs s tun64) = Netif_output_func"
  shows "\<exists>s' d. Input raw_recv_call udp_input tcp_input from_string socks_info now packet (of_nat (length info + length pkt)) s =
      Some (None, packet, s') \<and>
    tun_writes s' = tun_writes s @ [d] \<and> adata (net_heap s') d = tun_prefix (plat s) @ echo_reply pkt \<and>
    ip_src (echo_reply pkt) = ip_dest pkt \<and> ip_dest (echo_reply pkt) = ip_src pkt \<and>
    inet_chksum lwip_standard_chksum False (take (ip_hlen pkt) (echo_reply pkt)) = 0 \<and>
    inet_chksum lwip_standard_chksum False (drop (ip_hlen pkt) (echo_reply pkt)) = 0 \<and>
    h_pbuf (net_heap s') (h_next (net_heap s)) = None \<and>
    (\<forall>a < h_next (net_heap s). h_pbuf (net_heap s') a = h_pbuf (net_heap s) a \<and> h_mem (net_heap s') a = h_mem (net_heap s) a)"
  using after_echo_sel(8) [OF assms(6), where s = s]
  by (intro exI [of _ "after_echo pkt s"] exI [of _ "Suc (h_next (net_heap s))"])
    (simp add: Input_ping [OF assms, simplified] after_echo_sel [OF assms(6)] ping_reply [OF assms(6)])

text \<open>C4: echo requests that arrive one after the other are all answered, in their order, and the answers are
  still intact in the write queue after the last one.\<close>

theorem pings_answered_in_order:
  assumes "length buff = TUN_DEVICE_BUFFER_SIZE" "raw_ok s" "\<forall>a. \<not> h_fail (net_heap s) a"
    and "output_fn (netifs s tun64) = Netif_output_func"
    and "\<forall>(now, info, pkt)\<in>set ps. ping pkt (netifs s tun64) \<and> length info = tun_skip (plat s) \<and>
           length info + length pkt \<le> TUN_DEVICE_BUFFER_SIZE"
  shows "\<exists>buff' s' ds.
    TUN_RECV_COROUTINE raw_recv_call udp_input tcp_input from_string socks_info (map (\<lambda>(now, info, pkt). (now, Some (info @ pkt))) ps) buff s =
      Some ([], buff', s') \<and> tun_writes s' = tun_writes s @ ds \<and>
    map (adata (net_heap s')) ds = map (\<lambda>(now, info, pkt). tun_prefix (plat s) @ echo_reply pkt) ps"
  using pings_answered [OF assms] by blast

text \<open>C3: a valid TCP packet read from the device reaches \<^verbatim>\<open>tcp_input\<close>, once, in a pbuf of its own whose data is
  exactly the TCP segment: the IP header is in front of it and bytes behind the packet's length are cut off.
  The interface it comes from is the copy of the TUN interface.\<close>

theorem Input_delivers_tcp:
  assumes "packet = info @ pkt @ old" "length info = tun_skip (plat s)" "raw_ok s"
    and "\<not> h_fail (net_heap s) (h_next (net_heap s))" "20 \<le> length pkt" "length pkt + 34 < 65536"
    and "\<not> ip_refused pkt (netifs s tun64)" "pkt ! 9 = IP_PROTO_TCP"
  shows "\<exists>tail. Input raw_recv_call udp_input tcp_input from_string socks_info now packet (of_nat (length info + length pkt)) s =
    map_option (\<lambda>s'. (None, packet, s'\<lparr>ip_data := no_ip_data\<rparr>))
      (tcp_input (h_next (net_heap s)) stack_netif
        ((received pkt s)\<lparr>net_heap := ram (h_next (net_heap s)) (headroom (net_heap s) @ take (ip_hlen pkt) pkt)
             (drop (ip_hlen pkt) (take (ip_len pkt) pkt)) tail ((net_heap s)\<lparr>h_next := Suc (h_next (net_heap s))\<rparr>),
           ip_data := ip_context stack_netif (Some (h_next (net_heap s), 34)) pkt\<rparr>))"
proof -
  have pkt: "IPH_V (pkt ! 0) = 4" "ip_lengths_ok pkt" "ip_source_ok pkt (netifs s tun64)" "\<not> ip_fragment pkt"
    "\<not> ip4_addr_ismulticast (ip_dest pkt) \<or> netif_is_up (netifs s tun64) \<and> ip_addr (netifs s tun64) \<noteq> IPADDR_ANY"
    using assms(7) by (auto simp: ip_refused_def)
  have "\<exists>tail. ip4_input raw_recv_call udp_input tcp_input (h_next (net_heap s)) stack_netif (received pkt s) =
    map_option (\<lambda>s'. (ERR_OK, s'\<lparr>ip_data := no_ip_data\<rparr>))
      (tcp_input (h_next (net_heap s)) stack_netif
        ((received pkt s)\<lparr>net_heap := ram (h_next (net_heap s)) (headroom (net_heap s) @ take (ip_hlen pkt) pkt)
             (drop (ip_hlen pkt) (take (ip_len pkt) pkt)) tail ((net_heap s)\<lparr>h_next := Suc (h_next (net_heap s))\<rparr>),
           ip_data := ip_context stack_netif (Some (h_next (net_heap s), 34)) pkt\<rparr>))"
    using ip4_input_ram [OF _ _ assms(5) _ pkt(1,2), of "received pkt s" "h_next (net_heap s)" "headroom (net_heap s)"
        "[]" "(net_heap s)\<lparr>h_next := Suc (h_next (net_heap s))\<rparr>" stack_netif udp_input tcp_input] assms(3,6,8) pkt(3-5)
    by (simp add: ip_upcall_def IP_PROTO_TCP_def IP_PROTO_UDP_def)
  then show ?thesis
    using Input_lwip [OF assms(1,2,5,6,4) pkt(1), of raw_recv_call udp_input tcp_input from_string socks_info now] assms(8)
    by (auto simp: option.map_comp comp_def)
qed

text \<open>C20: a TCP or ICMP packet the IP layer refuses - because of its lengths, a broadcast or multicast source, or
  because it is a fragment - is dropped and its pbuf freed: no memory is kept and nothing is written.\<close>

theorem Input_drops_refused:
  assumes "packet = info @ pkt @ old" "length info = tun_skip (plat s)"
    and "\<not> h_fail (net_heap s) (h_next (net_heap s))" "20 \<le> length pkt" "length pkt + 34 < 65536" "heap_ok (net_heap s)"
    and "IPH_V (pkt ! 0) = 4" "pkt ! 9 \<in> {IP_PROTO_TCP, IP_PROTO_ICMP}" "ip_refused pkt (netifs s tun64)"
  shows "\<exists>s'. Input call udp_input tcp_input from_string socks_info now packet (of_nat (length info + length pkt)) s = Some (None, packet, s') \<and>
    net_heap s' = (net_heap s)\<lparr>h_next := Suc (h_next (net_heap s))\<rparr> \<and> tun_writes s' = tun_writes s"
proof -
  let ?h = "(net_heap s)\<lparr>h_next := Suc (h_next (net_heap s))\<rparr>"
  have "\<exists>i. ip4_input call udp_input tcp_input (h_next (net_heap s)) stack_netif (received pkt s) =
      Some (ERR_OK, (received pkt s)\<lparr>net_heap := mem_free (h_next (net_heap s)) ?h, ip_data := i\<rparr>)"
    using assms(4,5,9) by (intro ip4_input_refuses [where pkt = pkt]) simp_all
  then show ?thesis
    using Input_lwip [OF assms(1,2,4,5,3,7,8), of call udp_input tcp_input from_string socks_info now] mem_free_fresh [OF assms(6)]
    by auto
qed

text \<open>when no memory is left for a packet, \<^verbatim>\<open>Input\<close> passes a null pbuf to the interface, whose input function reads
  through it: the test after the allocation is of the packet's address, not of the pbuf.\<close>

theorem Input_no_memory_crashes:
  assumes "packet = info @ pkt @ old" "length info = tun_skip (plat s)" "20 \<le> length pkt"
    and "IPH_V (pkt ! 0) = 4" "pkt ! 9 \<in> {IP_PROTO_TCP, IP_PROTO_ICMP}" "h_fail (net_heap s) (h_next (net_heap s))"
  shows "Input call udp_input tcp_input from_string socks_info now packet (of_nat (length info + length pkt)) s = None"
proof -
  have v: "get8 (tun_skip (plat s)) packet = Some (pkt ! 0)" "get8 (tun_skip (plat s) + 9) packet = Some (pkt ! 9)"
    using get8_packet [of 0 pkt info old] get8_packet [of 9 pkt info old] assms(1-3) by fastforce+
  have k: "\<not> (pkt ! 9 = PROTO_UDP)" "\<not> (pkt ! 9 \<noteq> PROTO_TCP \<and> pkt ! 9 \<noteq> PROTO_UDP \<and> pkt ! 9 \<noteq> PROTO_ICMP)"
    using assms(5) by (auto simp: PROTO_UDP_def PROTO_TCP_def PROTO_ICMP_def IP_PROTO_TCP_def IP_PROTO_ICMP_def)
  have "\<exists>h. input_pbuf (tun_skip (plat s)) packet (of_nat (length info + length pkt)) (net_heap s) = Some (None, h)"
    using assms(6) by (auto simp: input_pbuf_def pbuf_alloc_def mem_malloc_def Let_def)
  moreover have "drop_bit 4 (pkt ! 0 AND 0xf0) = 4" by (simp only: version_nibble assms(4))
  ultimately show ?thesis using v k by (auto simp: Input_def Let_def)
qed

text \<open>A ping of 10.1.0.2 to 8.8.8.8, the same with another sequence number, and a stack with the TUN interface.\<close>

definition sample_ping :: bytes where
  "sample_ping = [0x45, 0, 0, 28, 0, 1, 0, 0, 64, 1, 0x60, 0xce, 10, 1, 0, 2, 8, 8, 8, 8, 8, 0, 0xf7, 0xfd, 0, 1, 0, 1]"

definition sample_ping2 :: bytes where
  "sample_ping2 = [0x45, 0, 0, 28, 0, 2, 0, 0, 64, 1, 0x60, 0xcd, 10, 1, 0, 2, 8, 8, 8, 8, 8, 0, 0xf7, 0xfc, 0, 1, 0, 2]"

definition sample_syn :: bytes where
  "sample_syn = [0x45, 0, 0, 22, 0, 1, 0, 0, 64, 6, 0, 0, 10, 1, 0, 2, 8, 8, 8, 8, 1, 2]"

definition sample_netif :: netif where
  "sample_netif = \<lparr>ip_addr = IP4_ADDR 10 2 0 1, netmask = IP4_ADDR 255 255 255 255, gw = 0, output_fn = Netif_output_func,
     mtu = 1500, flags = NETIF_FLAG_UP, if_name = (CHR ''2'', CHR ''3''), num = 1, loop_first = None, loop_last = None\<rparr>"

definition sample_stack :: tunnet where
  "sample_stack = \<lparr>net_heap = empty_heap, netifs = (\<lambda>_. sample_netif), netif_list = [tun64], netif_default = Some tun64, netif_num = 2,
     ip_id = 0, tun_writes = [], plat = Linux, ip_data = no_ip_data, raw_mem = Map.empty, raw_pcbs = [], udp_proxy = sample_state\<rparr>"

lemma sample_stack_sel [simp]:
  "plat sample_stack = Linux" "net_heap sample_stack = empty_heap" "netifs sample_stack r = sample_netif" "raw_ok sample_stack"
  "output_fn sample_netif = Netif_output_func" "tun_writes sample_stack = []" "tun_skip Linux = 4" "tun_prefix Linux = []"
  by (simp_all add: sample_stack_def raw_ok_def sample_netif_def tun_skip_def tun_prefix_def)

lemma empty_heap_sel [simp]: "h_fail empty_heap a = False" "h_next empty_heap = 0"
  by (simp_all add: empty_heap_def)

lemma ping_fields:
  assumes "pkt \<in> {sample_ping, sample_ping2}"
  shows "ip_hlen pkt = 20" "ip_len pkt = 28" "length pkt = 28" "ip_src pkt = 0x0200010a" "ip_dest pkt = 0x08080808"
    "IPH_V (pkt ! 0) = 4" "\<not> ip_fragment pkt" "pkt ! 9 = IP_PROTO_ICMP" "drop 20 pkt ! 0 = ICMP_ECHO"
  using assms by (auto simp: ip_hlen_def sample_ping_def sample_ping2_def IPH_HL_BYTES_def ip_len_def lwip_htons_le16 unat_le16 ip_src_def ip_dest_def le32_def
    IPH_V_def ip_fragment_def le16_def PP_HTONS_def lwip_htons_def IP_PROTO_ICMP_def ICMP_ECHO_def)

lemma sample_chksum: "inet_chksum lwip_standard_chksum False (drop 20 sample_ping) = 0"
  "inet_chksum lwip_standard_chksum False (drop 20 sample_ping2) = 0"
  by (simp_all add: sample_ping_def sample_ping2_def inet_chksum_def lwip_standard_chksum_def le16_def FOLD_U32T_def)

lemma sample_unicast: "\<not> ip4_addr_ismulticast 0x08080808" "\<not> ip4_addr_ismulticast 0x0200010a"  "\<not> ip4_addr_isbroadcast_u32 0x08080808 sample_netif" "\<not> ip4_addr_isbroadcast_u32 0x0200010a sample_netif"
  by (simp_all add: ip4_addr_ismulticast_def PP_HTONL_def ip4_addr_isbroadcast_u32_def sample_netif_def NETIF_FLAG_BROADCAST_def NETIF_FLAG_UP_def IPADDR_ANY_def)

lemma sample_netif_sel: "ip_addr sample_netif \<noteq> 0x0200010a" "mtu sample_netif = 1500"
  by (simp_all add: sample_netif_def IP4_ADDR_def PP_HTONL_def LWIP_MAKEU32_def)

lemma sample_ping_ok:
  assumes "pkt \<in> {sample_ping, sample_ping2}"
  shows "ping pkt sample_netif"
proof -
  note f = ping_fields [OF assms]
  have "inet_chksum lwip_standard_chksum False (drop 20 pkt) = 0" using assms sample_chksum by auto
  then show ?thesis
    using f sample_unicast sample_netif_sel
    by (simp add: ping_def ip_refused_def ip_lengths_ok_def ip_source_ok_def echo_request_def Let_def)
qed

theorem Input_answers_ping_witness:
  "\<exists>s' d. Input raw_recv_call (\<lambda>_ _. Some) (\<lambda>_ _. Some) Some (''127.0.0.1'', 1080) 0 ([0, 0, 8, 0] @ sample_ping) 32 sample_stack =
      Some (None, [0, 0, 8, 0] @ sample_ping, s') \<and> tun_writes s' = [d] \<and> adata (net_heap s') d = echo_reply sample_ping"
  using Input_answers_ping [of "[0, 0, 8, 0] @ sample_ping" "[0, 0, 8, 0]" sample_ping "[]" sample_stack "\<lambda>_ _. Some" "\<lambda>_ _. Some"
      Some "(''127.0.0.1'', 1080)" 0] sample_ping_ok [of sample_ping] ping_fields(3) [of sample_ping]
  by auto

theorem pings_answered_in_order_witness:
  "\<exists>buff' s' ds. TUN_RECV_COROUTINE raw_recv_call (\<lambda>_ _. Some) (\<lambda>_ _. Some) Some (''127.0.0.1'', 1080)
      [(0, Some ([0, 0, 8, 0] @ sample_ping)), (1, Some ([0, 0, 8, 0] @ sample_ping2))] (replicate TUN_DEVICE_BUFFER_SIZE 0) sample_stack =
      Some ([], buff', s') \<and> tun_writes s' = ds \<and> map (adata (net_heap s')) ds = [echo_reply sample_ping, echo_reply sample_ping2]"
  using pings_answered_in_order [of "replicate TUN_DEVICE_BUFFER_SIZE 0" sample_stack
      "[(0, [0, 0, 8, 0], sample_ping), (1, [0, 0, 8, 0], sample_ping2)]" "\<lambda>_ _. Some" "\<lambda>_ _. Some" Some "(''127.0.0.1'', 1080)"]
    sample_ping_ok [of sample_ping] sample_ping_ok [of sample_ping2] ping_fields(3) [of sample_ping] ping_fields(3) [of sample_ping2]
  by (simp add: TUN_DEVICE_BUFFER_SIZE_def)

lemma sample_syn_fields:
  "ip_hlen sample_syn = 20" "ip_len sample_syn = 22" "length sample_syn = 22" "ip_src sample_syn = 0x0200010a"
  "ip_dest sample_syn = 0x08080808" "IPH_V (sample_syn ! 0) = 4" "\<not> ip_fragment sample_syn" "sample_syn ! 9 = IP_PROTO_TCP"
  by (simp_all add: ip_hlen_def sample_syn_def IPH_HL_BYTES_def ip_len_def ip_src_def ip_dest_def le32_def PP_HTONS_def lwip_htons_def
    IPH_V_def ip_fragment_def le16_def IP_PROTO_TCP_def)

theorem Input_delivers_tcp_witness:
  "\<exists>s'. Input raw_recv_call (\<lambda>_ _. Some) (\<lambda>p _ s. if adata (net_heap s) p = [1, 2] then Some s else None) Some (''127.0.0.1'', 1080) 0
      ([0, 0, 8, 0] @ sample_syn @ [9]) 26 sample_stack = Some (None, [0, 0, 8, 0] @ sample_syn @ [9], s')"
proof -
  have "\<not> ip_refused sample_syn sample_netif"
    using sample_syn_fields sample_unicast by (simp add: ip_refused_def ip_lengths_ok_def ip_source_ok_def)
  moreover have "drop 20 (take 22 sample_syn) = [1, 2]" by (simp add: sample_syn_def)
  ultimately show ?thesis
    using Input_delivers_tcp [of "[0, 0, 8, 0] @ sample_syn @ [9]" "[0, 0, 8, 0]" sample_syn "[9]" sample_stack "\<lambda>_ _. Some"
        "\<lambda>p _ s. if adata (net_heap s) p = [1, 2] then Some s else None" Some "(''127.0.0.1'', 1080)" 0] sample_syn_fields
    by (auto simp: pdata_def slice_def)
qed

theorem Input_drops_refused_witness:
  "\<exists>s'. Input raw_recv_call (\<lambda>_ _. Some) (\<lambda>_ _. Some) Some (''127.0.0.1'', 1080) 0 ([0, 0, 8, 0] @ sample_syn[0 := 0x44]) 26 sample_stack =
      Some (None, [0, 0, 8, 0] @ sample_syn[0 := 0x44], s') \<and> net_heap s' = empty_heap\<lparr>h_next := 1\<rparr> \<and> tun_writes s' = []"
proof -
  have f: "IPH_V (sample_syn[0 := 0x44] ! 0) = 4" "sample_syn[0 := 0x44] ! 9 = IP_PROTO_TCP" "length (sample_syn[0 := 0x44]) = 22"
    "ip_hlen (sample_syn[0 := 0x44]) = 16"
    by (simp_all add: sample_syn_def IPH_V_def IP_PROTO_TCP_def ip_hlen_def IPH_HL_BYTES_def)
  then have "ip_refused (sample_syn[0 := 0x44]) sample_netif" by (simp add: ip_refused_def ip_lengths_ok_def)
  then show ?thesis
    using Input_drops_refused [of "[0, 0, 8, 0] @ sample_syn[0 := 0x44]" "[0, 0, 8, 0]" "sample_syn[0 := 0x44]" "[]" sample_stack raw_recv_call
        "\<lambda>_ _. Some" "\<lambda>_ _. Some" Some "(''127.0.0.1'', 1080)" 0] f empty_heap_ok
    by auto
qed

theorem Input_no_memory_crashes_witness:
  "Input raw_recv_call (\<lambda>_ _. Some) (\<lambda>_ _. Some) Some (''127.0.0.1'', 1080) 0 ([0, 0, 8, 0] @ sample_ping) 32
     (sample_stack\<lparr>net_heap := empty_heap\<lparr>h_fail := \<lambda>_. True\<rparr>\<rparr>) = None"
  using Input_no_memory_crashes [of "[0, 0, 8, 0] @ sample_ping" "[0, 0, 8, 0]" sample_ping "[]"
      "sample_stack\<lparr>net_heap := empty_heap\<lparr>h_fail := \<lambda>_. True\<rparr>\<rparr>" raw_recv_call "\<lambda>_ _. Some" "\<lambda>_ _. Some" Some "(''127.0.0.1'', 1080)" 0]
    ping_fields [of sample_ping]
  by simp

end
