(* ===== verification/Wrap_Order.thy ===== *)
theory Wrap_Order
  imports Prelude "HOL-Library.Multiset"
begin

text \<open>
  Numbers that wrap around. TCP sequence numbers and the times of the timeouts are 32-bit words that are compared by the sign of
  their difference. The locale \<open>wrap_order\<close> states what such a comparison promises: it is the order of the unbounded
  numbers as long as these are less than \<open>2 ^ 31\<close> apart. Its lemmas turn that into an order on the words within \<open>2 ^ 31\<close> of
  a base, and show that inserting into a list sorted by that order keeps it sorted. The timeouts and the queues of
  segments use them.
\<close>

text \<open>Putting an element before the first one that has a property.\<close>

fun insert_before :: "('a \<Rightarrow> bool) \<Rightarrow> 'a \<Rightarrow> 'a list \<Rightarrow> 'a list" where
  "insert_before P x [] = [x]"
| "insert_before P x (y # ys) = (if P y then x # y # ys else y # insert_before P x ys)"

lemma mset_insert_before [simp]: "mset (insert_before P x ys) = add_mset x (mset ys)"
  by (induction ys) auto

lemma set_insert_before [simp]: "set (insert_before P x ys) = insert x (set ys)"
  by (induction ys) auto

lemma insert_before_end: "(\<forall>y \<in> set ys. \<not> P y) \<Longrightarrow> insert_before P x ys = ys @ [x]"
  by (induction ys) auto

text \<open>The words that follow \<open>base\<close> within half of the number space.\<close>

definition in_half :: "u32 \<Rightarrow> u32 \<Rightarrow> bool" where
  "in_half base x = (x - base < 2 ^ 31)"

locale wrap_order =
  fixes less :: "u32 \<Rightarrow> u32 \<Rightarrow> bool"
  assumes less_of_int: "\<bar>x - y\<bar> < 2 ^ 31 \<Longrightarrow> less (of_int x) (of_int y) \<longleftrightarrow> x < y"
begin

lemma less_iff_offset:
  assumes "in_half base x" and "in_half base y"
  shows "less x y \<longleftrightarrow> x - base < y - base"
proof -
  have x: "x = of_int (uint base + uint (x - base))" and y: "y = of_int (uint base + uint (y - base))"
    by simp_all
  have "uint (x - base) < 2 ^ 31" and "uint (y - base) < 2 ^ 31"
    using assms by (simp_all add: in_half_def word_less_def)
  then have "\<bar>(uint base + uint (x - base)) - (uint base + uint (y - base))\<bar> < 2 ^ 31"
    using uint_ge_0 [of "x - base"] uint_ge_0 [of "y - base"] by linarith
  from less_of_int [OF this] show ?thesis
    by (subst x, subst y) (simp add: word_less_def)
qed

lemma less_add:
  assumes "n < 2 ^ 31"
  shows "less x (x + n) \<longleftrightarrow> n \<noteq> 0" and "\<not> less (x + n) x"
proof -
  have b: "in_half x x" "in_half x (x + n)"
    using assms by (simp_all add: in_half_def)
  show "less x (x + n) \<longleftrightarrow> n \<noteq> 0"
    using less_iff_offset [OF b] by (simp add: word_gt_0)
  show "\<not> less (x + n) x"
    using less_iff_offset [OF b(2) b(1)] by simp
qed

text \<open>A list whose elements are sorted by a word.\<close>

definition sorted_key :: "('b \<Rightarrow> u32) \<Rightarrow> 'b list \<Rightarrow> bool" where
  "sorted_key key xs = sorted_wrt (\<lambda>x y. \<not> less (key y) (key x)) xs"

lemma sorted_key_simps [simp]:
  "sorted_key key []"
  "sorted_key key (x # xs) \<longleftrightarrow> (\<forall>y \<in> set xs. \<not> less (key y) (key x)) \<and> sorted_key key xs"
  by (simp_all add: sorted_key_def)

lemma sorted_key_offsets:
  "(\<forall>x \<in> set xs. in_half base (key x)) \<Longrightarrow> sorted_key key xs \<longleftrightarrow> sorted (map (\<lambda>x. key x - base) xs)"
  by (induction xs) (auto simp: less_iff_offset [of base] not_less)

lemma sorted_insert_after_equal:
  assumes "\<forall>y \<in> insert x (set xs). in_half base (key y)" and "sorted_key key xs"
  shows "sorted_key key (insert_before (\<lambda>y. less (key x) (key y)) x xs)"
  using assms by (induction xs) (auto simp: less_iff_offset [of base] not_less dest: order.strict_implies_order)

lemma sorted_insert_before_equal:
  assumes "\<forall>y \<in> insert x (set xs). in_half base (key y)" and "sorted_key key xs"
  shows "sorted_key key (insert_before (\<lambda>y. \<not> less (key y) (key x)) x xs)"
  using assms by (induction xs) (auto simp: less_iff_offset [of base] not_less)

text \<open>In a sorted list the elements below a bound are a prefix.\<close>

lemma sorted_dropWhile:
  assumes "\<forall>y \<in> set xs. in_half base (key y)" and "in_half base b" and "sorted_key key xs"
  shows "dropWhile (\<lambda>y. \<not> less b (key y)) xs = filter (\<lambda>y. less b (key y)) xs"
  using assms
proof (induction xs)
  case (Cons x xs)
  show ?case
  proof (cases "less b (key x)")
    case True
    then have "\<forall>y \<in> set xs. less b (key y)"
      using Cons.prems by (auto simp: less_iff_offset [of base] not_less)
    then show ?thesis
      using True by simp
  qed (use Cons in auto)
qed simp

end

end
