(* ===== verification/Timeouts.thy ===== *)
theory Timeouts
  imports Raw Wrap_Order
begin

text \<open>
  Timeouts: \<^verbatim>\<open>lwip/core/timeouts.c\<close>. \<open>next_timeout\<close> is the list linked through \<^verbatim>\<open>next\<close>, \<open>sys_clock\<close> the value
  \<^verbatim>\<open>sys_now()\<close> returns, which stays the same while one call of the stack runs. A handler is a number; what it
  does is an argument of \<open>sys_check_timeouts\<close>. Times are 32-bit words that wrap around and are compared by
  their distance. \<^verbatim>\<open>IP_REASSEMBLY\<close>, \<^verbatim>\<open>LWIP_ARP\<close>, \<^verbatim>\<open>LWIP_DNS\<close> and the other users of cyclic timers are off,
  so that the table \<^verbatim>\<open>lwip_cyclic_timers\<close> has the TCP timer only, which is started on demand.
\<close>

record sys_timeo =
  to_time :: u32
  to_h :: "nat option"
  to_arg :: "nat option"

record timenet = ipnet +
  sys_clock :: u32
  next_timeout :: "sys_timeo list"
  current_timeout_due_time :: u32

definition LWIP_MAX_TIMEOUT :: u32 where "LWIP_MAX_TIMEOUT = 0x7fffffff"

definition TIME_LESS_THAN :: "u32 \<Rightarrow> u32 \<Rightarrow> bool" where
  "TIME_LESS_THAN t compare_to = (t - compare_to > LWIP_MAX_TIMEOUT)"

text \<open>The new timeout goes before the first one that is later, or to the end.\<close>

fun timeout_insert :: "sys_timeo \<Rightarrow> sys_timeo list \<Rightarrow> sys_timeo list" where
  "timeout_insert timeout [] = [timeout]"
| "timeout_insert timeout (t # ts) =
     (if TIME_LESS_THAN (to_time timeout) (to_time t) then timeout # t # ts else t # timeout_insert timeout ts)"

definition sys_timeout_abs :: "u32 \<Rightarrow> nat option \<Rightarrow> nat option \<Rightarrow> 'a timenet_scheme \<Rightarrow> 'a timenet_scheme option" where
  "sys_timeout_abs abs_time handler arg s =
     (case mem_malloc None (net_heap s) of
        (None, h) \<Rightarrow> None
      | (Some _, h) \<Rightarrow>
          Some (s\<lparr>net_heap := h,
                  next_timeout := timeout_insert \<lparr>to_time = abs_time, to_h = handler, to_arg = arg\<rparr> (next_timeout s)\<rparr>))"

definition sys_timeout :: "u32 \<Rightarrow> nat option \<Rightarrow> nat option \<Rightarrow> 'a timenet_scheme \<Rightarrow> 'a timenet_scheme option" where
  "sys_timeout msecs handler arg s =
     (if \<not> msecs \<le> 0xFFFFFFFF div 4 then None
      else sys_timeout_abs (sys_clock s + msecs) handler arg s)"

fun untimeout :: "nat option \<Rightarrow> nat option \<Rightarrow> sys_timeo list \<Rightarrow> sys_timeo list" where
  "untimeout handler arg [] = []"
| "untimeout handler arg (t # ts) =
     (if to_h t = handler \<and> to_arg t = arg then ts else t # untimeout handler arg ts)"

definition sys_untimeout :: "nat option \<Rightarrow> nat option \<Rightarrow> 'a timenet_scheme \<Rightarrow> 'a timenet_scheme" where
  "sys_untimeout handler arg s = s\<lparr>next_timeout := untimeout handler arg (next_timeout s)\<rparr>"

text \<open>A handler may add timeouts, so the loop need not end: it carries fuel. \<^verbatim>\<open>PBUF_CHECK_FREE_OOSEQ\<close> is the
  argument \<open>check_ooseq\<close>.\<close>

fun check_timeouts_loop ::
  "('a timenet_scheme \<Rightarrow> 'a timenet_scheme option) \<Rightarrow> (nat \<Rightarrow> nat option \<Rightarrow> 'a timenet_scheme \<Rightarrow> 'a timenet_scheme option) \<Rightarrow>
     nat \<Rightarrow> u32 \<Rightarrow> 'a timenet_scheme \<Rightarrow> 'a timenet_scheme option" where
  "check_timeouts_loop check_ooseq run 0 now s = None"
| "check_timeouts_loop check_ooseq run (Suc fuel) now s =
     do {
       s \<leftarrow> check_ooseq s;
       case next_timeout s of
         [] \<Rightarrow> Some s
       | t # ts \<Rightarrow>
           if TIME_LESS_THAN now (to_time t) then Some s
           else do {
             let s = s\<lparr>next_timeout := ts, current_timeout_due_time := to_time t\<rparr>;
             s \<leftarrow> (case to_h t of None \<Rightarrow> Some s | Some f \<Rightarrow> run f (to_arg t) s);
             check_timeouts_loop check_ooseq run fuel now s
           }
     }"

definition sys_check_timeouts ::
  "('a timenet_scheme \<Rightarrow> 'a timenet_scheme option) \<Rightarrow> (nat \<Rightarrow> nat option \<Rightarrow> 'a timenet_scheme \<Rightarrow> 'a timenet_scheme option) \<Rightarrow>
     nat \<Rightarrow> 'a timenet_scheme \<Rightarrow> 'a timenet_scheme option" where
  "sys_check_timeouts check_ooseq run fuel s = check_timeouts_loop check_ooseq run fuel (sys_clock s) s"

definition sys_restart_timeouts :: "'a timenet_scheme \<Rightarrow> 'a timenet_scheme" where
  "sys_restart_timeouts s =
     (case next_timeout s of
        [] \<Rightarrow> s
      | t0 # ts \<Rightarrow>
          (let base = to_time t0 in
           s\<lparr>next_timeout := map (\<lambda>t. t\<lparr>to_time := (to_time t - base) + sys_clock s\<rparr>) (next_timeout s)\<rparr>))"

definition SYS_TIMEOUTS_SLEEPTIME_INFINITE :: u32 where "SYS_TIMEOUTS_SLEEPTIME_INFINITE = 0xFFFFFFFF"

definition sys_timeouts_sleeptime :: "'a timenet_scheme \<Rightarrow> u32 option" where
  "sys_timeouts_sleeptime s =
     (case next_timeout s of
        [] \<Rightarrow> Some SYS_TIMEOUTS_SLEEPTIME_INFINITE
      | t # ts \<Rightarrow>
          if TIME_LESS_THAN (to_time t) (sys_clock s) then Some 0
          else let ret = to_time t - sys_clock s in if ret \<le> LWIP_MAX_TIMEOUT then Some ret else None)"

subsection \<open>The order of the timeouts\<close>

lemma u32_half_iff:
  assumes "\<bar>x - y\<bar> < 2 ^ 31"
  shows "(of_int x - of_int y :: u32) > 0x7fffffff \<longleftrightarrow> x < y"
proof -
  have m: "uint (of_int x - of_int y :: u32) = (x - y) mod 2 ^ 32"
    unfolding of_int_diff [symmetric] uint_word_of_int by simp
  have "(x - y) mod 2 ^ 32 = (if x < y then x - y + 2 ^ 32 else x - y)"
  proof (cases "x < y")
    case True
    then have "(x - y + 2 ^ 32) mod 2 ^ 32 = x - y + 2 ^ 32"
      using assms by (intro mod_pos_pos_trivial) auto
    then show ?thesis
      using True by simp
  qed (use assms in \<open>auto intro!: mod_pos_pos_trivial\<close>)
  then show ?thesis
    using assms m by (auto simp: word_less_def split: if_splits)
qed

interpretation time: wrap_order TIME_LESS_THAN
  by unfold_locales (simp add: TIME_LESS_THAN_def LWIP_MAX_TIMEOUT_def u32_half_iff)

lemma timeout_insert_eq:
  "timeout_insert t ts = insert_before (\<lambda>y. TIME_LESS_THAN (to_time t) (to_time y)) t ts"
  by (induction ts) auto

lemma timeout_insert_sorted:
  assumes "\<forall>y \<in> insert t (set ts). in_half base (to_time y)" and "time.sorted_key to_time ts"
  shows "time.sorted_key to_time (timeout_insert t ts)"
  unfolding timeout_insert_eq by (rule time.sorted_insert_after_equal [OF assms])

lemma timeout_insert_mset [simp]: "mset (timeout_insert t ts) = add_mset t (mset ts)"
  by (simp add: timeout_insert_eq)

lemma timeout_insert_set [simp]: "set (timeout_insert t ts) = insert t (set ts)"
  by (simp add: timeout_insert_eq)

text \<open>The timeouts are sorted by due time, which is within half of the number space from \<open>base\<close>.\<close>

definition timeouts_ok :: "u32 \<Rightarrow> sys_timeo list \<Rightarrow> bool" where
  "timeouts_ok base ts = (time.sorted_key to_time ts \<and> (\<forall>t \<in> set ts. in_half base (to_time t)))"

lemma timeouts_ok_Cons: "timeouts_ok base (t # ts) \<Longrightarrow> timeouts_ok base ts"
  by (simp add: timeouts_ok_def)

lemma timeouts_ok_insert:
  "timeouts_ok base ts \<Longrightarrow> in_half base (to_time t) \<Longrightarrow> timeouts_ok base (timeout_insert t ts)"
  by (auto simp: timeouts_ok_def intro!: timeout_insert_sorted [of _ _ base])

lemma timeouts_ok_not_due:
  assumes "timeouts_ok base (t # ts)" and "in_half base now" and "TIME_LESS_THAN now (to_time t)"
  shows "filter (\<lambda>t. \<not> TIME_LESS_THAN now (to_time t)) (t # ts) = []"
  using assms by (auto simp: timeouts_ok_def filter_empty_conv time.less_iff_offset [of base] not_less)

text \<open>C22: Setting a timeout keeps the list of timeouts sorted by due time and adds exactly the new entry, even
  when the clock wraps around, as long as all due times are within half of the number space.\<close>

theorem sys_timeout_sorted:
  assumes "\<not> h_fail (net_heap s) (h_next (net_heap s))" and "msecs \<le> 0xFFFFFFFF div 4"
    and "timeouts_ok base (next_timeout s)" and "in_half base (sys_clock s + msecs)"
  shows "\<exists>s'. sys_timeout msecs handler arg s = Some s' \<and> timeouts_ok base (next_timeout s') \<and>
           mset (next_timeout s') = add_mset \<lparr>to_time = sys_clock s + msecs, to_h = handler, to_arg = arg\<rparr> (mset (next_timeout s))"
  using assms by (simp add: sys_timeout_def sys_timeout_abs_def mem_malloc_def Let_def timeouts_ok_insert)

lemma check_timeouts_loop_ends:
  assumes now: "in_half base now"
    and ooseq: "\<And>s. timeouts_ok base (next_timeout s) \<Longrightarrow> \<exists>s'. check_ooseq s = Some s' \<and> next_timeout s' = next_timeout s"
    and run: "\<And>f arg s. timeouts_ok base (next_timeout s) \<Longrightarrow> \<exists>s'. run f arg s = Some s' \<and> timeouts_ok base (next_timeout s') \<and>
                filter (\<lambda>t. \<not> TIME_LESS_THAN now (to_time t)) (next_timeout s') = filter (\<lambda>t. \<not> TIME_LESS_THAN now (to_time t)) (next_timeout s)"
    and "timeouts_ok base (next_timeout s)"
    and "length (filter (\<lambda>t. \<not> TIME_LESS_THAN now (to_time t)) (next_timeout s)) < fuel"
  shows "\<exists>s'. check_timeouts_loop check_ooseq run fuel now s = Some s' \<and> timeouts_ok base (next_timeout s') \<and>
           filter (\<lambda>t. \<not> TIME_LESS_THAN now (to_time t)) (next_timeout s') = []"
  using assms(4,5)
proof (induction fuel arbitrary: s)
  case (Suc fuel)
  obtain s1 where s1: "check_ooseq s = Some s1" "next_timeout s1 = next_timeout s"
    using ooseq [OF Suc.prems(1)] by blast
  show ?case
  proof (cases "next_timeout s")
    case Nil
    then show ?thesis
      using s1 Suc.prems by simp
  next
    case (Cons t ts)
    show ?thesis
    proof (cases "TIME_LESS_THAN now (to_time t)")
      case True
      then show ?thesis
        using s1 Cons Suc.prems timeouts_ok_not_due [OF _ now, of t ts] by simp
    next
      case False
      let ?s = "s1\<lparr>next_timeout := ts, current_timeout_due_time := to_time t\<rparr>"
      have ts: "timeouts_ok base ts"
        using Suc.prems(1) Cons timeouts_ok_Cons by simp
      then obtain s2 where s2: "(case to_h t of None \<Rightarrow> Some ?s | Some f \<Rightarrow> run f (to_arg t) ?s) = Some s2"
        "timeouts_ok base (next_timeout s2)"
        "filter (\<lambda>t. \<not> TIME_LESS_THAN now (to_time t)) (next_timeout s2) = filter (\<lambda>t. \<not> TIME_LESS_THAN now (to_time t)) ts"
        using run [of ?s] by (cases "to_h t") fastforce+
      with Suc.IH [of s2] show ?thesis
        using s1 Cons False Suc.prems by simp
    qed
  qed
qed simp




text \<open>A stack without interfaces whose clock is about to wrap around, with two timeouts, one of them due, and a handler that
  sets itself again.\<close>

definition sample_timenet :: timenet where
  "sample_timenet = \<lparr>net_heap = sample_heap, netifs = (\<lambda>_. numbered_netif 0), netif_list = [], netif_default = None, netif_num = 0,
     ip_id = 0, tun_writes = [], plat = Linux, 
     ip_data = \<lparr>current_netif = None, current_input_netif = None, current_ip4_header = None,
       current_ip_header_tot_len = 0, current_iphdr_src = 0, current_iphdr_dest = 0\<rparr>, raw_mem = Map.empty, raw_pcbs = [],
     sys_clock = 0xFFFFFFFF, next_timeout = [\<lparr>to_time = 0xFFFFFF10, to_h = Some 0, to_arg = None\<rparr>, \<lparr>to_time = 5, to_h = None, to_arg = None\<rparr>],
     current_timeout_due_time = 0\<rparr>"

definition sample_again :: "nat \<Rightarrow> nat option \<Rightarrow> timenet \<Rightarrow> timenet option" where
  "sample_again f arg s = Some (s\<lparr>next_timeout := timeout_insert \<lparr>to_time = 249, to_h = Some f, to_arg = arg\<rparr> (next_timeout s)\<rparr>)"

lemma sample_timenet_sel [simp]:
  "net_heap sample_timenet = sample_heap" "sys_clock sample_timenet = 0xFFFFFFFF"
  "next_timeout sample_timenet = [\<lparr>to_time = 0xFFFFFF10, to_h = Some 0, to_arg = None\<rparr>, \<lparr>to_time = 5, to_h = None, to_arg = None\<rparr>]"
  by (simp_all add: sample_timenet_def)

lemma sample_timeouts_ok: "timeouts_ok 0xFFFFFF00 (next_timeout sample_timenet)"
  by (simp add: timeouts_ok_def in_half_def TIME_LESS_THAN_def LWIP_MAX_TIMEOUT_def)

lemma filter_timeout_insert:
  "\<not> P t \<Longrightarrow> filter P (timeout_insert t ts) = filter P ts"
  by (induction ts) auto

lemma sample_again_ok:
  assumes "timeouts_ok 0xFFFFFF00 (next_timeout s)"
  shows "\<exists>s'. sample_again f arg s = Some s' \<and> timeouts_ok 0xFFFFFF00 (next_timeout s') \<and>
    filter (\<lambda>t. \<not> TIME_LESS_THAN 0xFFFFFFFF (to_time t)) (next_timeout s') = filter (\<lambda>t. \<not> TIME_LESS_THAN 0xFFFFFFFF (to_time t)) (next_timeout s)"
  using timeouts_ok_insert [OF assms, of "\<lparr>to_time = 249, to_h = Some f, to_arg = arg\<rparr>"]
  by (simp add: sample_again_def filter_timeout_insert in_half_def TIME_LESS_THAN_def LWIP_MAX_TIMEOUT_def)

theorem sys_timeout_sorted_witness:
  "\<exists>s'. sys_timeout 250 (Some 0) None sample_timenet = Some s' \<and> timeouts_ok 0xFFFFFF00 (next_timeout s') \<and>
     mset (next_timeout s') = add_mset \<lparr>to_time = 249, to_h = Some 0, to_arg = None\<rparr> (mset (next_timeout sample_timenet))"
proof -
  have w: "(4294967545 :: u32) = 249"
    by simp
  show ?thesis
    using sys_timeout_sorted [of sample_timenet 250 "0xFFFFFF00" "Some 0" None, OF _ _ sample_timeouts_ok]
    by (simp add: sample_heap_def empty_heap_def in_half_def w)
qed


end
