(* ===== verification/Tcp_Pcb.thy ===== *)
theory Tcp_Pcb
  imports Icmp Timeouts
begin

text \<open>
  The data of lwIP's TCP: \<^verbatim>\<open>lwip/include/lwip/tcp.h\<close>, \<^verbatim>\<open>lwip/include/lwip/priv/tcp_priv.h\<close>,
  \<^verbatim>\<open>lwip/include/lwip/prot/tcp.h\<close>, and the operations of \<^verbatim>\<open>lwip/core/tcp.c\<close> on control blocks that send nothing. A control block lives in
  \<open>tcp_mem\<close> (a listening one in \<open>tcp_listen_mem\<close>) under the address its allocation got. A segment is
  on one queue at a time, so a queue is the list of its segments; the TCP header of a segment is the memory
  behind \<open>seg_tcphdr\<close>. The lists of control blocks are lists of addresses, except the list of listening ones,
  whose \<^verbatim>\<open>next\<close> pointers are kept because \<^verbatim>\<open>tcp_input\<close> can close them to a cycle. A callback is a number (\<open>None\<close>
  for a null pointer); what the callbacks of the program do is the argument \<open>cb\<close> of the functions that
  call them. \<^verbatim>\<open>TCP_LISTEN_BACKLOG\<close>, \<^verbatim>\<open>LWIP_TCP_TIMESTAMPS\<close>, \<^verbatim>\<open>LWIP_WND_SCALE\<close>, \<^verbatim>\<open>LWIP_TCP_SACK_OUT\<close>,
  \<^verbatim>\<open>LWIP_TCP_KEEPALIVE\<close>, \<^verbatim>\<open>SO_REUSE\<close> and \<^verbatim>\<open>LWIP_CHECKSUM_ON_COPY\<close> are off, \<^verbatim>\<open>LWIP_CALLBACK_API\<close> and \<^verbatim>\<open>TCP_QUEUE_OOSEQ\<close> on.
\<close>

subsection \<open>Constants\<close>

definition TCP_HLEN :: nat where "TCP_HLEN = 20"

definition TCP_FIN :: u8 where "TCP_FIN = 0x01"
definition TCP_SYN :: u8 where "TCP_SYN = 0x02"
definition TCP_RST :: u8 where "TCP_RST = 0x04"
definition TCP_PSH :: u8 where "TCP_PSH = 0x08"
definition TCP_ACK :: u8 where "TCP_ACK = 0x10"
definition TCP_FLAGS :: u16 where "TCP_FLAGS = 0x3f"

definition TF_ACK_DELAY :: u16 where "TF_ACK_DELAY = 0x01"
definition TF_ACK_NOW :: u16 where "TF_ACK_NOW = 0x02"
definition TF_INFR :: u16 where "TF_INFR = 0x04"
definition TF_CLOSEPEND :: u16 where "TF_CLOSEPEND = 0x08"
definition TF_RXCLOSED :: u16 where "TF_RXCLOSED = 0x10"
definition TF_FIN :: u16 where "TF_FIN = 0x20"
definition TF_NODELAY :: u16 where "TF_NODELAY = 0x40"
definition TF_NAGLEMEMERR :: u16 where "TF_NAGLEMEMERR = 0x80"
definition TF_RTO :: u16 where "TF_RTO = 0x0800"

text \<open>The flags of the input processing, in \<open>recv_flags\<close>.\<close>

definition TF_RESET :: u8 where "TF_RESET = 0x08"
definition TF_CLOSED :: u8 where "TF_CLOSED = 0x10"
definition TF_GOT_FIN :: u8 where "TF_GOT_FIN = 0x20"

definition TF_SEG_OPTS_MSS :: u8 where "TF_SEG_OPTS_MSS = 0x01"

definition TCP_WND :: u16 where "TCP_WND = 0xFFFF"
definition TCP_SND_BUF :: u16 where "TCP_SND_BUF = TCP_WND"
definition TCP_MSS :: u16 where "TCP_MSS = 1460"
definition INITIAL_MSS :: u16 where "INITIAL_MSS = 536"
definition TCP_SNDQUEUELEN_OVERFLOW :: nat where "TCP_SNDQUEUELEN_OVERFLOW = 0xffff - 3"
definition TCP_SND_QUEUELEN :: nat where "TCP_SND_QUEUELEN = TCP_SNDQUEUELEN_OVERFLOW"
definition TCP_OVERSIZE :: nat where "TCP_OVERSIZE = 1460"
definition TCP_WND_UPDATE_THRESHOLD :: u32 where "TCP_WND_UPDATE_THRESHOLD = 0xFFFF div 4"
definition TCP_TTL :: u8 where "TCP_TTL = 255"
definition TCP_MAXRTX :: u8 where "TCP_MAXRTX = 12"
definition TCP_SYNMAXRTX :: u8 where "TCP_SYNMAXRTX = 6"
definition TCP_TMR_INTERVAL :: u32 where "TCP_TMR_INTERVAL = 250"
definition TCP_SLOW_INTERVAL :: u32 where "TCP_SLOW_INTERVAL = 500"
definition TCP_FIN_WAIT_TIMEOUT :: u32 where "TCP_FIN_WAIT_TIMEOUT = 20000"
definition TCP_SYN_RCVD_TIMEOUT :: u32 where "TCP_SYN_RCVD_TIMEOUT = 20000"
definition TCP_OOSEQ_TIMEOUT :: u32 where "TCP_OOSEQ_TIMEOUT = 6"
definition TCP_MSL :: u32 where "TCP_MSL = 60000"
definition TCP_KEEPIDLE_DEFAULT :: u32 where "TCP_KEEPIDLE_DEFAULT = 7200000"
definition TCP_KEEPINTVL_DEFAULT :: u32 where "TCP_KEEPINTVL_DEFAULT = 75000"
definition TCP_MAXIDLE :: u32 where "TCP_MAXIDLE = 9 * TCP_KEEPINTVL_DEFAULT"
definition TCP_PRIO_NORMAL :: u8 where "TCP_PRIO_NORMAL = 64"
definition TCP_PRIO_MAX :: u8 where "TCP_PRIO_MAX = 127"
definition SOF_KEEPALIVE :: u8 where "SOF_KEEPALIVE = 0x08"
definition SOF_INHERITED :: u8 where "SOF_INHERITED = 0x0c"
definition TCP_LOCAL_PORT_RANGE_START :: u16 where "TCP_LOCAL_PORT_RANGE_START = 0xc000"
definition TCP_LOCAL_PORT_RANGE_END :: u16 where "TCP_LOCAL_PORT_RANGE_END = 0xffff"

definition tcp_backoff :: "nat list" where
  "tcp_backoff = [1, 2, 3, 4, 5, 6, 7, 7, 7, 7, 7, 7, 7]"

definition tcp_persist_backoff :: "u8 list" where
  "tcp_persist_backoff = [3, 6, 12, 24, 48, 96, 120]"

subsection \<open>Segments and control blocks\<close>

type_synonym s16 = "16 word"

record tcp_seg =
  seg_p :: "addr option"
  seg_len :: u16
  seg_flags :: u8
  seg_tcphdr :: "ptr option"

datatype tcp_state = CLOSED | LISTEN | SYN_SENT | SYN_RCVD | ESTABLISHED | FIN_WAIT_1 | FIN_WAIT_2 | CLOSE_WAIT
  | CLOSING | LAST_ACK | TIME_WAIT

text \<open>The order of the enumeration, which the code compares by.\<close>

fun state_code :: "tcp_state \<Rightarrow> nat" where
  "state_code CLOSED = 0"
| "state_code LISTEN = 1"
| "state_code SYN_SENT = 2"
| "state_code SYN_RCVD = 3"
| "state_code ESTABLISHED = 4"
| "state_code FIN_WAIT_1 = 5"
| "state_code FIN_WAIT_2 = 6"
| "state_code CLOSE_WAIT = 7"
| "state_code CLOSING = 8"
| "state_code LAST_ACK = 9"
| "state_code TIME_WAIT = 10"

text \<open>The callbacks a control block can hold; two of them are functions of lwIP.\<close>

datatype accept_fn = Tcp_accept_null | Accept_fn nat
datatype recv_fn = Tcp_recv_null | Recv_fn nat

record tcp_pcb_listen =
  lpcb_local_ip :: u32
  lpcb_netif_idx :: u8
  lpcb_so_options :: u8
  lpcb_tos :: u8
  lpcb_ttl :: u8
  lpcb_next :: "addr option"
  lpcb_callback_arg :: "nat option"
  lpcb_state :: tcp_state
  lpcb_prio :: u8
  lpcb_local_port :: u16
  lpcb_accept :: "accept_fn option"

record tcp_pcb =
  pcb_local_ip :: u32
  pcb_remote_ip :: u32
  pcb_netif_idx :: u8
  pcb_so_options :: u8
  pcb_tos :: u8
  pcb_ttl :: u8
  pcb_callback_arg :: "nat option"
  pcb_state :: tcp_state
  pcb_prio :: u8
  pcb_local_port :: u16
  pcb_remote_port :: u16
  pcb_flags :: u16
  pcb_polltmr :: u8
  pcb_pollinterval :: u8
  pcb_last_timer :: u8
  pcb_tmr :: u32
  pcb_rcv_nxt :: u32
  pcb_rcv_wnd :: u16
  pcb_rcv_ann_wnd :: u16
  pcb_rcv_ann_right_edge :: u32
  pcb_rtime :: s16
  pcb_mss :: u16
  pcb_rttest :: u32
  pcb_rtseq :: u32
  pcb_sa :: s16
  pcb_sv :: s16
  pcb_rto :: s16
  pcb_nrtx :: u8
  pcb_dupacks :: u8
  pcb_lastack :: u32
  pcb_cwnd :: u16
  pcb_ssthresh :: u16
  pcb_rto_end :: u32
  pcb_snd_nxt :: u32
  pcb_snd_wl1 :: u32
  pcb_snd_wl2 :: u32
  pcb_snd_lbb :: u32
  pcb_snd_wnd :: u16
  pcb_snd_wnd_max :: u16
  pcb_snd_buf :: u16
  pcb_snd_queuelen :: u16
  pcb_unsent_oversize :: u16
  pcb_bytes_acked :: u16
  pcb_unsent :: "tcp_seg list"
  pcb_unacked :: "tcp_seg list"
  pcb_ooseq :: "tcp_seg list"
  pcb_refused_data :: "addr option"
  pcb_listener :: "addr option"
  pcb_sent :: "nat option"
  pcb_recv :: "recv_fn option"
  pcb_connected :: "nat option"
  pcb_poll :: "nat option"
  pcb_errf :: "nat option"
  pcb_keep_idle :: u32
  pcb_persist_cnt :: u8
  pcb_persist_backoff :: u8
  pcb_persist_probe :: u8
  pcb_keep_cnt_sent :: u8

subsection \<open>State\<close>

text \<open>The variables \<^verbatim>\<open>tcp_input\<close> sets for the functions it calls.\<close>

record tcp_in =
  in_inseg :: tcp_seg
  in_tcphdr :: "ptr option"
  in_optlen :: u16
  in_opt1len :: u16
  in_opt2 :: "ptr option"
  in_optidx :: u16
  in_seqno :: u32
  in_ackno :: u32
  in_recv_acked :: u16
  in_tcplen :: u16
  in_flags :: u8
  in_recv_flags :: u8
  in_recv_data :: "addr option"

text \<open>\<open>tcp_iss\<close> is the static variable of \<^verbatim>\<open>tcp_next_iss\<close>.\<close>

record tcpnet = timenet +
  tcp_mem :: "addr \<Rightarrow> tcp_pcb option"
  tcp_listen_mem :: "addr \<Rightarrow> tcp_pcb_listen option"
  tcp_bound_pcbs :: "addr list"
  tcp_listen_pcbs :: "addr option"
  tcp_active_pcbs :: "addr list"
  tcp_tw_pcbs :: "addr list"
  tcp_active_pcbs_changed :: bool
  tcpip_tcp_timer_active :: bool
  tcp_port :: u16
  tcp_ticks :: u32
  tcp_timer :: u8
  tcp_timer_ctr :: u8
  tcp_iss :: u32
  tcp_input_pcb :: "addr option"
  tcp_in :: tcp_in

text \<open>The callbacks of the program: each gets the number stored in the control block and its
  \<^verbatim>\<open>callback_arg\<close>.\<close>

record 's tcp_cb =
  cb_accept :: "nat \<Rightarrow> nat option \<Rightarrow> addr option \<Rightarrow> err_t \<Rightarrow> 's \<Rightarrow> (err_t \<times> 's) option"
  cb_recv :: "nat \<Rightarrow> nat option \<Rightarrow> addr \<Rightarrow> addr option \<Rightarrow> err_t \<Rightarrow> 's \<Rightarrow> (err_t \<times> 's) option"
  cb_sent :: "nat \<Rightarrow> nat option \<Rightarrow> addr \<Rightarrow> u16 \<Rightarrow> 's \<Rightarrow> (err_t \<times> 's) option"
  cb_connected :: "nat \<Rightarrow> nat option \<Rightarrow> addr \<Rightarrow> err_t \<Rightarrow> 's \<Rightarrow> (err_t \<times> 's) option"
  cb_poll :: "nat \<Rightarrow> nat option \<Rightarrow> addr \<Rightarrow> 's \<Rightarrow> (err_t \<times> 's) option"
  cb_err :: "nat \<Rightarrow> nat option \<Rightarrow> err_t \<Rightarrow> 's \<Rightarrow> 's option"

definition set_pcb :: "addr \<Rightarrow> tcp_pcb \<Rightarrow> 'a tcpnet_scheme \<Rightarrow> 'a tcpnet_scheme" where
  "set_pcb a c s = s\<lparr>tcp_mem := (tcp_mem s)(a \<mapsto> c)\<rparr>"

definition set_lpcb :: "addr \<Rightarrow> tcp_pcb_listen \<Rightarrow> 'a tcpnet_scheme \<Rightarrow> 'a tcpnet_scheme" where
  "set_lpcb a c s = s\<lparr>tcp_listen_mem := (tcp_listen_mem s)(a \<mapsto> c)\<rparr>"

text \<open>An assignment to members of a control block.\<close>

definition upd_pcb :: "addr \<Rightarrow> (tcp_pcb \<Rightarrow> tcp_pcb) \<Rightarrow> 'a tcpnet_scheme \<Rightarrow> 'a tcpnet_scheme option" where
  "upd_pcb a f s = do { c \<leftarrow> tcp_mem s a; Some (set_pcb a (f c) s) }"

text \<open>The state of the control block behind a pointer, listening or not.\<close>

definition state_of :: "addr \<Rightarrow> 'a tcpnet_scheme \<Rightarrow> tcp_state option" where
  "state_of a s = (case tcp_listen_mem s a of Some l \<Rightarrow> Some (lpcb_state l) | None \<Rightarrow> map_option pcb_state (tcp_mem s a))"

definition tcp_set_flags :: "u16 \<Rightarrow> tcp_pcb \<Rightarrow> tcp_pcb" where
  "tcp_set_flags fl c = c\<lparr>pcb_flags := pcb_flags c OR fl\<rparr>"

definition tcp_clear_flags :: "u16 \<Rightarrow> tcp_pcb \<Rightarrow> tcp_pcb" where
  "tcp_clear_flags fl c = c\<lparr>pcb_flags := pcb_flags c AND NOT fl\<rparr>"

definition tcp_is_flag_set :: "u16 \<Rightarrow> tcp_pcb \<Rightarrow> bool" where
  "tcp_is_flag_set fl c = (pcb_flags c AND fl \<noteq> 0)"

definition tcp_ack_now :: "tcp_pcb \<Rightarrow> tcp_pcb" where
  "tcp_ack_now c = tcp_set_flags TF_ACK_NOW c"

definition tcp_ack :: "tcp_pcb \<Rightarrow> tcp_pcb" where
  "tcp_ack c =
     (if tcp_is_flag_set TF_ACK_DELAY c then tcp_ack_now (tcp_clear_flags TF_ACK_DELAY c)
      else tcp_set_flags TF_ACK_DELAY c)"

definition tcp_nagle_disable :: "tcp_pcb \<Rightarrow> tcp_pcb" where
  "tcp_nagle_disable c = tcp_set_flags TF_NODELAY c"

subsection \<open>Sequence numbers\<close>

definition TCP_SEQ_LT :: "u32 \<Rightarrow> u32 \<Rightarrow> bool" where "TCP_SEQ_LT a b = (sint (a - b) < 0)"
definition TCP_SEQ_LEQ :: "u32 \<Rightarrow> u32 \<Rightarrow> bool" where "TCP_SEQ_LEQ a b = (sint (a - b) \<le> 0)"
definition TCP_SEQ_GT :: "u32 \<Rightarrow> u32 \<Rightarrow> bool" where "TCP_SEQ_GT a b = (sint (a - b) > 0)"
definition TCP_SEQ_GEQ :: "u32 \<Rightarrow> u32 \<Rightarrow> bool" where "TCP_SEQ_GEQ a b = (sint (a - b) \<ge> 0)"

definition TCP_SEQ_BETWEEN :: "u32 \<Rightarrow> u32 \<Rightarrow> u32 \<Rightarrow> bool" where
  "TCP_SEQ_BETWEEN a b c = (TCP_SEQ_GEQ a b \<and> TCP_SEQ_LEQ a c)"

definition TCP_WND_INC :: "u16 \<Rightarrow> u16 \<Rightarrow> u16" where
  "TCP_WND_INC wnd inc = (if wnd + inc \<ge> wnd then wnd + inc else - 1)"

subsection \<open>The TCP header\<close>

text \<open>The offsets of \<^verbatim>\<open>struct tcp_hdr\<close>: \<^verbatim>\<open>src\<close> 0, \<^verbatim>\<open>dest\<close> 2, \<^verbatim>\<open>seqno\<close> 4, \<^verbatim>\<open>ackno\<close> 8, \<^verbatim>\<open>_hdrlen_rsvd_flags\<close> 12, \<^verbatim>\<open>wnd\<close> 14,
  \<^verbatim>\<open>chksum\<close> 16, \<^verbatim>\<open>urgp\<close> 18.\<close>

definition TCPH_HDRLEN_BYTES :: "heap \<Rightarrow> ptr option \<Rightarrow> u8 option" where
  "TCPH_HDRLEN_BYTES h q = map_option (\<lambda>w. ucast (push_bit 2 (drop_bit 12 (lwip_ntohs w)))) (rd16 h q 12)"

definition TCPH_FLAGS :: "heap \<Rightarrow> ptr option \<Rightarrow> u8 option" where
  "TCPH_FLAGS h q = map_option (\<lambda>w. ucast (lwip_ntohs w AND TCP_FLAGS)) (rd16 h q 12)"

definition TCPH_FLAGS_SET :: "ptr option \<Rightarrow> u8 \<Rightarrow> heap \<Rightarrow> heap option" where
  "TCPH_FLAGS_SET q fl h = do { w \<leftarrow> rd16 h q 12; wr16 q 12 ((w AND PP_HTONS (NOT TCP_FLAGS)) OR lwip_htons (ucast fl)) h }"

definition TCPH_HDRLEN_FLAGS_SET :: "ptr option \<Rightarrow> u16 \<Rightarrow> u8 \<Rightarrow> heap \<Rightarrow> heap option" where
  "TCPH_HDRLEN_FLAGS_SET q len fl h = wr16 q 12 (lwip_htons (push_bit 12 len OR ucast fl)) h"

definition TCPH_SET_FLAG :: "ptr option \<Rightarrow> u8 \<Rightarrow> heap \<Rightarrow> heap option" where
  "TCPH_SET_FLAG q fl h = do { w \<leftarrow> rd16 h q 12; wr16 q 12 (w OR lwip_htons (ucast fl)) h }"

text \<open>The sequence number of a segment that is to be sent, in host byte order.\<close>

definition seg_seqno :: "heap \<Rightarrow> tcp_seg \<Rightarrow> u32 option" where
  "seg_seqno h seg = map_option lwip_ntohl (rd32 h (seg_tcphdr seg) 4)"

definition TCP_TCPLEN :: "heap \<Rightarrow> tcp_seg \<Rightarrow> u32 option" where
  "TCP_TCPLEN h seg =
     map_option (\<lambda>fl. ucast (seg_len seg) + (if fl AND (TCP_FIN OR TCP_SYN) \<noteq> 0 then 1 else 0)) (TCPH_FLAGS h (seg_tcphdr seg))"

definition LWIP_TCP_OPT_LENGTH :: "u8 \<Rightarrow> u8" where
  "LWIP_TCP_OPT_LENGTH fl = (if fl AND TF_SEG_OPTS_MSS \<noteq> 0 then 4 else 0)"

definition TCP_BUILD_MSS_OPTION :: "u16 \<Rightarrow> u32" where
  "TCP_BUILD_MSS_OPTION mss = lwip_htonl (0x02040000 OR ucast mss)"

subsection \<open>The order of sequence numbers\<close>

lemma sint_u32_neg: "sint (x :: u32) < 0 \<longleftrightarrow> x > 0x7fffffff"
proof -
  have "sint x < 0 \<longleftrightarrow> odd (uint x div 2 ^ 31)"
    unfolding sint_uint by (simp add: signed_take_bit_negative_iff bit_iff_odd)
  also have "\<dots> \<longleftrightarrow> 2 ^ 31 \<le> uint x"
  proof (cases "2 ^ 31 \<le> uint x")
    case True
    then have "uint x div 2 ^ 31 = 1"
      using uint_bounded [of x] by (simp add: div_pos_geq)
    then show ?thesis
      using True by simp
  qed (simp add: div_pos_pos_trivial)
  also have "\<dots> \<longleftrightarrow> x > 0x7fffffff"
    by (auto simp: word_less_def)
  finally show ?thesis .
qed

lemma TCP_SEQ_LT_time: "TCP_SEQ_LT a b = TIME_LESS_THAN a b"
  by (simp add: TCP_SEQ_LT_def TIME_LESS_THAN_def LWIP_MAX_TIMEOUT_def sint_u32_neg)

interpretation seq: wrap_order TCP_SEQ_LT
  by unfold_locales (simp add: TCP_SEQ_LT_time time.less_of_int)

end
