(* ===== verification/Tcp_Base.thy ===== *)
theory Tcp_Base
  imports Tcp_Pcb
begin

text \<open>
  The operations of \<^verbatim>\<open>lwip/core/tcp.c\<close> that do not send: the lists of control blocks, releasing segments and
  control blocks, the receive window, setting up a listening control block. A failed assertion, the use of a
  control block that is not allocated and a walk that does not end are \<open>None\<close>. A walk along the listening
  control blocks that is longer than the number of allocations made so far goes around a cycle.
\<close>

subsection \<open>Lists of control blocks\<close>

text \<open>The table \<^verbatim>\<open>tcp_pcb_lists\<close>.\<close>

datatype pcb_list = Listen_pcbs | Bound_pcbs | Active_pcbs | Tw_pcbs

definition TCPIP_TCP_TIMER :: nat where "TCPIP_TCP_TIMER = 0"

definition tcp_timer_needed :: "'a tcpnet_scheme \<Rightarrow> 'a tcpnet_scheme option" where
  "tcp_timer_needed s =
     (if \<not> tcpip_tcp_timer_active s \<and> (tcp_active_pcbs s \<noteq> [] \<or> tcp_tw_pcbs s \<noteq> [])
      then sys_timeout TCP_TMR_INTERVAL (Some TCPIP_TCP_TIMER) None (s\<lparr>tcpip_tcp_timer_active := True\<rparr>)
      else Some s)"

definition TCP_REG :: "pcb_list \<Rightarrow> addr \<Rightarrow> 'a tcpnet_scheme \<Rightarrow> 'a tcpnet_scheme option" where
  "TCP_REG pcbs npcb s =
     (case pcbs of
        Listen_pcbs \<Rightarrow>
          do {
            l \<leftarrow> tcp_listen_mem s npcb;
            tcp_timer_needed (set_lpcb npcb (l\<lparr>lpcb_next := tcp_listen_pcbs s\<rparr>) (s\<lparr>tcp_listen_pcbs := Some npcb\<rparr>))
          }
      | Bound_pcbs \<Rightarrow> tcp_timer_needed (s\<lparr>tcp_bound_pcbs := npcb # tcp_bound_pcbs s\<rparr>)
      | Active_pcbs \<Rightarrow> tcp_timer_needed (s\<lparr>tcp_active_pcbs := npcb # tcp_active_pcbs s\<rparr>)
      | Tw_pcbs \<Rightarrow> tcp_timer_needed (s\<lparr>tcp_tw_pcbs := npcb # tcp_tw_pcbs s\<rparr>))"

fun listen_unlink :: "nat \<Rightarrow> addr \<Rightarrow> tcp_pcb_listen \<Rightarrow> addr option \<Rightarrow> 'a tcpnet_scheme \<Rightarrow> 'a tcpnet_scheme option" where
  "listen_unlink 0 npcb n tmp s = None"
| "listen_unlink (Suc fuel) npcb n None s = Some s"
| "listen_unlink (Suc fuel) npcb n (Some tmp) s =
     do {
       l \<leftarrow> tcp_listen_mem s tmp;
       if lpcb_next l = Some npcb then Some (set_lpcb tmp (l\<lparr>lpcb_next := lpcb_next n\<rparr>) s)
       else listen_unlink fuel npcb n (lpcb_next l) s
     }"

definition TCP_RMV :: "pcb_list \<Rightarrow> addr \<Rightarrow> 'a tcpnet_scheme \<Rightarrow> 'a tcpnet_scheme option" where
  "TCP_RMV pcbs npcb s =
     (case pcbs of
        Listen_pcbs \<Rightarrow>
          do {
            n \<leftarrow> tcp_listen_mem s npcb;
            s \<leftarrow> (if tcp_listen_pcbs s = Some npcb then Some (s\<lparr>tcp_listen_pcbs := lpcb_next n\<rparr>)
                  else listen_unlink (walk (net_heap s)) npcb n (tcp_listen_pcbs s) s);
            n \<leftarrow> tcp_listen_mem s npcb;
            Some (set_lpcb npcb (n\<lparr>lpcb_next := None\<rparr>) s)
          }
      | Bound_pcbs \<Rightarrow> Some (s\<lparr>tcp_bound_pcbs := remove1 npcb (tcp_bound_pcbs s)\<rparr>)
      | Active_pcbs \<Rightarrow> Some (s\<lparr>tcp_active_pcbs := remove1 npcb (tcp_active_pcbs s)\<rparr>)
      | Tw_pcbs \<Rightarrow> Some (s\<lparr>tcp_tw_pcbs := remove1 npcb (tcp_tw_pcbs s)\<rparr>))"

definition TCP_REG_ACTIVE :: "addr \<Rightarrow> 'a tcpnet_scheme \<Rightarrow> 'a tcpnet_scheme option" where
  "TCP_REG_ACTIVE npcb s = do { s \<leftarrow> TCP_REG Active_pcbs npcb s; Some (s\<lparr>tcp_active_pcbs_changed := True\<rparr>) }"

definition TCP_RMV_ACTIVE :: "addr \<Rightarrow> 'a tcpnet_scheme \<Rightarrow> 'a tcpnet_scheme option" where
  "TCP_RMV_ACTIVE npcb s = do { s \<leftarrow> TCP_RMV Active_pcbs npcb s; Some (s\<lparr>tcp_active_pcbs_changed := True\<rparr>) }"

text \<open>Whether one of the control blocks from a pointer on, or of a list, has a property.\<close>

fun listen_search :: "nat \<Rightarrow> (tcp_pcb_listen \<Rightarrow> bool) \<Rightarrow> addr option \<Rightarrow> 'a tcpnet_scheme \<Rightarrow> bool option" where
  "listen_search 0 P p s = None"
| "listen_search (Suc fuel) P None s = Some False"
| "listen_search (Suc fuel) P (Some a) s =
     do { l \<leftarrow> tcp_listen_mem s a; if P l then Some True else listen_search fuel P (lpcb_next l) s }"

fun pcbs_search :: "(tcp_pcb \<Rightarrow> bool) \<Rightarrow> addr list \<Rightarrow> 'a tcpnet_scheme \<Rightarrow> bool option" where
  "pcbs_search P [] s = Some False"
| "pcbs_search P (a # as) s = do { c \<leftarrow> tcp_mem s a; if P c then Some True else pcbs_search P as s }"

subsection \<open>Releasing\<close>

definition tcp_free :: "addr \<Rightarrow> 'a tcpnet_scheme \<Rightarrow> 'a tcpnet_scheme option" where
  "tcp_free pcb s =
     do { c \<leftarrow> tcp_mem s pcb; if pcb_state c \<noteq> LISTEN then Some (s\<lparr>tcp_mem := (tcp_mem s)(pcb := None)\<rparr>) else None }"

definition tcp_free_listen :: "addr \<Rightarrow> 'a tcpnet_scheme \<Rightarrow> 'a tcpnet_scheme option" where
  "tcp_free_listen pcb s =
     do {
       l \<leftarrow> tcp_listen_mem s pcb;
       if lpcb_state l \<noteq> LISTEN then Some (s\<lparr>tcp_listen_mem := (tcp_listen_mem s)(pcb := None)\<rparr>) else None
     }"

definition tcp_seg_free :: "tcp_seg \<Rightarrow> heap \<Rightarrow> heap option" where
  "tcp_seg_free seg h = (case seg_p seg of None \<Rightarrow> Some h | Some p \<Rightarrow> map_option snd (pbuf_free (Some p) h))"

fun tcp_segs_free :: "tcp_seg list \<Rightarrow> heap \<Rightarrow> heap option" where
  "tcp_segs_free [] h = Some h"
| "tcp_segs_free (seg # segs) h = do { h \<leftarrow> tcp_seg_free seg h; tcp_segs_free segs h }"

definition tcp_seg_copy :: "tcp_seg \<Rightarrow> heap \<Rightarrow> (tcp_seg option \<times> heap) option" where
  "tcp_seg_copy seg h =
     (case mem_malloc None h of
        (None, h) \<Rightarrow> Some (None, h)
      | (Some _, h) \<Rightarrow> do { h \<leftarrow> pbuf_ref (seg_p seg) h; Some (Some seg, h) })"

definition tcp_free_ooseq :: "addr \<Rightarrow> 'a tcpnet_scheme \<Rightarrow> 'a tcpnet_scheme option" where
  "tcp_free_ooseq pcb s =
     do {
       c \<leftarrow> tcp_mem s pcb;
       h \<leftarrow> tcp_segs_free (pcb_ooseq c) (net_heap s);
       Some (set_pcb pcb (c\<lparr>pcb_ooseq := []\<rparr>) (s\<lparr>net_heap := h\<rparr>))
     }"

fun free_ooseq_of :: "addr list \<Rightarrow> 'a tcpnet_scheme \<Rightarrow> 'a tcpnet_scheme option" where
  "free_ooseq_of [] s = Some s"
| "free_ooseq_of (a # as) s =
     do { c \<leftarrow> tcp_mem s a; if pcb_ooseq c \<noteq> [] then tcp_free_ooseq a s else free_ooseq_of as s }"

definition pbuf_free_ooseq :: "'a tcpnet_scheme \<Rightarrow> 'a tcpnet_scheme option" where
  "pbuf_free_ooseq s =
     free_ooseq_of (tcp_active_pcbs s) (s\<lparr>net_heap := (net_heap s)\<lparr>pbuf_free_ooseq_pending := False\<rparr>\<rparr>)"

definition PBUF_CHECK_FREE_OOSEQ :: "'a tcpnet_scheme \<Rightarrow> 'a tcpnet_scheme option" where
  "PBUF_CHECK_FREE_OOSEQ s = (if pbuf_free_ooseq_pending (net_heap s) then pbuf_free_ooseq s else Some s)"

definition tcp_pcb_purge :: "addr \<Rightarrow> 'a tcpnet_scheme \<Rightarrow> 'a tcpnet_scheme option" where
  "tcp_pcb_purge pcb s =
     do {
       c \<leftarrow> tcp_mem s pcb;
       if pcb_state c \<noteq> CLOSED \<and> pcb_state c \<noteq> TIME_WAIT \<and> pcb_state c \<noteq> LISTEN then
         do {
           h \<leftarrow> (case pcb_refused_data c of
                    None \<Rightarrow> Some (net_heap s)
                  | Some p \<Rightarrow> map_option snd (pbuf_free (Some p) (net_heap s)));
           s \<leftarrow> tcp_free_ooseq pcb (set_pcb pcb (c\<lparr>pcb_refused_data := None\<rparr>) (s\<lparr>net_heap := h\<rparr>));
           c \<leftarrow> tcp_mem s pcb;
           h \<leftarrow> tcp_segs_free (pcb_unsent c) (net_heap s);
           h \<leftarrow> tcp_segs_free (pcb_unacked c) h;
           Some (set_pcb pcb (c\<lparr>pcb_rtime := - 1, pcb_unacked := [], pcb_unsent := [], pcb_unsent_oversize := 0\<rparr>)
                  (s\<lparr>net_heap := h\<rparr>))
         }
       else Some s
     }"

fun remove_listener :: "addr \<Rightarrow> addr list \<Rightarrow> 'a tcpnet_scheme \<Rightarrow> 'a tcpnet_scheme option" where
  "remove_listener lpcb [] s = Some s"
| "remove_listener lpcb (a # as) s =
     do {
       c \<leftarrow> tcp_mem s a;
       remove_listener lpcb as (if pcb_listener c = Some lpcb then set_pcb a (c\<lparr>pcb_listener := None\<rparr>) s else s)
     }"

definition tcp_listen_closed :: "addr \<Rightarrow> 'a tcpnet_scheme \<Rightarrow> 'a tcpnet_scheme option" where
  "tcp_listen_closed pcb s =
     do {
       l \<leftarrow> tcp_listen_mem s pcb;
       if lpcb_state l \<noteq> LISTEN then None
       else do {
         s \<leftarrow> remove_listener pcb (tcp_bound_pcbs s) s;
         s \<leftarrow> remove_listener pcb (tcp_active_pcbs s) s;
         remove_listener pcb (tcp_tw_pcbs s) s
       }
     }"

subsection \<open>Sequence numbers, segment size and receive window\<close>

definition tcp_next_iss :: "'a tcpnet_scheme \<Rightarrow> u32 \<times> 'a tcpnet_scheme" where
  "tcp_next_iss s = (let iss = tcp_iss s + tcp_ticks s in (iss, s\<lparr>tcp_iss := iss\<rparr>))"

definition tcp_eff_send_mss_netif :: "u16 \<Rightarrow> netif_ref option \<Rightarrow> 'a net_scheme \<Rightarrow> u16" where
  "tcp_eff_send_mss_netif sendmss outif s =
     (case outif of
        None \<Rightarrow> sendmss
      | Some r \<Rightarrow>
          (let m = mtu (netifs s r) in
           if m \<noteq> 0 then
             (let offset = of_nat (IP_HLEN + TCP_HLEN); mss_s = (if m > offset then m - offset else 0)
              in min sendmss mss_s)
           else sendmss))"

definition tcp_eff_send_mss :: "u16 \<Rightarrow> u32 \<Rightarrow> u32 \<Rightarrow> 'a net_scheme \<Rightarrow> u16" where
  "tcp_eff_send_mss sendmss src dest s = tcp_eff_send_mss_netif sendmss (ip4_route dest s) s"

definition tcp_update_rcv_ann_wnd :: "tcp_pcb \<Rightarrow> (u32 \<times> tcp_pcb) option" where
  "tcp_update_rcv_ann_wnd c =
     (let new_right_edge = pcb_rcv_nxt c + ucast (pcb_rcv_wnd c) in
      if TCP_SEQ_GEQ new_right_edge (pcb_rcv_ann_right_edge c + ucast (min (TCP_WND div 2) (pcb_mss c)))
      then Some (new_right_edge - pcb_rcv_ann_right_edge c, c\<lparr>pcb_rcv_ann_wnd := pcb_rcv_wnd c\<rparr>)
      else if TCP_SEQ_GT (pcb_rcv_nxt c) (pcb_rcv_ann_right_edge c) then Some (0, c\<lparr>pcb_rcv_ann_wnd := 0\<rparr>)
      else
        let new_rcv_ann_wnd = pcb_rcv_ann_right_edge c - pcb_rcv_nxt c in
        if new_rcv_ann_wnd \<le> 0xffff then Some (0, c\<lparr>pcb_rcv_ann_wnd := ucast new_rcv_ann_wnd\<rparr>) else None)"

subsection \<open>Binding and listening\<close>

definition TCP_ENSURE_LOCAL_PORT_RANGE :: "u16 \<Rightarrow> u16" where
  "TCP_ENSURE_LOCAL_PORT_RANGE port = (port AND NOT TCP_LOCAL_PORT_RANGE_START) + TCP_LOCAL_PORT_RANGE_START"

text \<open>\<^verbatim>\<open>LWIP_RAND()\<close> is \<^verbatim>\<open>rand()\<close>, whose low bits are the argument.\<close>

definition tcp_init :: "u16 \<Rightarrow> 'a tcpnet_scheme \<Rightarrow> 'a tcpnet_scheme" where
  "tcp_init rand s = s\<lparr>tcp_port := TCP_ENSURE_LOCAL_PORT_RANGE rand\<rparr>"

definition port_used :: "u16 \<Rightarrow> 'a tcpnet_scheme \<Rightarrow> bool option" where
  "port_used port s =
     do {
       u \<leftarrow> listen_search (walk (net_heap s)) (\<lambda>l. lpcb_local_port l = port) (tcp_listen_pcbs s) s;
       if u then Some True
       else pcbs_search (\<lambda>c. pcb_local_port c = port) (tcp_bound_pcbs s @ tcp_active_pcbs s @ tcp_tw_pcbs s) s
     }"

text \<open>The loop \<^verbatim>\<open>again\<close>: \<^verbatim>\<open>n\<close> counts the ports in use, so there are at most \<open>0x4001\<close> passes.\<close>

fun new_port_loop :: "nat \<Rightarrow> u16 \<Rightarrow> 'a tcpnet_scheme \<Rightarrow> (u16 \<times> 'a tcpnet_scheme) option" where
  "new_port_loop 0 n s = None"
| "new_port_loop (Suc fuel) n s =
     do {
       let port = tcp_port s + 1;
       let port = (if port = TCP_LOCAL_PORT_RANGE_END then TCP_LOCAL_PORT_RANGE_START else port);
       let s = s\<lparr>tcp_port := port\<rparr>;
       used \<leftarrow> port_used port s;
       if used then
         let n = n + 1 in
         if n > TCP_LOCAL_PORT_RANGE_END - TCP_LOCAL_PORT_RANGE_START then Some (0, s) else new_port_loop fuel n s
       else Some (port, s)
     }"

definition tcp_new_port :: "'a tcpnet_scheme \<Rightarrow> (u16 \<times> 'a tcpnet_scheme) option" where
  "tcp_new_port s = new_port_loop 0x4001 0 s"

definition addr_in_use :: "u32 \<Rightarrow> u16 \<Rightarrow> u16 \<Rightarrow> u32 \<Rightarrow> bool" where
  "addr_in_use ipaddr port cport cip = (cport = port \<and> (cip = IPADDR_ANY \<or> ipaddr = IPADDR_ANY \<or> cip = ipaddr))"

text \<open>The search of all lists for a control block with the same address and port.\<close>

definition bind_conflict :: "u32 \<Rightarrow> u16 \<Rightarrow> 'a tcpnet_scheme \<Rightarrow> bool option" where
  "bind_conflict ipaddr port s =
     do {
       u \<leftarrow> listen_search (walk (net_heap s)) (\<lambda>l. addr_in_use ipaddr port (lpcb_local_port l) (lpcb_local_ip l)) (tcp_listen_pcbs s) s;
       if u then Some True
       else pcbs_search (\<lambda>c. addr_in_use ipaddr port (pcb_local_port c) (pcb_local_ip c))
              (tcp_bound_pcbs s @ tcp_active_pcbs s @ tcp_tw_pcbs s) s
     }"

definition tcp_bind :: "addr option \<Rightarrow> u32 option \<Rightarrow> u16 \<Rightarrow> 'a tcpnet_scheme \<Rightarrow> (err_t \<times> 'a tcpnet_scheme) option" where
  "tcp_bind pcb ipaddr port s =
     (let ipaddr = addr_or_any ipaddr in
      case pcb of
        None \<Rightarrow> Some (ERR_ARG, s)
      | Some a \<Rightarrow>
          do {
            st \<leftarrow> state_of a s;
            if st \<noteq> CLOSED then Some (ERR_VAL, s)
            else do {
              (res, port, s) \<leftarrow>
                (if port = 0 then do { (port, s) \<leftarrow> tcp_new_port s; Some (if port = 0 then ERR_BUF else ERR_OK, port, s) }
                 else do { u \<leftarrow> bind_conflict ipaddr port s; Some (if u then ERR_USE else ERR_OK, port, s) });
              if res \<noteq> ERR_OK then Some (res, s)
              else do {
                s \<leftarrow> upd_pcb a (\<lambda>c. c\<lparr>pcb_local_ip := (if ipaddr \<noteq> IPADDR_ANY then ipaddr else pcb_local_ip c),
                                       pcb_local_port := port\<rparr>) s;
                s \<leftarrow> TCP_REG Bound_pcbs a s;
                Some (ERR_OK, s)
              }
            }
          })"

definition tcp_bind_netif :: "addr \<Rightarrow> netif_ref option \<Rightarrow> 'a tcpnet_scheme \<Rightarrow> 'a tcpnet_scheme option" where
  "tcp_bind_netif pcb netif s =
     upd_pcb pcb (\<lambda>c. c\<lparr>pcb_netif_idx := (case netif of Some r \<Rightarrow> netif_get_index (netifs s r) | None \<Rightarrow> NETIF_NO_INDEX)\<rparr>) s"

text \<open>\<^verbatim>\<open>backlog\<close> is not used. The result is the new control block and \<^verbatim>\<open>res\<close>.\<close>

definition tcp_listen_with_backlog_and_err ::
  "addr option \<Rightarrow> u8 \<Rightarrow> 'a tcpnet_scheme \<Rightarrow> (addr option \<times> err_t \<times> 'a tcpnet_scheme) option" where
  "tcp_listen_with_backlog_and_err pcb backlog s =
     (case pcb of
        None \<Rightarrow> Some (None, ERR_ARG, s)
      | Some a \<Rightarrow>
          do {
            st \<leftarrow> state_of a s;
            if st \<noteq> CLOSED then Some (None, ERR_CLSD, s)
            else do {
              c \<leftarrow> tcp_mem s a;
              case mem_malloc None (net_heap s) of
                (None, h) \<Rightarrow> Some (None, ERR_MEM, s\<lparr>net_heap := h\<rparr>)
              | (Some l, h) \<Rightarrow>
                  do {
                    let s = s\<lparr>net_heap := h\<rparr>;
                    s \<leftarrow> (if pcb_local_port c \<noteq> 0 then TCP_RMV Bound_pcbs a s else Some s);
                    s \<leftarrow> tcp_free a s;
                    let s = set_lpcb l \<lparr>lpcb_local_ip = pcb_local_ip c, lpcb_netif_idx = NETIF_NO_INDEX,
                                        lpcb_so_options = pcb_so_options c, lpcb_tos = pcb_tos c, lpcb_ttl = pcb_ttl c,
                                        lpcb_next = None, lpcb_callback_arg = pcb_callback_arg c, lpcb_state = LISTEN,
                                        lpcb_prio = pcb_prio c, lpcb_local_port = pcb_local_port c,
                                        lpcb_accept = Some Tcp_accept_null\<rparr> s;
                    s \<leftarrow> TCP_REG Listen_pcbs l s;
                    Some (Some l, ERR_OK, s)
                  }
            }
          })"

definition TCP_DEFAULT_LISTEN_BACKLOG :: u8 where "TCP_DEFAULT_LISTEN_BACKLOG = 0xff"

definition tcp_listen_with_backlog :: "addr option \<Rightarrow> u8 \<Rightarrow> 'a tcpnet_scheme \<Rightarrow> (addr option \<times> 'a tcpnet_scheme) option" where
  "tcp_listen_with_backlog pcb backlog s =
     map_option (\<lambda>(l, err, s). (l, s)) (tcp_listen_with_backlog_and_err pcb backlog s)"

definition tcp_listen :: "addr option \<Rightarrow> 'a tcpnet_scheme \<Rightarrow> (addr option \<times> 'a tcpnet_scheme) option" where
  "tcp_listen pcb s = tcp_listen_with_backlog pcb TCP_DEFAULT_LISTEN_BACKLOG s"

subsection \<open>Members of a control block\<close>

text \<open>A null pointer is ignored; the callbacks for data cannot be set on a listening control block.\<close>

definition tcp_setprio :: "addr option \<Rightarrow> u8 \<Rightarrow> 'a tcpnet_scheme \<Rightarrow> 'a tcpnet_scheme option" where
  "tcp_setprio pcb prio s = (case pcb of None \<Rightarrow> Some s | Some a \<Rightarrow> upd_pcb a (\<lambda>c. c\<lparr>pcb_prio := prio\<rparr>) s)"

definition tcp_arg :: "addr option \<Rightarrow> nat option \<Rightarrow> 'a tcpnet_scheme \<Rightarrow> 'a tcpnet_scheme option" where
  "tcp_arg pcb arg s =
     (case pcb of
        None \<Rightarrow> Some s
      | Some a \<Rightarrow> (case tcp_listen_mem s a of
                     Some l \<Rightarrow> Some (set_lpcb a (l\<lparr>lpcb_callback_arg := arg\<rparr>) s)
                   | None \<Rightarrow> upd_pcb a (\<lambda>c. c\<lparr>pcb_callback_arg := arg\<rparr>) s))"

definition tcp_recv :: "addr option \<Rightarrow> recv_fn option \<Rightarrow> 'a tcpnet_scheme \<Rightarrow> 'a tcpnet_scheme option" where
  "tcp_recv pcb recv s = (case pcb of None \<Rightarrow> Some s | Some a \<Rightarrow> upd_pcb a (\<lambda>c. c\<lparr>pcb_recv := recv\<rparr>) s)"

definition tcp_sent :: "addr option \<Rightarrow> nat option \<Rightarrow> 'a tcpnet_scheme \<Rightarrow> 'a tcpnet_scheme option" where
  "tcp_sent pcb sent s = (case pcb of None \<Rightarrow> Some s | Some a \<Rightarrow> upd_pcb a (\<lambda>c. c\<lparr>pcb_sent := sent\<rparr>) s)"

definition tcp_err :: "addr option \<Rightarrow> nat option \<Rightarrow> 'a tcpnet_scheme \<Rightarrow> 'a tcpnet_scheme option" where
  "tcp_err pcb err s = (case pcb of None \<Rightarrow> Some s | Some a \<Rightarrow> upd_pcb a (\<lambda>c. c\<lparr>pcb_errf := err\<rparr>) s)"

definition tcp_accept :: "addr option \<Rightarrow> accept_fn option \<Rightarrow> 'a tcpnet_scheme \<Rightarrow> 'a tcpnet_scheme option" where
  "tcp_accept pcb accept s =
     (case pcb of
        None \<Rightarrow> Some s
      | Some a \<Rightarrow> (case tcp_listen_mem s a of
                     Some l \<Rightarrow> Some (if lpcb_state l = LISTEN then set_lpcb a (l\<lparr>lpcb_accept := accept\<rparr>) s else s)
                   | None \<Rightarrow> do { c \<leftarrow> tcp_mem s a; Some s }))"

definition tcp_poll :: "addr option \<Rightarrow> nat option \<Rightarrow> u8 \<Rightarrow> 'a tcpnet_scheme \<Rightarrow> 'a tcpnet_scheme option" where
  "tcp_poll pcb poll interval s =
     (case pcb of None \<Rightarrow> Some s | Some a \<Rightarrow> upd_pcb a (\<lambda>c. c\<lparr>pcb_poll := poll, pcb_pollinterval := interval\<rparr>) s)"

text \<open>The address and the port, local or remote.\<close>

definition tcp_tcp_get_tcp_addrinfo :: "addr option \<Rightarrow> bool \<Rightarrow> 'a tcpnet_scheme \<Rightarrow> (err_t \<times> (u32 \<times> u16) option) option" where
  "tcp_tcp_get_tcp_addrinfo pcb local s =
     (case pcb of
        None \<Rightarrow> Some (ERR_VAL, None)
      | Some a \<Rightarrow> do {
          c \<leftarrow> tcp_mem s a;
          Some (ERR_OK, Some (if local then (pcb_local_ip c, pcb_local_port c) else (pcb_remote_ip c, pcb_remote_port c)))
        })"

end
