(* ===== verification/Tcp_Out.thy ===== *)
theory Tcp_Out
  imports Tcp_Base
begin

text \<open>
  Sending: \<^verbatim>\<open>lwip/core/tcp_out.c\<close>. Segments are built in pbufs, queued on \<open>pcb_unsent\<close> by \<open>tcp_write\<close> and
  \<open>tcp_enqueue_flags\<close>, moved to \<open>pcb_unacked\<close> by \<open>tcp_output\<close> and back by the retransmission functions. The data given to
  \<open>tcp_write\<close> are the bytes behind a pointer; without \<^verbatim>\<open>TCP_WRITE_FLAG_COPY\<close> the segment refers to them.
  \<^verbatim>\<open>LWIP_NETIF_TX_SINGLE_PBUF\<close> and \<^verbatim>\<open>TCP_OVERSIZE_DBGCHECK\<close> are off, so are all TCP options but the segment size,
  which makes \<^verbatim>\<open>tcp_output_fill_options\<close> empty. \<^verbatim>\<open>MEM_ALIGNMENT\<close> is 1.
\<close>

subsection \<open>Building segments\<close>

text \<open>What \<^verbatim>\<open>tcp_rst\<close> and \<^verbatim>\<open>tcp_output_control_segment\<close> read of a control block, listening or not: \<^verbatim>\<open>netif_idx\<close>,
  \<^verbatim>\<open>ttl\<close> and \<^verbatim>\<open>tos\<close>.\<close>

type_synonym ip_pcb = "u8 \<times> u8 \<times> u8"

definition ip_pcb_of :: "tcp_pcb \<Rightarrow> ip_pcb" where
  "ip_pcb_of c = (pcb_netif_idx c, pcb_ttl c, pcb_tos c)"

definition ip_pcb_of_listen :: "tcp_pcb_listen \<Rightarrow> ip_pcb" where
  "ip_pcb_of_listen l = (lpcb_netif_idx l, lpcb_ttl l, lpcb_tos l)"

definition tcp_route :: "ip_pcb option \<Rightarrow> u32 \<Rightarrow> u32 \<Rightarrow> 'a net_scheme \<Rightarrow> netif_ref option" where
  "tcp_route pcb src dst s =
     (case pcb of
        Some (idx, ttl, tos) \<Rightarrow> if idx \<noteq> NETIF_NO_INDEX then netif_get_by_index idx s else ip4_route dst s
      | None \<Rightarrow> ip4_route dst s)"

definition tcp_create_segment :: "tcp_pcb \<Rightarrow> addr \<Rightarrow> u8 \<Rightarrow> u32 \<Rightarrow> u8 \<Rightarrow> heap \<Rightarrow> (tcp_seg option \<times> heap) option" where
  "tcp_create_segment c p hdrflags seqno optflags h =
     (let optlen = LWIP_TCP_OPT_LENGTH optflags in
      case mem_malloc None h of
        (None, h) \<Rightarrow> do { (n, h) \<leftarrow> pbuf_free (Some p) h; Some (None, h) }
      | (Some _, h) \<Rightarrow>
          do {
            b \<leftarrow> h_pbuf h p;
            if \<not> p_tot_len b \<ge> ucast optlen then None
            else do {
              let len = p_tot_len b - ucast optlen;
              (r, h) \<leftarrow> pbuf_add_header (Some p) TCP_HLEN h;
              if r \<noteq> 0 then do { (n, h) \<leftarrow> pbuf_free (Some p) h; Some (None, h) }
              else do {
                b \<leftarrow> h_pbuf h p;
                let tcphdr = p_payload b;
                h \<leftarrow> wr16 tcphdr 0 (lwip_htons (pcb_local_port c)) h;
                h \<leftarrow> wr16 tcphdr 2 (lwip_htons (pcb_remote_port c)) h;
                h \<leftarrow> wr32 tcphdr 4 (lwip_htonl seqno) h;
                h \<leftarrow> TCPH_HDRLEN_FLAGS_SET tcphdr (5 + ucast (optlen div 4)) hdrflags h;
                h \<leftarrow> wr16 tcphdr 18 0 h;
                Some (Some \<lparr>seg_p = Some p, seg_len = len, seg_flags = optflags, seg_tcphdr = tcphdr\<rparr>, h)
              }
            }
          })"

definition TCP_WRITE_FLAG_COPY :: u8 where "TCP_WRITE_FLAG_COPY = 0x01"
definition TCP_WRITE_FLAG_MORE :: u8 where "TCP_WRITE_FLAG_MORE = 0x02"

text \<open>The result is the pbuf, if there was memory, and \<^verbatim>\<open>*oversize\<close>, which is left alone otherwise.\<close>

definition tcp_pbuf_prealloc ::
  "pbuf_layer \<Rightarrow> u16 \<Rightarrow> u16 \<Rightarrow> u16 \<Rightarrow> tcp_pcb \<Rightarrow> u8 \<Rightarrow> bool \<Rightarrow> heap \<Rightarrow> (addr option \<times> u16 \<times> heap) option" where
  "tcp_pbuf_prealloc layer len max_length oversize c apiflags first_seg h =
     do {
       let alloc =
         (if len < max_length \<and>
             (apiflags AND TCP_WRITE_FLAG_MORE \<noteq> 0 \<or>
              \<not> tcp_is_flag_set TF_NODELAY c \<and> (\<not> first_seg \<or> pcb_unsent c \<noteq> [] \<or> pcb_unacked c \<noteq> []))
          then of_nat (min (unat max_length) (unat len + TCP_OVERSIZE)) else len);
       (p, h) \<leftarrow> pbuf_alloc layer alloc PBUF_RAM h;
       case p of
         None \<Rightarrow> Some (None, oversize, h)
       | Some a \<Rightarrow>
           do {
             b \<leftarrow> h_pbuf h a;
             if p_next b \<noteq> None then None
             else Some (Some a, p_len b - len, set_pbuf a (b\<lparr>p_len := len, p_tot_len := len\<rparr>) h)
           }
     }"

definition tcp_write_checks :: "tcp_pcb \<Rightarrow> u16 \<Rightarrow> (err_t \<times> tcp_pcb) option" where
  "tcp_write_checks c len =
     (if pcb_state c \<noteq> ESTABLISHED \<and> pcb_state c \<noteq> CLOSE_WAIT \<and> pcb_state c \<noteq> SYN_SENT \<and> pcb_state c \<noteq> SYN_RCVD
      then Some (ERR_CONN, c)
      else if len = 0 then Some (ERR_OK, c)
      else if len > pcb_snd_buf c then Some (ERR_MEM, tcp_set_flags TF_NAGLEMEMERR c)
      else if unat (pcb_snd_queuelen c) \<ge> min TCP_SND_QUEUELEN (TCP_SNDQUEUELEN_OVERFLOW + 1)
      then Some (ERR_MEM, tcp_set_flags TF_NAGLEMEMERR c)
      else if pcb_snd_queuelen c \<noteq> 0
      then if pcb_unacked c \<noteq> [] \<or> pcb_unsent c \<noteq> [] then Some (ERR_OK, c) else None
      else if pcb_unacked c = [] \<and> pcb_unsent c = [] then Some (ERR_OK, c) else None)"

subsection \<open>Queueing data\<close>

text \<open>The variables of \<^verbatim>\<open>tcp_write\<close> after the first phase, which uses the room at the end of the last unsent
  segment. \<open>w_seg_last\<close> says that \<^verbatim>\<open>seg\<close> is that segment.\<close>

record write_vars =
  w_pos :: u16
  w_oversize :: u16
  w_oversize_used :: u16
  w_concat_p :: "addr option"
  w_extendlen :: u16
  w_queuelen :: u16
  w_seg_last :: bool

definition pbuf_tail_of :: "tcp_seg \<Rightarrow> heap \<Rightarrow> addr option" where
  "pbuf_tail_of seg h = do { p \<leftarrow> seg_p seg; pbuf_last (walk h) p h }"

text \<open>Appending to the last unsent segment: \<open>None\<close> for \<^verbatim>\<open>goto memerr\<close>.\<close>

definition write_append ::
  "tcp_pcb \<Rightarrow> tcp_seg \<Rightarrow> ptr option \<Rightarrow> u16 \<Rightarrow> u8 \<Rightarrow> u16 \<Rightarrow> write_vars \<Rightarrow> heap \<Rightarrow> (write_vars option \<times> heap) option" where
  "write_append c last_unsent arg len apiflags space w h =
     (if w_pos w < len \<and> space > 0 \<and> seg_len last_unsent > 0 then
        let seglen = min space (len - w_pos w) in
        if apiflags AND TCP_WRITE_FLAG_COPY \<noteq> 0 then
          do {
            (p, oversize, h) \<leftarrow> tcp_pbuf_prealloc PBUF_RAW seglen space (w_oversize w) c apiflags True h;
            case p of
              None \<Rightarrow> Some (None, h)
            | Some a \<Rightarrow>
                do {
                  b \<leftarrow> h_pbuf h a;
                  bs \<leftarrow> mem_read h arg (unat (w_pos w)) (unat seglen);
                  h \<leftarrow> mem_write h (p_payload b) 0 bs;
                  n \<leftarrow> pbuf_clen (Some a) h;
                  Some (Some (w\<lparr>w_concat_p := Some a, w_oversize := oversize, w_queuelen := w_queuelen w + n,
                                w_pos := w_pos w + seglen, w_seg_last := True\<rparr>), h)
                }
          }
        else
          do {
            t \<leftarrow> pbuf_tail_of last_unsent h;
            b \<leftarrow> h_pbuf h t;
            if p_type b AND 0xC0 = 0 \<and> advance (p_payload b) (int (unat (p_len b))) = arg then
              if w_pos w \<noteq> 0 then None
              else Some (Some (w\<lparr>w_extendlen := seglen, w_pos := w_pos w + seglen, w_seg_last := True\<rparr>), h)
            else
              do {
                (p, h) \<leftarrow> pbuf_alloc PBUF_RAW seglen PBUF_ROM h;
                case p of
                  None \<Rightarrow> Some (None, h)
                | Some a \<Rightarrow>
                    do {
                      b \<leftarrow> h_pbuf h a;
                      let h = set_pbuf a (b\<lparr>p_payload := advance arg (int (unat (w_pos w)))\<rparr>) h;
                      n \<leftarrow> pbuf_clen (Some a) h;
                      Some (Some (w\<lparr>w_concat_p := Some a, w_queuelen := w_queuelen w + n, w_pos := w_pos w + seglen,
                                    w_seg_last := True\<rparr>), h)
                    }
              }
          }
      else Some (Some w, h))"

definition write_tail ::
  "tcp_pcb \<Rightarrow> ptr option \<Rightarrow> u16 \<Rightarrow> u8 \<Rightarrow> u16 \<Rightarrow> heap \<Rightarrow> (write_vars option \<times> heap) option" where
  "write_tail c arg len apiflags mss_local h =
     (let w = \<lparr>w_pos = 0, w_oversize = 0, w_oversize_used = 0, w_concat_p = None, w_extendlen = 0,
               w_queuelen = pcb_snd_queuelen c, w_seg_last = False\<rparr> in
      if pcb_unsent c = [] then if pcb_unsent_oversize c = 0 then Some (Some w, h) else None
      else
        let last_unsent = last (pcb_unsent c);
            unsent_optlen = (ucast (LWIP_TCP_OPT_LENGTH (seg_flags last_unsent)) :: u16)
        in
        if \<not> unat mss_local \<ge> unat (seg_len last_unsent) + unat unsent_optlen then None
        else
          let space = mss_local - (seg_len last_unsent + unsent_optlen);
              oversize = pcb_unsent_oversize c
          in
          if oversize > 0 \<and> \<not> oversize \<le> space then None
          else
            let used = (if oversize > 0 then min space (min oversize len) else 0);
                w = w\<lparr>w_pos := used, w_oversize_used := used, w_oversize := oversize - used, w_seg_last := oversize > 0\<rparr>;
                space = space - used
            in
            if \<not> (w_oversize w = 0 \<or> w_pos w = len) then None
            else write_append c last_unsent arg len apiflags space w h)"

text \<open>The pbuf of one new segment, with its data behind room for the options: \<open>None\<close> for \<^verbatim>\<open>goto memerr\<close>.\<close>

definition write_seg_pbuf ::
  "tcp_pcb \<Rightarrow> ptr option \<Rightarrow> u8 \<Rightarrow> u16 \<Rightarrow> u16 \<Rightarrow> u16 \<Rightarrow> u16 \<Rightarrow> u16 \<Rightarrow> bool \<Rightarrow> heap \<Rightarrow> (addr option \<times> u16 \<times> heap) option" where
  "write_seg_pbuf c arg apiflags pos seglen optlen mss_local oversize first h =
     (if apiflags AND TCP_WRITE_FLAG_COPY \<noteq> 0 then
        do {
          (p, oversize, h) \<leftarrow> tcp_pbuf_prealloc PBUF_TRANSPORT (seglen + optlen) mss_local oversize c apiflags first h;
          case p of
            None \<Rightarrow> Some (None, oversize, h)
          | Some a \<Rightarrow>
              do {
                b \<leftarrow> h_pbuf h a;
                if \<not> p_len b \<ge> seglen then None
                else do {
                  bs \<leftarrow> mem_read h arg (unat pos) (unat seglen);
                  h \<leftarrow> mem_write h (p_payload b) (unat optlen) bs;
                  Some (Some a, oversize, h)
                }
              }
        }
      else if oversize \<noteq> 0 then None
      else do {
        (p2, h) \<leftarrow> pbuf_alloc PBUF_TRANSPORT seglen PBUF_ROM h;
        case p2 of
          None \<Rightarrow> Some (None, oversize, h)
        | Some a2 \<Rightarrow>
            do {
              b2 \<leftarrow> h_pbuf h a2;
              let h = set_pbuf a2 (b2\<lparr>p_payload := advance arg (int (unat pos))\<rparr>) h;
              (p, h) \<leftarrow> pbuf_alloc PBUF_TRANSPORT optlen PBUF_RAM h;
              case p of
                None \<Rightarrow> do { (n, h) \<leftarrow> pbuf_free (Some a2) h; Some (None, oversize, h) }
              | Some a \<Rightarrow> do { h \<leftarrow> pbuf_cat (Some a) (Some a2) h; Some (Some a, oversize, h) }
            }
      })"

text \<open>The loop over new segments: \<open>queue\<close> has those made so far. The first result is \<open>None\<close> for \<^verbatim>\<open>goto memerr\<close>,
  in which case the queue is to be freed. Every pass takes at least one byte, as \<^verbatim>\<open>mss_local\<close> is not zero.\<close>

fun write_loop ::
  "nat \<Rightarrow> tcp_pcb \<Rightarrow> ptr option \<Rightarrow> u16 \<Rightarrow> u8 \<Rightarrow> u16 \<Rightarrow> u16 \<Rightarrow> u16 \<Rightarrow> u16 \<Rightarrow> tcp_seg list \<Rightarrow> heap \<Rightarrow>
     ((u16 \<times> u16) option \<times> tcp_seg list \<times> heap) option" where
  "write_loop 0 c arg len apiflags mss_local pos oversize queuelen queue h = None"
| "write_loop (Suc fuel) c arg len apiflags mss_local pos oversize queuelen queue h =
     (if pos < len then
        do {
          let optlen = ucast (LWIP_TCP_OPT_LENGTH 0);
          let left = len - pos;
          let max_len = mss_local - optlen;
          let seglen = min left max_len;
          (p, oversize, h) \<leftarrow> write_seg_pbuf c arg apiflags pos seglen optlen mss_local oversize (queue = []) h;
          case p of
            None \<Rightarrow> Some (None, queue, h)
          | Some a \<Rightarrow>
              do {
                n \<leftarrow> pbuf_clen (Some a) h;
                let queuelen = queuelen + n;
                if unat queuelen > min TCP_SND_QUEUELEN TCP_SNDQUEUELEN_OVERFLOW
                then do { (k, h) \<leftarrow> pbuf_free (Some a) h; Some (None, queue, h) }
                else do {
                  (seg, h) \<leftarrow> tcp_create_segment c a 0 (pcb_snd_lbb c + ucast pos) 0 h;
                  case seg of
                    None \<Rightarrow> Some (None, queue, h)
                  | Some seg \<Rightarrow>
                      write_loop fuel c arg len apiflags mss_local (pos + seglen) oversize queuelen (queue @ [seg]) h
                }
              }
        }
      else Some (Some (oversize, queuelen), queue, h))"

text \<open>Adding \<open>n\<close> to the \<^verbatim>\<open>tot_len\<close> of all pbufs of a chain and to the \<^verbatim>\<open>len\<close> of the last; \<open>bs\<close> are copied behind it.\<close>

fun grow_chain :: "nat \<Rightarrow> addr \<Rightarrow> u16 \<Rightarrow> bytes \<Rightarrow> heap \<Rightarrow> heap option" where
  "grow_chain 0 p n bs h = None"
| "grow_chain (Suc fuel) p n bs h =
     do {
       b \<leftarrow> h_pbuf h p;
       let b' = b\<lparr>p_tot_len := p_tot_len b + n\<rparr>;
       case p_next b of
         Some q \<Rightarrow> grow_chain fuel q n bs (set_pbuf p b' h)
       | None \<Rightarrow>
           do {
             h \<leftarrow> mem_write h (p_payload b) (unat (p_len b)) bs;
             Some (set_pbuf p (b'\<lparr>p_len := p_len b + n\<rparr>) h)
           }
     }"

text \<open>The changes to the last unsent segment once all memory is there. The result is its new length.\<close>

definition write_commit_last ::
  "tcp_seg \<Rightarrow> ptr option \<Rightarrow> write_vars \<Rightarrow> heap \<Rightarrow> (u16 \<times> heap) option" where
  "write_commit_last last_unsent arg w h =
     do {
       (len, h) \<leftarrow>
         (if w_oversize_used w > 0 then
            do {
              p \<leftarrow> seg_p last_unsent;
              bs \<leftarrow> mem_read h arg 0 (unat (w_oversize_used w));
              h \<leftarrow> grow_chain (walk h) p (w_oversize_used w) bs h;
              Some (seg_len last_unsent + w_oversize_used w, h)
            }
          else Some (seg_len last_unsent, h));
       case w_concat_p w of
         Some q \<Rightarrow>
           do {
             h \<leftarrow> pbuf_cat (seg_p last_unsent) (Some q) h;
             b \<leftarrow> h_pbuf h q;
             Some (len + p_tot_len b, h)
           }
       | None \<Rightarrow>
           if w_extendlen w > 0 then
             do {
               p \<leftarrow> seg_p last_unsent;
               h \<leftarrow> grow_chain (walk h) p (w_extendlen w) [] h;
               Some (len + w_extendlen w, h)
             }
           else Some (len, h)
     }"

text \<open>The label \<^verbatim>\<open>memerr\<close>.\<close>

definition write_memerr ::
  "addr \<Rightarrow> addr option \<Rightarrow> tcp_seg list \<Rightarrow> 'a tcpnet_scheme \<Rightarrow> (err_t \<times> 'a tcpnet_scheme) option" where
  "write_memerr a concat_p queue s =
     do {
       c \<leftarrow> tcp_mem s a;
       h \<leftarrow> (case concat_p of None \<Rightarrow> Some (net_heap s) | Some q \<Rightarrow> map_option snd (pbuf_free (Some q) (net_heap s)));
       h \<leftarrow> tcp_segs_free queue h;
       if pcb_snd_queuelen c \<noteq> 0 \<and> pcb_unacked c = [] \<and> pcb_unsent c = [] then None
       else Some (ERR_MEM, set_pcb a (tcp_set_flags TF_NAGLEMEMERR c) (s\<lparr>net_heap := h\<rparr>))
     }"

definition write_finish ::
  "addr \<Rightarrow> ptr option \<Rightarrow> u16 \<Rightarrow> u8 \<Rightarrow> write_vars \<Rightarrow> u16 \<Rightarrow> u16 \<Rightarrow> tcp_seg list \<Rightarrow> 'a tcpnet_scheme \<Rightarrow> (err_t \<times> 'a tcpnet_scheme) option" where
  "write_finish a arg len apiflags w oversize queuelen queue s =
     do {
       c \<leftarrow> tcp_mem s a;
       (unsent, h) \<leftarrow>
         (if pcb_unsent c = [] then if w_concat_p w = None \<and> w_extendlen w = 0 then Some (queue, net_heap s) else None
          else do {
            let last_unsent = last (pcb_unsent c);
            (n, h) \<leftarrow> write_commit_last last_unsent arg w (net_heap s);
            Some (butlast (pcb_unsent c) @ [last_unsent\<lparr>seg_len := n\<rparr>] @ queue, h)
          });
       let c = c\<lparr>pcb_unsent := unsent, pcb_unsent_oversize := oversize, pcb_snd_lbb := pcb_snd_lbb c + ucast len,
                 pcb_snd_buf := pcb_snd_buf c - len, pcb_snd_queuelen := queuelen\<rparr>;
       if pcb_snd_queuelen c \<noteq> 0 \<and> pcb_unacked c = [] \<and> pcb_unsent c = [] then None
       else do {
         let seg = (if queue \<noteq> [] then Some (last queue) else if w_seg_last w then Some (last unsent) else None);
         h \<leftarrow> (case seg of
                  Some seg \<Rightarrow> if seg_tcphdr seg \<noteq> None \<and> apiflags AND TCP_WRITE_FLAG_MORE = 0
                              then TCPH_SET_FLAG (seg_tcphdr seg) TCP_PSH h else Some h
                | None \<Rightarrow> Some h);
         Some (ERR_OK, set_pcb a c (s\<lparr>net_heap := h\<rparr>))
       }
     }"

definition tcp_write :: "addr option \<Rightarrow> ptr option \<Rightarrow> u16 \<Rightarrow> u8 \<Rightarrow> 'a tcpnet_scheme \<Rightarrow> (err_t \<times> 'a tcpnet_scheme) option" where
  "tcp_write pcb arg len apiflags s =
     (case pcb of
        None \<Rightarrow> Some (ERR_ARG, s)
      | Some a \<Rightarrow>
          do {
            c \<leftarrow> tcp_mem s a;
            let mss_local = min (pcb_mss c) (pcb_snd_wnd_max c div 2);
            let mss_local = (if mss_local \<noteq> 0 then mss_local else pcb_mss c);
            if arg = None then Some (ERR_ARG, s)
            else do {
              (err, c) \<leftarrow> tcp_write_checks c len;
              let s = set_pcb a c s;
              if err \<noteq> ERR_OK then Some (err, s)
              else do {
                (w, h) \<leftarrow> write_tail c arg len apiflags mss_local (net_heap s);
                let s = s\<lparr>net_heap := h\<rparr>;
                case w of
                  None \<Rightarrow> write_memerr a None [] s
                | Some w \<Rightarrow>
                    do {
                      (r, queue, h) \<leftarrow> write_loop (Suc (unat len)) c arg len apiflags mss_local (w_pos w) (w_oversize w)
                                         (w_queuelen w) [] (net_heap s);
                      let s = s\<lparr>net_heap := h\<rparr>;
                      case r of
                        None \<Rightarrow> write_memerr a (w_concat_p w) queue s
                      | Some (oversize, queuelen) \<Rightarrow> write_finish a arg len apiflags w oversize queuelen queue s
                    }
              }
            }
          })"

subsection \<open>Splitting and closing\<close>

definition tcp_split_unsent_seg :: "addr \<Rightarrow> u16 \<Rightarrow> 'a tcpnet_scheme \<Rightarrow> (err_t \<times> 'a tcpnet_scheme) option" where
  "tcp_split_unsent_seg a split s =
     do {
       c \<leftarrow> tcp_mem s a;
       case pcb_unsent c of
         [] \<Rightarrow> Some (ERR_MEM, s)
       | useg # rest \<Rightarrow>
           if split = 0 then None
           else if seg_len useg \<le> split then Some (ERR_OK, s)
           else if \<not> split \<le> pcb_mss c then None
           else do {
             let optflags = seg_flags useg;
             let optlen = (ucast (LWIP_TCP_OPT_LENGTH optflags) :: u16);
             let remainder = seg_len useg - split;
             (p, h) \<leftarrow> pbuf_alloc PBUF_TRANSPORT (remainder + optlen) PBUF_RAM (net_heap s);
             case p of
               None \<Rightarrow> Some (ERR_MEM, s\<lparr>net_heap := h\<rparr>)
             | Some pa \<Rightarrow>
                 do {
                   up \<leftarrow> seg_p useg;
                   ub \<leftarrow> h_pbuf h up;
                   let offset = p_tot_len ub - seg_len useg + split;
                   (n, bs) \<leftarrow> pbuf_copy_partial (Some up) remainder offset h;
                   b \<leftarrow> h_pbuf h pa;
                   h \<leftarrow> mem_write h (p_payload b) (unat optlen) bs;
                   if n \<noteq> remainder then do { (k, h) \<leftarrow> pbuf_free (Some pa) h; Some (ERR_MEM, s\<lparr>net_heap := h\<rparr>) }
                   else do {
                     fl \<leftarrow> TCPH_FLAGS h (seg_tcphdr useg);
                     let split_flags = fl AND NOT (TCP_PSH OR TCP_FIN);
                     let remainder_flags = fl AND (TCP_PSH OR TCP_FIN);
                     seqno \<leftarrow> seg_seqno h useg;
                     (seg, h) \<leftarrow> tcp_create_segment c pa remainder_flags (seqno + ucast split) optflags h;
                     case seg of
                       None \<Rightarrow> do { (k, h) \<leftarrow> pbuf_free (Some pa) h; Some (ERR_MEM, s\<lparr>net_heap := h\<rparr>) }
                     | Some seg \<Rightarrow>
                         do {
                           n0 \<leftarrow> pbuf_clen (Some up) h;
                           ub \<leftarrow> h_pbuf h up;
                           h \<leftarrow> pbuf_realloc (Some up) (p_tot_len ub - remainder) h;
                           h \<leftarrow> TCPH_SET_FLAG (seg_tcphdr useg) split_flags h;
                           n1 \<leftarrow> pbuf_clen (Some up) h;
                           n2 \<leftarrow> pbuf_clen (seg_p seg) h;
                           let c = c\<lparr>pcb_snd_queuelen := pcb_snd_queuelen c - n0 + n1 + n2,
                                     pcb_unsent := useg\<lparr>seg_len := seg_len useg - remainder\<rparr> # seg # rest,
                                     pcb_unsent_oversize := (if rest = [] then 0 else pcb_unsent_oversize c)\<rparr>;
                           Some (ERR_OK, set_pcb a c (s\<lparr>net_heap := h\<rparr>))
                         }
                   }
                 }
           }
     }"

definition tcp_enqueue_flags :: "addr \<Rightarrow> u8 \<Rightarrow> 'a tcpnet_scheme \<Rightarrow> (err_t \<times> 'a tcpnet_scheme) option" where
  "tcp_enqueue_flags a fl s =
     (if fl AND (TCP_SYN OR TCP_FIN) = 0 then None
      else do {
        c \<leftarrow> tcp_mem s a;
        let optflags = (if fl AND TCP_SYN \<noteq> 0 then TF_SEG_OPTS_MSS else 0);
        let optlen = (ucast (LWIP_TCP_OPT_LENGTH optflags) :: u16);
        (p, h) \<leftarrow> pbuf_alloc PBUF_TRANSPORT optlen PBUF_RAM (net_heap s);
        case p of
          None \<Rightarrow> Some (ERR_MEM, set_pcb a (tcp_set_flags TF_NAGLEMEMERR c) (s\<lparr>net_heap := h\<rparr>))
        | Some pa \<Rightarrow>
            do {
              b \<leftarrow> h_pbuf h pa;
              if \<not> p_len b \<ge> optlen then None
              else do {
                (seg, h) \<leftarrow> tcp_create_segment c pa fl (pcb_snd_lbb c) optflags h;
                case seg of
                  None \<Rightarrow> Some (ERR_MEM, set_pcb a (tcp_set_flags TF_NAGLEMEMERR c) (s\<lparr>net_heap := h\<rparr>))
                | Some seg \<Rightarrow>
                    if seg_len seg \<noteq> 0 then None
                    else do {
                      n \<leftarrow> pbuf_clen (seg_p seg) h;
                      let c = c\<lparr>pcb_unsent := pcb_unsent c @ [seg], pcb_unsent_oversize := 0,
                                pcb_snd_lbb := pcb_snd_lbb c + 1, pcb_snd_queuelen := pcb_snd_queuelen c + n\<rparr>;
                      let c = (if fl AND TCP_FIN \<noteq> 0 then tcp_set_flags TF_FIN c else c);
                      Some (ERR_OK, set_pcb a c (s\<lparr>net_heap := h\<rparr>))
                    }
              }
            }
      })"

definition tcp_send_fin :: "addr \<Rightarrow> 'a tcpnet_scheme \<Rightarrow> (err_t \<times> 'a tcpnet_scheme) option" where
  "tcp_send_fin a s =
     do {
       c \<leftarrow> tcp_mem s a;
       if pcb_unsent c \<noteq> [] then
         do {
           let last_unsent = last (pcb_unsent c);
           fl \<leftarrow> TCPH_FLAGS (net_heap s) (seg_tcphdr last_unsent);
           if fl AND (TCP_SYN OR TCP_FIN OR TCP_RST) = 0 then
             do {
               h \<leftarrow> TCPH_SET_FLAG (seg_tcphdr last_unsent) TCP_FIN (net_heap s);
               Some (ERR_OK, set_pcb a (tcp_set_flags TF_FIN c) (s\<lparr>net_heap := h\<rparr>))
             }
           else tcp_enqueue_flags a TCP_FIN s
         }
       else tcp_enqueue_flags a TCP_FIN s
     }"

subsection \<open>Control segments\<close>

definition tcp_output_alloc_header_common ::
  "u32 \<Rightarrow> u16 \<Rightarrow> u16 \<Rightarrow> u32 \<Rightarrow> u16 \<Rightarrow> u16 \<Rightarrow> u8 \<Rightarrow> u16 \<Rightarrow> heap \<Rightarrow> (addr option \<times> heap) option" where
  "tcp_output_alloc_header_common ackno optlen datalen seqno_be src_port dst_port fl wnd h =
     do {
       (p, h) \<leftarrow> pbuf_alloc PBUF_IP (of_nat TCP_HLEN + optlen + datalen) PBUF_RAM h;
       case p of
         None \<Rightarrow> Some (None, h)
       | Some a \<Rightarrow>
           do {
             b \<leftarrow> h_pbuf h a;
             if \<not> unat (p_len b) \<ge> TCP_HLEN + unat optlen then None
             else do {
               let tcphdr = p_payload b;
               h \<leftarrow> wr16 tcphdr 0 (lwip_htons src_port) h;
               h \<leftarrow> wr16 tcphdr 2 (lwip_htons dst_port) h;
               h \<leftarrow> wr32 tcphdr 4 seqno_be h;
               h \<leftarrow> wr32 tcphdr 8 (lwip_htonl ackno) h;
               h \<leftarrow> TCPH_HDRLEN_FLAGS_SET tcphdr (5 + optlen div 4) fl h;
               h \<leftarrow> wr16 tcphdr 14 (lwip_htons wnd) h;
               h \<leftarrow> wr16 tcphdr 16 0 h;
               h \<leftarrow> wr16 tcphdr 18 0 h;
               Some (Some a, h)
             }
           }
     }"

definition tcp_output_alloc_header ::
  "addr \<Rightarrow> u16 \<Rightarrow> u16 \<Rightarrow> u32 \<Rightarrow> 'a tcpnet_scheme \<Rightarrow> (addr option \<times> 'a tcpnet_scheme) option" where
  "tcp_output_alloc_header a optlen datalen seqno_be s =
     do {
       c \<leftarrow> tcp_mem s a;
       (p, h) \<leftarrow> tcp_output_alloc_header_common (pcb_rcv_nxt c) optlen datalen seqno_be (pcb_local_port c) (pcb_remote_port c)
                   TCP_ACK (pcb_rcv_ann_wnd c) (net_heap s);
       let s = s\<lparr>net_heap := h\<rparr>;
       Some (p, if p = None then s
                else set_pcb a (c\<lparr>pcb_rcv_ann_right_edge := pcb_rcv_nxt c + ucast (pcb_rcv_ann_wnd c)\<rparr>) s)
     }"

text \<open>Storing the checksum of the segment in \<open>p\<close>, whose header is at \<open>tcphdr\<close>.\<close>

definition set_tcp_chksum :: "addr \<Rightarrow> ptr option \<Rightarrow> u32 \<Rightarrow> u32 \<Rightarrow> heap \<Rightarrow> heap option" where
  "set_tcp_chksum p tcphdr src dst h =
     do {
       b \<leftarrow> h_pbuf h p;
       bytes \<leftarrow> pbuf_chain_bytes (walk h) (Some p) h;
       wr16 tcphdr 16 (ip_chksum_pseudo lwip_standard_chksum bytes IP_PROTO_TCP (p_tot_len b) src dst) h
     }"

definition tcp_output_control_segment ::
  "ip_pcb option \<Rightarrow> addr \<Rightarrow> u32 \<Rightarrow> u32 \<Rightarrow> 'a tcpnet_scheme \<Rightarrow> (err_t \<times> 'a tcpnet_scheme) option" where
  "tcp_output_control_segment pcb p src dst s =
     do {
       (err, s) \<leftarrow>
         (case tcp_route pcb src dst s of
            None \<Rightarrow> Some (ERR_RTE, s)
          | Some netif \<Rightarrow>
              do {
                b \<leftarrow> h_pbuf (net_heap s) p;
                h \<leftarrow> set_tcp_chksum p (p_payload b) src dst (net_heap s);
                let (ttl, tos) = (case pcb of Some (idx, ttl, tos) \<Rightarrow> (ttl, tos) | None \<Rightarrow> (TCP_TTL, 0));
                ip4_output_if p (Some src) (Some dst) ttl tos IP_PROTO_TCP netif (s\<lparr>net_heap := h\<rparr>)
              });
       (n, h) \<leftarrow> pbuf_free (Some p) (net_heap s);
       Some (err, s\<lparr>net_heap := h\<rparr>)
     }"

definition tcp_rst ::
  "ip_pcb option \<Rightarrow> u32 \<Rightarrow> u32 \<Rightarrow> u32 \<Rightarrow> u32 \<Rightarrow> u16 \<Rightarrow> u16 \<Rightarrow> 'a tcpnet_scheme \<Rightarrow> 'a tcpnet_scheme option" where
  "tcp_rst pcb seqno ackno local_ip remote_ip local_port remote_port s =
     do {
       (p, h) \<leftarrow> tcp_output_alloc_header_common ackno 0 0 (lwip_htonl seqno) local_port remote_port (TCP_RST OR TCP_ACK)
                   (PP_HTONS TCP_WND) (net_heap s);
       let s = s\<lparr>net_heap := h\<rparr>;
       case p of
         None \<Rightarrow> Some s
       | Some a \<Rightarrow> map_option snd (tcp_output_control_segment pcb a local_ip remote_ip s)
     }"

definition tcp_send_empty_ack :: "addr \<Rightarrow> 'a tcpnet_scheme \<Rightarrow> (err_t \<times> 'a tcpnet_scheme) option" where
  "tcp_send_empty_ack a s =
     do {
       c \<leftarrow> tcp_mem s a;
       (p, s) \<leftarrow> tcp_output_alloc_header a 0 0 (lwip_htonl (pcb_snd_nxt c)) s;
       case p of
         None \<Rightarrow> do { s \<leftarrow> upd_pcb a (tcp_set_flags (TF_ACK_DELAY OR TF_ACK_NOW)) s; Some (ERR_BUF, s) }
       | Some pa \<Rightarrow>
           do {
             (err, s) \<leftarrow> tcp_output_control_segment (Some (ip_pcb_of c)) pa (pcb_local_ip c) (pcb_remote_ip c) s;
             s \<leftarrow> upd_pcb a (if err \<noteq> ERR_OK then tcp_set_flags (TF_ACK_DELAY OR TF_ACK_NOW)
                             else tcp_clear_flags (TF_ACK_DELAY OR TF_ACK_NOW)) s;
             Some (err, s)
           }
     }"

definition tcp_keepalive :: "addr \<Rightarrow> 'a tcpnet_scheme \<Rightarrow> (err_t \<times> 'a tcpnet_scheme) option" where
  "tcp_keepalive a s =
     do {
       c \<leftarrow> tcp_mem s a;
       (p, s) \<leftarrow> tcp_output_alloc_header a 0 0 (lwip_htonl (pcb_snd_nxt c - 1)) s;
       case p of
         None \<Rightarrow> Some (ERR_MEM, s)
       | Some pa \<Rightarrow> tcp_output_control_segment (Some (ip_pcb_of c)) pa (pcb_local_ip c) (pcb_remote_ip c) s
     }"

definition tcp_zero_window_probe :: "addr \<Rightarrow> 'a tcpnet_scheme \<Rightarrow> (err_t \<times> 'a tcpnet_scheme) option" where
  "tcp_zero_window_probe a s =
     do {
       c \<leftarrow> tcp_mem s a;
       case pcb_unsent c of
         [] \<Rightarrow> Some (ERR_OK, s)
       | seg # rest \<Rightarrow>
           do {
             let c = (if pcb_persist_probe c < 0xFF then c\<lparr>pcb_persist_probe := pcb_persist_probe c + 1\<rparr> else c);
             let s = set_pcb a c s;
             fl \<leftarrow> TCPH_FLAGS (net_heap s) (seg_tcphdr seg);
             let is_fin = (fl AND TCP_FIN \<noteq> 0 \<and> seg_len seg = 0);
             seqno_be \<leftarrow> rd32 (net_heap s) (seg_tcphdr seg) 4;
             (p, s) \<leftarrow> tcp_output_alloc_header a 0 (if is_fin then 0 else 1) seqno_be s;
             case p of
               None \<Rightarrow> Some (ERR_MEM, s)
             | Some pa \<Rightarrow>
                 do {
                   b \<leftarrow> h_pbuf (net_heap s) pa;
                   h \<leftarrow>
                     (if is_fin then TCPH_FLAGS_SET (p_payload b) (TCP_ACK OR TCP_FIN) (net_heap s)
                      else do {
                        sp \<leftarrow> seg_p seg;
                        sb \<leftarrow> h_pbuf (net_heap s) sp;
                        (n, bs) \<leftarrow> pbuf_copy_partial (Some sp) 1 (p_tot_len sb - seg_len seg) (net_heap s);
                        mem_write (net_heap s) (p_payload b) TCP_HLEN bs
                      });
                   let s = s\<lparr>net_heap := h\<rparr>;
                   seqno \<leftarrow> seg_seqno h seg;
                   let snd_nxt = seqno + 1;
                   s \<leftarrow> upd_pcb a (\<lambda>c. if TCP_SEQ_LT (pcb_snd_nxt c) snd_nxt then c\<lparr>pcb_snd_nxt := snd_nxt\<rparr> else c) s;
                   tcp_output_control_segment (Some (ip_pcb_of c)) pa (pcb_local_ip c) (pcb_remote_ip c) s
                 }
           }
     }"

subsection \<open>Output\<close>

definition tcp_do_output_nagle :: "tcp_pcb \<Rightarrow> bool" where
  "tcp_do_output_nagle c =
     (pcb_unacked c = [] \<or> pcb_flags c AND (TF_NODELAY OR TF_INFR) \<noteq> 0 \<or>
      (case pcb_unsent c of [] \<Rightarrow> False | seg # rest \<Rightarrow> rest \<noteq> [] \<or> seg_len seg \<ge> pcb_mss c) \<or>
      pcb_snd_buf c = 0 \<or> unat (pcb_snd_queuelen c) \<ge> TCP_SND_QUEUELEN)"

definition tcp_output_segment_busy :: "tcp_seg \<Rightarrow> heap \<Rightarrow> bool option" where
  "tcp_output_segment_busy seg h = do { p \<leftarrow> seg_p seg; b \<leftarrow> h_pbuf h p; Some (p_ref b \<noteq> 1) }"

definition tcp_output_segment :: "tcp_seg \<Rightarrow> addr \<Rightarrow> netif_ref \<Rightarrow> 'a tcpnet_scheme \<Rightarrow> (err_t \<times> 'a tcpnet_scheme) option" where
  "tcp_output_segment seg a netif s =
     do {
       busy \<leftarrow> tcp_output_segment_busy seg (net_heap s);
       if busy then Some (ERR_OK, s)
       else do {
         c \<leftarrow> tcp_mem s a;
         let tcphdr = seg_tcphdr seg;
         h \<leftarrow> wr32 tcphdr 8 (lwip_htonl (pcb_rcv_nxt c)) (net_heap s);
         h \<leftarrow> wr16 tcphdr 14 (lwip_htons (pcb_rcv_ann_wnd c)) h;
         let c = c\<lparr>pcb_rcv_ann_right_edge := pcb_rcv_nxt c + ucast (pcb_rcv_ann_wnd c)\<rparr>;
         h \<leftarrow> (if seg_flags seg AND TF_SEG_OPTS_MSS \<noteq> 0
               then wr32 tcphdr TCP_HLEN (TCP_BUILD_MSS_OPTION (tcp_eff_send_mss_netif TCP_MSS (Some netif) s)) h
               else Some h);
         let c = (if sint (pcb_rtime c) < 0 then c\<lparr>pcb_rtime := 0\<rparr> else c);
         seqno \<leftarrow> seg_seqno h seg;
         let c = (if pcb_rttest c = 0 then c\<lparr>pcb_rttest := tcp_ticks s, pcb_rtseq := seqno\<rparr> else c);
         p \<leftarrow> seg_p seg;
         b \<leftarrow> h_pbuf h p;
         (blk, off) \<leftarrow> tcphdr;
         (blk', off') \<leftarrow> p_payload b;
         if blk \<noteq> blk' then None
         else do {
           let len = (of_int (off - off') :: u16);
           let h = set_pbuf p (b\<lparr>p_len := p_len b - len, p_tot_len := p_tot_len b - len, p_payload := tcphdr\<rparr>) h;
           h \<leftarrow> wr16 tcphdr 16 0 h;
           h \<leftarrow> set_tcp_chksum p tcphdr (pcb_local_ip c) (pcb_remote_ip c) h;
           ip4_output_if p (Some (pcb_local_ip c)) (Some (pcb_remote_ip c)) (pcb_ttl c) (pcb_tos c) IP_PROTO_TCP netif
             (set_pcb a c (s\<lparr>net_heap := h\<rparr>))
         }
       }
     }"

text \<open>Putting a segment on a queue that is sorted by sequence number, before the first that is not smaller.\<close>

fun seg_insert :: "heap \<Rightarrow> u32 \<Rightarrow> tcp_seg \<Rightarrow> tcp_seg list \<Rightarrow> tcp_seg list option" where
  "seg_insert h seqno seg [] = Some [seg]"
| "seg_insert h seqno seg (x # xs) =
     do {
       sx \<leftarrow> seg_seqno h x;
       if TCP_SEQ_LT sx seqno then map_option ((#) x) (seg_insert h seqno seg xs) else Some (seg # x # xs)
     }"

text \<open>Where a sent segment goes on the list of unacknowledged ones.\<close>

definition add_unacked :: "heap \<Rightarrow> u32 \<Rightarrow> tcp_seg \<Rightarrow> tcp_seg list \<Rightarrow> tcp_seg list option" where
  "add_unacked h seqno seg unacked =
     (if unacked = [] then Some [seg]
      else do {
        su \<leftarrow> seg_seqno h (last unacked);
        if TCP_SEQ_LT seqno su then seg_insert h seqno seg unacked else Some (unacked @ [seg])
      })"

text \<open>The segment is off the unsent queue: the rest of one pass of the loop.\<close>

definition output_sent :: "addr \<Rightarrow> tcp_seg \<Rightarrow> tcp_seg list \<Rightarrow> 'a tcpnet_scheme \<Rightarrow> 'a tcpnet_scheme option" where
  "output_sent a seg rest s =
     do {
       c \<leftarrow> tcp_mem s a;
       let c = c\<lparr>pcb_unsent := rest\<rparr>;
       let c = (if pcb_state c \<noteq> SYN_SENT then tcp_clear_flags (TF_ACK_DELAY OR TF_ACK_NOW) c else c);
       seqno \<leftarrow> seg_seqno (net_heap s) seg;
       n \<leftarrow> TCP_TCPLEN (net_heap s) seg;
       let snd_nxt = seqno + n;
       let c = (if TCP_SEQ_LT (pcb_snd_nxt c) snd_nxt then c\<lparr>pcb_snd_nxt := snd_nxt\<rparr> else c);
       if n > 0 then
         do {
           u \<leftarrow> add_unacked (net_heap s) seqno seg (pcb_unacked c);
           Some (set_pcb a (c\<lparr>pcb_unacked := u\<rparr>) s)
         }
       else
         do {
           h \<leftarrow> tcp_seg_free seg (net_heap s);
           Some (set_pcb a c (s\<lparr>net_heap := h\<rparr>))
         }
     }"

definition seg_fits :: "heap \<Rightarrow> tcp_pcb \<Rightarrow> u32 \<Rightarrow> tcp_seg \<Rightarrow> bool option" where
  "seg_fits h c wnd seg = do { seqno \<leftarrow> seg_seqno h seg; Some (seqno - pcb_lastack c + ucast (seg_len seg) \<le> wnd) }"

text \<open>The loop over the unsent segments, the first argument being those left. The label \<^verbatim>\<open>output_done\<close> is
  reached with \<open>None\<close>; an error of the segment output is returned at once.\<close>

fun tcp_output_loop ::
  "tcp_seg list \<Rightarrow> addr \<Rightarrow> netif_ref \<Rightarrow> u32 \<Rightarrow> 'a tcpnet_scheme \<Rightarrow> (err_t option \<times> 'a tcpnet_scheme) option" where
  "tcp_output_loop [] a netif wnd s = Some (None, s)"
| "tcp_output_loop (seg # rest) a netif wnd s =
     do {
       c \<leftarrow> tcp_mem s a;
       fits \<leftarrow> seg_fits (net_heap s) c wnd seg;
       if \<not> fits then Some (None, s)
       else do {
         fl \<leftarrow> TCPH_FLAGS (net_heap s) (seg_tcphdr seg);
         if fl AND TCP_RST \<noteq> 0 then None
         else if \<not> tcp_do_output_nagle c \<and> pcb_flags c AND (TF_NAGLEMEMERR OR TF_FIN) = 0 then Some (None, s)
         else do {
           h \<leftarrow> (if pcb_state c \<noteq> SYN_SENT then TCPH_SET_FLAG (seg_tcphdr seg) TCP_ACK (net_heap s) else Some (net_heap s));
           (err, s) \<leftarrow> tcp_output_segment seg a netif (s\<lparr>net_heap := h\<rparr>);
           if err \<noteq> ERR_OK then do { s \<leftarrow> upd_pcb a (tcp_set_flags TF_NAGLEMEMERR) s; Some (Some err, s) }
           else do {
             s \<leftarrow> output_sent a seg rest s;
             tcp_output_loop rest a netif wnd s
           }
         }
       }
     }"

definition output_done :: "addr \<Rightarrow> 'a tcpnet_scheme \<Rightarrow> (err_t \<times> 'a tcpnet_scheme) option" where
  "output_done a s = do { s \<leftarrow> upd_pcb a (tcp_clear_flags TF_NAGLEMEMERR) s; Some (ERR_OK, s) }"

definition ip4_netif_get_local_ip :: "netif_ref \<Rightarrow> 'a net_scheme \<Rightarrow> u32" where
  "ip4_netif_get_local_ip netif s = ip_addr (netifs s netif)"

definition tcp_output :: "addr \<Rightarrow> 'a tcpnet_scheme \<Rightarrow> (err_t \<times> 'a tcpnet_scheme) option" where
  "tcp_output a s =
     do {
       c \<leftarrow> tcp_mem s a;
       if pcb_state c = LISTEN then None
       else if tcp_input_pcb s = Some a then Some (ERR_OK, s)
       else
         let wnd = ucast (min (pcb_snd_wnd c) (pcb_cwnd c)) in
         case pcb_unsent c of
           [] \<Rightarrow> if tcp_is_flag_set TF_ACK_NOW c then tcp_send_empty_ack a s else output_done a s
         | seg # rest \<Rightarrow>
             (case tcp_route (Some (ip_pcb_of c)) (pcb_local_ip c) (pcb_remote_ip c) s of
                None \<Rightarrow> Some (ERR_RTE, s)
              | Some netif \<Rightarrow>
                  do {
                    let c = (if pcb_local_ip c = IPADDR_ANY then c\<lparr>pcb_local_ip := ip4_netif_get_local_ip netif s\<rparr> else c);
                    let s = set_pcb a c s;
                    fits \<leftarrow> seg_fits (net_heap s) c wnd seg;
                    if \<not> fits then
                      do {
                        let c = (if wnd = ucast (pcb_snd_wnd c) \<and> pcb_unacked c = [] \<and> pcb_persist_backoff c = 0
                                 then c\<lparr>pcb_persist_cnt := 0, pcb_persist_backoff := 1, pcb_persist_probe := 0\<rparr> else c);
                        let s = set_pcb a c s;
                        if tcp_is_flag_set TF_ACK_NOW c then tcp_send_empty_ack a s else output_done a s
                      }
                    else do {
                      (err, s) \<leftarrow> tcp_output_loop (seg # rest) a netif wnd (set_pcb a (c\<lparr>pcb_persist_backoff := 0\<rparr>) s);
                      case err of
                        Some err \<Rightarrow> Some (err, s)
                      | None \<Rightarrow>
                          do {
                            s \<leftarrow> upd_pcb a (\<lambda>c. if pcb_unsent c = [] then c\<lparr>pcb_unsent_oversize := 0\<rparr> else c) s;
                            output_done a s
                          }
                    }
                  })
     }"

subsection \<open>Retransmission\<close>

fun segs_busy :: "tcp_seg list \<Rightarrow> heap \<Rightarrow> bool option" where
  "segs_busy [] h = Some False"
| "segs_busy (seg # segs) h = do { busy \<leftarrow> tcp_output_segment_busy seg h; if busy then Some True else segs_busy segs h }"

definition tcp_rexmit_rto_prepare :: "addr \<Rightarrow> 'a tcpnet_scheme \<Rightarrow> (err_t \<times> 'a tcpnet_scheme) option" where
  "tcp_rexmit_rto_prepare a s =
     do {
       c \<leftarrow> tcp_mem s a;
       if pcb_unacked c = [] then Some (ERR_VAL, s)
       else do {
         busy \<leftarrow> segs_busy (pcb_unacked c) (net_heap s);
         if busy then Some (ERR_VAL, s)
         else do {
           let seg = last (pcb_unacked c);
           seqno \<leftarrow> seg_seqno (net_heap s) seg;
           n \<leftarrow> TCP_TCPLEN (net_heap s) seg;
           let c = (tcp_set_flags TF_RTO c)\<lparr>pcb_unsent := pcb_unacked c @ pcb_unsent c, pcb_unacked := [],
                                           pcb_rto_end := seqno + n, pcb_rttest := 0\<rparr>;
           Some (ERR_OK, set_pcb a c s)
         }
       }
     }"

definition tcp_rexmit_rto_commit :: "addr \<Rightarrow> 'a tcpnet_scheme \<Rightarrow> 'a tcpnet_scheme option" where
  "tcp_rexmit_rto_commit a s =
     do {
       s \<leftarrow> upd_pcb a (\<lambda>c. if pcb_nrtx c < 0xFF then c\<lparr>pcb_nrtx := pcb_nrtx c + 1\<rparr> else c) s;
       (err, s) \<leftarrow> tcp_output a s;
       Some s
     }"

definition tcp_rexmit_rto :: "addr \<Rightarrow> 'a tcpnet_scheme \<Rightarrow> 'a tcpnet_scheme option" where
  "tcp_rexmit_rto a s =
     do {
       (err, s) \<leftarrow> tcp_rexmit_rto_prepare a s;
       if err = ERR_OK then tcp_rexmit_rto_commit a s else Some s
     }"

definition tcp_rexmit :: "addr \<Rightarrow> 'a tcpnet_scheme \<Rightarrow> (err_t \<times> 'a tcpnet_scheme) option" where
  "tcp_rexmit a s =
     do {
       c \<leftarrow> tcp_mem s a;
       case pcb_unacked c of
         [] \<Rightarrow> Some (ERR_VAL, s)
       | seg # rest \<Rightarrow>
           do {
             busy \<leftarrow> tcp_output_segment_busy seg (net_heap s);
             if busy then Some (ERR_VAL, s)
             else do {
               seqno \<leftarrow> seg_seqno (net_heap s) seg;
               unsent \<leftarrow> seg_insert (net_heap s) seqno seg (pcb_unsent c);
               let c = c\<lparr>pcb_unacked := rest, pcb_unsent := unsent,
                         pcb_unsent_oversize := (if last unsent = seg then 0 else pcb_unsent_oversize c),
                         pcb_nrtx := (if pcb_nrtx c < 0xFF then pcb_nrtx c + 1 else pcb_nrtx c), pcb_rttest := 0\<rparr>;
               Some (ERR_OK, set_pcb a c s)
             }
           }
     }"

definition tcp_rexmit_fast :: "addr \<Rightarrow> 'a tcpnet_scheme \<Rightarrow> 'a tcpnet_scheme option" where
  "tcp_rexmit_fast a s =
     do {
       c \<leftarrow> tcp_mem s a;
       if pcb_unacked c \<noteq> [] \<and> \<not> tcp_is_flag_set TF_INFR c then
         do {
           (err, s) \<leftarrow> tcp_rexmit a s;
           if err = ERR_OK then
             upd_pcb a (\<lambda>c.
               let ssthresh = min (pcb_cwnd c) (pcb_snd_wnd c) div 2;
                   ssthresh = (if unat ssthresh < 2 * unat (pcb_mss c) then 2 * pcb_mss c else ssthresh)
               in tcp_set_flags TF_INFR (c\<lparr>pcb_ssthresh := ssthresh, pcb_cwnd := ssthresh + 3 * pcb_mss c, pcb_rtime := 0\<rparr>)) s
           else Some s
         }
       else Some s
     }"

end
