(* ===== verification/Tcp.thy ===== *)
theory Tcp
  imports Tcp_Out
begin

text \<open>
  Connections: the rest of \<^verbatim>\<open>lwip/core/tcp.c\<close> (allocation, opening, closing, aborting, the timers) and the TCP timer of
  \<^verbatim>\<open>lwip/core/timeouts.c\<close>. \<open>cb\<close> are the callbacks of the program.
\<close>

subsection \<open>Closing\<close>

definition tcp_pcb_remove :: "pcb_list \<Rightarrow> addr \<Rightarrow> 'a tcpnet_scheme \<Rightarrow> 'a tcpnet_scheme option" where
  "tcp_pcb_remove pcblist pcb s =
     do {
       s \<leftarrow> TCP_RMV pcblist pcb s;
       case tcp_listen_mem s pcb of
         Some l \<Rightarrow> Some (set_lpcb pcb (l\<lparr>lpcb_state := CLOSED, lpcb_local_port := 0\<rparr>) s)
       | None \<Rightarrow>
           do {
             s \<leftarrow> tcp_pcb_purge pcb s;
             c \<leftarrow> tcp_mem s pcb;
             s \<leftarrow> (if pcb_state c \<noteq> TIME_WAIT \<and> pcb_state c \<noteq> LISTEN \<and> tcp_is_flag_set TF_ACK_DELAY c
                   then map_option snd (tcp_output pcb (set_pcb pcb (tcp_ack_now c) s)) else Some s);
             c \<leftarrow> tcp_mem s pcb;
             if pcb_unsent c \<noteq> [] \<or> pcb_unacked c \<noteq> [] \<or> pcb_ooseq c \<noteq> [] then None
             else Some (set_pcb pcb (c\<lparr>pcb_state := CLOSED, pcb_local_port := 0\<rparr>) s)
           }
     }"

definition TCP_PCB_REMOVE_ACTIVE :: "addr \<Rightarrow> 'a tcpnet_scheme \<Rightarrow> 'a tcpnet_scheme option" where
  "TCP_PCB_REMOVE_ACTIVE pcb s = do { s \<leftarrow> tcp_pcb_remove Active_pcbs pcb s; Some (s\<lparr>tcp_active_pcbs_changed := True\<rparr>) }"

definition tcp_trigger_input_pcb_close :: "'a tcpnet_scheme \<Rightarrow> 'a tcpnet_scheme" where
  "tcp_trigger_input_pcb_close s = s\<lparr>tcp_in := (tcp_in s)\<lparr>in_recv_flags := in_recv_flags (tcp_in s) OR TF_CLOSED\<rparr>\<rparr>"

definition tcp_close_shutdown_fin :: "addr \<Rightarrow> 'a tcpnet_scheme \<Rightarrow> (err_t \<times> 'a tcpnet_scheme) option" where
  "tcp_close_shutdown_fin pcb s =
     do {
       c \<leftarrow> tcp_mem s pcb;
       if pcb_state c \<noteq> SYN_RCVD \<and> pcb_state c \<noteq> ESTABLISHED \<and> pcb_state c \<noteq> CLOSE_WAIT then Some (ERR_OK, s)
       else do {
         let next_state = (if pcb_state c = CLOSE_WAIT then LAST_ACK else FIN_WAIT_1);
         (err, s) \<leftarrow> tcp_send_fin pcb s;
         s \<leftarrow> (if err = ERR_OK then upd_pcb pcb (\<lambda>c. c\<lparr>pcb_state := next_state\<rparr>) s else Some s);
         if err = ERR_OK then do { (e, s) \<leftarrow> tcp_output pcb s; Some (err, s) }
         else if err = ERR_MEM then do { s \<leftarrow> upd_pcb pcb (tcp_set_flags TF_CLOSEPEND) s; Some (ERR_OK, s) }
         else Some (err, s)
       }
     }"

definition tcp_close_shutdown :: "addr \<Rightarrow> bool \<Rightarrow> 'a tcpnet_scheme \<Rightarrow> (err_t \<times> 'a tcpnet_scheme) option" where
  "tcp_close_shutdown pcb rst_on_unacked_data s =
     (case tcp_listen_mem s pcb of
        Some l \<Rightarrow>
          if lpcb_state l \<noteq> LISTEN then None
          else do {
            s \<leftarrow> tcp_listen_closed pcb s;
            s \<leftarrow> tcp_pcb_remove Listen_pcbs pcb s;
            s \<leftarrow> tcp_free_listen pcb s;
            Some (ERR_OK, s)
          }
      | None \<Rightarrow>
          do {
            c \<leftarrow> tcp_mem s pcb;
            if rst_on_unacked_data \<and> (pcb_state c = ESTABLISHED \<or> pcb_state c = CLOSE_WAIT) \<and>
               (pcb_refused_data c \<noteq> None \<or> pcb_rcv_wnd c \<noteq> TCP_WND) then
              if \<not> tcp_is_flag_set TF_RXCLOSED c then None
              else do {
                s \<leftarrow> tcp_rst (Some (ip_pcb_of c)) (pcb_snd_nxt c) (pcb_rcv_nxt c) (pcb_local_ip c) (pcb_remote_ip c)
                      (pcb_local_port c) (pcb_remote_port c) s;
                s \<leftarrow> tcp_pcb_purge pcb s;
                s \<leftarrow> TCP_RMV_ACTIVE pcb s;
                s \<leftarrow> (if tcp_input_pcb s = Some pcb then Some (tcp_trigger_input_pcb_close s) else tcp_free pcb s);
                Some (ERR_OK, s)
              }
            else
              (case pcb_state c of
                 CLOSED \<Rightarrow>
                   do {
                     s \<leftarrow> (if pcb_local_port c \<noteq> 0 then TCP_RMV Bound_pcbs pcb s else Some s);
                     s \<leftarrow> tcp_free pcb s;
                     Some (ERR_OK, s)
                   }
               | SYN_SENT \<Rightarrow>
                   do {
                     s \<leftarrow> TCP_PCB_REMOVE_ACTIVE pcb s;
                     s \<leftarrow> tcp_free pcb s;
                     Some (ERR_OK, s)
                   }
               | _ \<Rightarrow> tcp_close_shutdown_fin pcb s)
          })"

definition tcp_close :: "addr option \<Rightarrow> 'a tcpnet_scheme \<Rightarrow> (err_t \<times> 'a tcpnet_scheme) option" where
  "tcp_close pcb s =
     (case pcb of
        None \<Rightarrow> Some (ERR_ARG, s)
      | Some a \<Rightarrow>
          do {
            st \<leftarrow> state_of a s;
            s \<leftarrow> (if st \<noteq> LISTEN then upd_pcb a (tcp_set_flags TF_RXCLOSED) s else Some s);
            tcp_close_shutdown a True s
          })"

definition tcp_shutdown :: "addr option \<Rightarrow> bool \<Rightarrow> bool \<Rightarrow> 'a tcpnet_scheme \<Rightarrow> (err_t \<times> 'a tcpnet_scheme) option" where
  "tcp_shutdown pcb shut_rx shut_tx s =
     (case pcb of
        None \<Rightarrow> Some (ERR_ARG, s)
      | Some a \<Rightarrow>
          do {
            st \<leftarrow> state_of a s;
            if st = LISTEN then Some (ERR_CONN, s)
            else do {
              s \<leftarrow> (if shut_rx then upd_pcb a (tcp_set_flags TF_RXCLOSED) s else Some s);
              if shut_rx \<and> shut_tx then tcp_close_shutdown a True s
              else do {
                c \<leftarrow> tcp_mem s a;
                s \<leftarrow> (case pcb_refused_data c of
                         Some p \<Rightarrow>
                           if shut_rx then
                             do {
                               (n, h) \<leftarrow> pbuf_free (Some p) (net_heap s);
                               Some (set_pcb a (c\<lparr>pcb_refused_data := None\<rparr>) (s\<lparr>net_heap := h\<rparr>))
                             }
                           else Some s
                       | None \<Rightarrow> Some s);
                if shut_tx then
                  if pcb_state c = SYN_RCVD \<or> pcb_state c = ESTABLISHED \<or> pcb_state c = CLOSE_WAIT
                  then tcp_close_shutdown a shut_rx s else Some (ERR_CONN, s)
                else Some (ERR_OK, s)
              }
            }
          })"

subsection \<open>Aborting\<close>

definition TCP_EVENT_ERR :: "'s tcp_cb \<Rightarrow> nat option \<Rightarrow> nat option \<Rightarrow> err_t \<Rightarrow> 's \<Rightarrow> 's option" where
  "TCP_EVENT_ERR cb errf arg err s = (case errf of None \<Rightarrow> Some s | Some f \<Rightarrow> cb_err cb f arg err s)"

definition tcp_abandon ::
  "'a tcpnet_scheme tcp_cb \<Rightarrow> addr option \<Rightarrow> bool \<Rightarrow> 'a tcpnet_scheme \<Rightarrow> 'a tcpnet_scheme option" where
  "tcp_abandon cb p reset s =
     (case p of
        None \<Rightarrow> Some s
      | Some pcb \<Rightarrow>
          do {
            c \<leftarrow> tcp_mem s pcb;
            if pcb_state c = LISTEN then None
            else if pcb_state c = TIME_WAIT then do { s \<leftarrow> tcp_pcb_remove Tw_pcbs pcb s; tcp_free pcb s }
            else do {
              s \<leftarrow> (if pcb_state c = CLOSED
                    then if pcb_local_port c \<noteq> 0 then TCP_RMV Bound_pcbs pcb s else Some s
                    else TCP_PCB_REMOVE_ACTIVE pcb s);
              c' \<leftarrow> tcp_mem s pcb;
              h \<leftarrow> tcp_segs_free (pcb_unacked c') (net_heap s);
              h \<leftarrow> tcp_segs_free (pcb_unsent c') h;
              h \<leftarrow> tcp_segs_free (pcb_ooseq c') h;
              let s = s\<lparr>net_heap := h\<rparr>;
              s \<leftarrow> (if pcb_state c \<noteq> CLOSED \<and> reset
                    then tcp_rst (Some (ip_pcb_of c')) (pcb_snd_nxt c) (pcb_rcv_nxt c) (pcb_local_ip c') (pcb_remote_ip c')
                           (pcb_local_port c) (pcb_remote_port c') s
                    else Some s);
              s \<leftarrow> tcp_free pcb s;
              TCP_EVENT_ERR cb (pcb_errf c) (pcb_callback_arg c) ERR_ABRT s
            }
          })"

definition tcp_abort :: "'a tcpnet_scheme tcp_cb \<Rightarrow> addr option \<Rightarrow> 'a tcpnet_scheme \<Rightarrow> 'a tcpnet_scheme option" where
  "tcp_abort cb pcb s = tcp_abandon cb pcb True s"

definition tcp_accept_null :: "'a tcpnet_scheme tcp_cb \<Rightarrow> addr option \<Rightarrow> 'a tcpnet_scheme \<Rightarrow> (err_t \<times> 'a tcpnet_scheme) option" where
  "tcp_accept_null cb pcb s = (if pcb = None then None else do { s \<leftarrow> tcp_abort cb pcb s; Some (ERR_ABRT, s) })"

subsection \<open>Receiving\<close>

definition tcp_recved :: "addr option \<Rightarrow> u16 \<Rightarrow> 'a tcpnet_scheme \<Rightarrow> 'a tcpnet_scheme option" where
  "tcp_recved pcb len s =
     (case pcb of
        None \<Rightarrow> Some s
      | Some a \<Rightarrow>
          do {
            c \<leftarrow> tcp_mem s a;
            if pcb_state c = LISTEN then None
            else do {
              let rcv_wnd = pcb_rcv_wnd c + len;
              let c = c\<lparr>pcb_rcv_wnd := (if rcv_wnd > TCP_WND \<or> rcv_wnd < pcb_rcv_wnd c then TCP_WND else rcv_wnd)\<rparr>;
              (wnd_inflation, c) \<leftarrow> tcp_update_rcv_ann_wnd c;
              if wnd_inflation \<ge> TCP_WND_UPDATE_THRESHOLD
              then map_option snd (tcp_output a (set_pcb a (tcp_ack_now c) s))
              else Some (set_pcb a c s)
            }
          })"

definition tcp_recv_null :: "addr option \<Rightarrow> addr option \<Rightarrow> err_t \<Rightarrow> 'a tcpnet_scheme \<Rightarrow> (err_t \<times> 'a tcpnet_scheme) option" where
  "tcp_recv_null pcb p err s =
     (case pcb of
        None \<Rightarrow> Some (ERR_ARG, s)
      | Some a \<Rightarrow>
          (case p of
             Some q \<Rightarrow>
               do {
                 b \<leftarrow> h_pbuf (net_heap s) q;
                 s \<leftarrow> tcp_recved pcb (p_tot_len b) s;
                 (n, h) \<leftarrow> pbuf_free (Some q) (net_heap s);
                 Some (ERR_OK, s\<lparr>net_heap := h\<rparr>)
               }
           | None \<Rightarrow> if err = ERR_OK then tcp_close pcb s else Some (ERR_OK, s)))"

definition TCP_EVENT_RECV :: "'a tcpnet_scheme tcp_cb \<Rightarrow> addr \<Rightarrow> addr \<Rightarrow> err_t \<Rightarrow> 'a tcpnet_scheme \<Rightarrow> (err_t \<times> 'a tcpnet_scheme) option" where
  "TCP_EVENT_RECV cb a p err s =
     do {
       c \<leftarrow> tcp_mem s a;
       case pcb_recv c of
         Some (Recv_fn f) \<Rightarrow> cb_recv cb f (pcb_callback_arg c) a (Some p) err s
       | _ \<Rightarrow> tcp_recv_null (Some a) (Some p) err s
     }"

definition TCP_EVENT_CLOSED :: "'a tcpnet_scheme tcp_cb \<Rightarrow> addr \<Rightarrow> 'a tcpnet_scheme \<Rightarrow> (err_t \<times> 'a tcpnet_scheme) option" where
  "TCP_EVENT_CLOSED cb a s =
     do {
       c \<leftarrow> tcp_mem s a;
       case pcb_recv c of
         Some (Recv_fn f) \<Rightarrow> cb_recv cb f (pcb_callback_arg c) a None ERR_OK s
       | Some Tcp_recv_null \<Rightarrow> tcp_recv_null (Some a) None ERR_OK s
       | None \<Rightarrow> Some (ERR_OK, s)
     }"

definition TCP_EVENT_SENT :: "'a tcpnet_scheme tcp_cb \<Rightarrow> addr \<Rightarrow> u16 \<Rightarrow> 'a tcpnet_scheme \<Rightarrow> (err_t \<times> 'a tcpnet_scheme) option" where
  "TCP_EVENT_SENT cb a space s =
     do {
       c \<leftarrow> tcp_mem s a;
       case pcb_sent c of Some f \<Rightarrow> cb_sent cb f (pcb_callback_arg c) a space s | None \<Rightarrow> Some (ERR_OK, s)
     }"

definition TCP_EVENT_CONNECTED :: "'a tcpnet_scheme tcp_cb \<Rightarrow> addr \<Rightarrow> err_t \<Rightarrow> 'a tcpnet_scheme \<Rightarrow> (err_t \<times> 'a tcpnet_scheme) option" where
  "TCP_EVENT_CONNECTED cb a err s =
     do {
       c \<leftarrow> tcp_mem s a;
       case pcb_connected c of Some f \<Rightarrow> cb_connected cb f (pcb_callback_arg c) a err s | None \<Rightarrow> Some (ERR_OK, s)
     }"

definition TCP_EVENT_POLL :: "'a tcpnet_scheme tcp_cb \<Rightarrow> addr \<Rightarrow> 'a tcpnet_scheme \<Rightarrow> (err_t \<times> 'a tcpnet_scheme) option" where
  "TCP_EVENT_POLL cb a s =
     do {
       c \<leftarrow> tcp_mem s a;
       case pcb_poll c of Some f \<Rightarrow> cb_poll cb f (pcb_callback_arg c) a s | None \<Rightarrow> Some (ERR_OK, s)
     }"

definition TCP_EVENT_ACCEPT ::
  "'a tcpnet_scheme tcp_cb \<Rightarrow> tcp_pcb_listen \<Rightarrow> addr option \<Rightarrow> nat option \<Rightarrow> err_t \<Rightarrow> 'a tcpnet_scheme \<Rightarrow> (err_t \<times> 'a tcpnet_scheme) option" where
  "TCP_EVENT_ACCEPT cb l pcb arg err s =
     (case lpcb_accept l of
        Some (Accept_fn f) \<Rightarrow> cb_accept cb f arg pcb err s
      | Some Tcp_accept_null \<Rightarrow> tcp_accept_null cb pcb s
      | None \<Rightarrow> Some (ERR_ARG, s))"

definition tcp_process_refused_data :: "'a tcpnet_scheme tcp_cb \<Rightarrow> addr \<Rightarrow> 'a tcpnet_scheme \<Rightarrow> (err_t \<times> 'a tcpnet_scheme) option" where
  "tcp_process_refused_data cb a s =
     do {
       c \<leftarrow> tcp_mem s a;
       refused_data \<leftarrow> pcb_refused_data c;
       b \<leftarrow> h_pbuf (net_heap s) refused_data;
       let refused_flags = p_flags b;
       (err, s) \<leftarrow> TCP_EVENT_RECV cb a refused_data ERR_OK (set_pcb a (c\<lparr>pcb_refused_data := None\<rparr>) s);
       if err = ERR_OK then
         if refused_flags AND PBUF_FLAG_TCP_FIN \<noteq> 0 then
           do {
             s \<leftarrow> upd_pcb a (\<lambda>c. if pcb_rcv_wnd c \<noteq> TCP_WND then c\<lparr>pcb_rcv_wnd := pcb_rcv_wnd c + 1\<rparr> else c) s;
             (err, s) \<leftarrow> TCP_EVENT_CLOSED cb a s;
             Some (if err = ERR_ABRT then ERR_ABRT else ERR_OK, s)
           }
         else Some (ERR_OK, s)
       else if err = ERR_ABRT then Some (ERR_ABRT, s)
       else do { s \<leftarrow> upd_pcb a (\<lambda>c. c\<lparr>pcb_refused_data := Some refused_data\<rparr>) s; Some (ERR_INPROGRESS, s) }
     }"

subsection \<open>Allocation\<close>

text \<open>The searches of \<^verbatim>\<open>tcp_kill_prio\<close>, \<^verbatim>\<open>tcp_kill_state\<close> and \<^verbatim>\<open>tcp_kill_timewait\<close>: \<open>inactive\<close> is the candidate so far.\<close>

fun kill_prio_search ::
  "addr list \<Rightarrow> u8 \<Rightarrow> u32 \<Rightarrow> addr option \<Rightarrow> 'a tcpnet_scheme \<Rightarrow> addr option option" where
  "kill_prio_search [] mprio inactivity inactive s = Some inactive"
| "kill_prio_search (a # as) mprio inactivity inactive s =
     do {
       c \<leftarrow> tcp_mem s a;
       if pcb_prio c < mprio \<or> pcb_prio c = mprio \<and> tcp_ticks s - pcb_tmr c \<ge> inactivity
       then kill_prio_search as (pcb_prio c) (tcp_ticks s - pcb_tmr c) (Some a) s
       else kill_prio_search as mprio inactivity inactive s
     }"

fun kill_oldest_search :: "(tcp_pcb \<Rightarrow> bool) \<Rightarrow> addr list \<Rightarrow> u32 \<Rightarrow> addr option \<Rightarrow> 'a tcpnet_scheme \<Rightarrow> addr option option" where
  "kill_oldest_search P [] inactivity inactive s = Some inactive"
| "kill_oldest_search P (a # as) inactivity inactive s =
     do {
       c \<leftarrow> tcp_mem s a;
       if P c \<and> tcp_ticks s - pcb_tmr c \<ge> inactivity then kill_oldest_search P as (tcp_ticks s - pcb_tmr c) (Some a) s
       else kill_oldest_search P as inactivity inactive s
     }"

definition tcp_kill_prio :: "'a tcpnet_scheme tcp_cb \<Rightarrow> u8 \<Rightarrow> 'a tcpnet_scheme \<Rightarrow> 'a tcpnet_scheme option" where
  "tcp_kill_prio cb prio s =
     (let mprio = min TCP_PRIO_MAX prio in
      if mprio = 0 then Some s
      else do {
        inactive \<leftarrow> kill_prio_search (tcp_active_pcbs s) (mprio - 1) 0 None s;
        if inactive \<noteq> None then tcp_abort cb inactive s else Some s
      })"

definition tcp_kill_state :: "'a tcpnet_scheme tcp_cb \<Rightarrow> tcp_state \<Rightarrow> 'a tcpnet_scheme \<Rightarrow> 'a tcpnet_scheme option" where
  "tcp_kill_state cb state s =
     (if state \<noteq> CLOSING \<and> state \<noteq> LAST_ACK then None
      else do {
        inactive \<leftarrow> kill_oldest_search (\<lambda>c. pcb_state c = state) (tcp_active_pcbs s) 0 None s;
        if inactive \<noteq> None then tcp_abandon cb inactive False s else Some s
      })"

definition tcp_kill_timewait :: "'a tcpnet_scheme tcp_cb \<Rightarrow> 'a tcpnet_scheme \<Rightarrow> 'a tcpnet_scheme option" where
  "tcp_kill_timewait cb s =
     do {
       inactive \<leftarrow> kill_oldest_search (\<lambda>c. True) (tcp_tw_pcbs s) 0 None s;
       if inactive \<noteq> None then tcp_abort cb inactive s else Some s
     }"

fun closepend_loop :: "addr list \<Rightarrow> 'a tcpnet_scheme \<Rightarrow> 'a tcpnet_scheme option" where
  "closepend_loop [] s = Some s"
| "closepend_loop (a # as) s =
     do {
       c \<leftarrow> tcp_mem s a;
       s \<leftarrow> (if tcp_is_flag_set TF_CLOSEPEND c
             then map_option snd (tcp_close_shutdown_fin a (set_pcb a (tcp_clear_flags TF_CLOSEPEND c) s)) else Some s);
       closepend_loop as s
     }"

definition tcp_handle_closepend :: "'a tcpnet_scheme \<Rightarrow> 'a tcpnet_scheme option" where
  "tcp_handle_closepend s = closepend_loop (tcp_active_pcbs s) s"

definition new_tcp_pcb :: "u8 \<Rightarrow> 'a tcpnet_scheme \<Rightarrow> tcp_pcb" where
  "new_tcp_pcb prio s =
     \<lparr>pcb_local_ip = 0, pcb_remote_ip = 0, pcb_netif_idx = 0, pcb_so_options = 0, pcb_tos = 0, pcb_ttl = TCP_TTL,
      pcb_callback_arg = None, pcb_state = CLOSED, pcb_prio = prio, pcb_local_port = 0, pcb_remote_port = 0, pcb_flags = 0,
      pcb_polltmr = 0, pcb_pollinterval = 0, pcb_last_timer = tcp_timer_ctr s, pcb_tmr = tcp_ticks s,
      pcb_rcv_nxt = 0, pcb_rcv_wnd = TCP_WND, pcb_rcv_ann_wnd = TCP_WND, pcb_rcv_ann_right_edge = 0,
      pcb_rtime = - 1, pcb_mss = INITIAL_MSS, pcb_rttest = 0, pcb_rtseq = 0, pcb_sa = 0, pcb_sv = 6, pcb_rto = 6,
      pcb_nrtx = 0, pcb_dupacks = 0, pcb_lastack = 0, pcb_cwnd = 1, pcb_ssthresh = TCP_SND_BUF, pcb_rto_end = 0,
      pcb_snd_nxt = 0, pcb_snd_wl1 = 0, pcb_snd_wl2 = 0, pcb_snd_lbb = 0, pcb_snd_wnd = 0, pcb_snd_wnd_max = 0,
      pcb_snd_buf = TCP_SND_BUF, pcb_snd_queuelen = 0, pcb_unsent_oversize = 0, pcb_bytes_acked = 0,
      pcb_unsent = [], pcb_unacked = [], pcb_ooseq = [], pcb_refused_data = None, pcb_listener = None,
      pcb_sent = None, pcb_recv = Some Tcp_recv_null, pcb_connected = None, pcb_poll = None, pcb_errf = None,
      pcb_keep_idle = TCP_KEEPIDLE_DEFAULT, pcb_persist_cnt = 0, pcb_persist_backoff = 0, pcb_persist_probe = 0,
      pcb_keep_cnt_sent = 0\<rparr>"

definition pcb_malloc :: "'a tcpnet_scheme \<Rightarrow> addr option \<times> 'a tcpnet_scheme" where
  "pcb_malloc s = (let (p, h) = mem_malloc None (net_heap s) in (p, s\<lparr>net_heap := h\<rparr>))"

text \<open>Trying \<open>next\<close> only if there was no memory before.\<close>

definition or_else ::
  "('a tcpnet_scheme \<Rightarrow> 'a tcpnet_scheme option) \<Rightarrow> addr option \<times> 'a tcpnet_scheme \<Rightarrow> (addr option \<times> 'a tcpnet_scheme) option" where
  "or_else next r = (case r of (Some p, s) \<Rightarrow> Some (Some p, s) | (None, s) \<Rightarrow> map_option pcb_malloc (next s))"

definition tcp_alloc :: "'a tcpnet_scheme tcp_cb \<Rightarrow> u8 \<Rightarrow> 'a tcpnet_scheme \<Rightarrow> (addr option \<times> 'a tcpnet_scheme) option" where
  "tcp_alloc cb prio s =
     do {
       let r = pcb_malloc s;
       r \<leftarrow> or_else (\<lambda>s. do { s \<leftarrow> tcp_handle_closepend s; tcp_kill_timewait cb s }) r;
       r \<leftarrow> or_else (tcp_kill_state cb LAST_ACK) r;
       r \<leftarrow> or_else (tcp_kill_state cb CLOSING) r;
       (p, s) \<leftarrow> or_else (tcp_kill_prio cb prio) r;
       Some (case p of None \<Rightarrow> (None, s) | Some a \<Rightarrow> (Some a, set_pcb a (new_tcp_pcb prio s) s))
     }"

definition tcp_new :: "'a tcpnet_scheme tcp_cb \<Rightarrow> 'a tcpnet_scheme \<Rightarrow> (addr option \<times> 'a tcpnet_scheme) option" where
  "tcp_new cb s = tcp_alloc cb TCP_PRIO_NORMAL s"

definition tcp_new_ip_type :: "'a tcpnet_scheme tcp_cb \<Rightarrow> u8 \<Rightarrow> 'a tcpnet_scheme \<Rightarrow> (addr option \<times> 'a tcpnet_scheme) option" where
  "tcp_new_ip_type cb type s = tcp_alloc cb TCP_PRIO_NORMAL s"

subsection \<open>Opening\<close>

definition tcp_connect ::
  "addr option \<Rightarrow> u32 option \<Rightarrow> u16 \<Rightarrow> nat option \<Rightarrow> 'a tcpnet_scheme \<Rightarrow> (err_t \<times> 'a tcpnet_scheme) option" where
  "tcp_connect pcb ipaddr port connected s =
     (case (pcb, ipaddr) of
        (Some a, Some ip) \<Rightarrow>
          do {
            st \<leftarrow> state_of a s;
            if st \<noteq> CLOSED then Some (ERR_ISCONN, s)
            else do {
              c \<leftarrow> tcp_mem s a;
              let c = c\<lparr>pcb_remote_ip := ip, pcb_remote_port := port\<rparr>;
              let s = set_pcb a c s;
              case tcp_route (Some (ip_pcb_of c)) (pcb_local_ip c) (pcb_remote_ip c) s of
                None \<Rightarrow> Some (ERR_RTE, s)
              | Some netif \<Rightarrow>
                  do {
                    let c = (if pcb_local_ip c = IPADDR_ANY then c\<lparr>pcb_local_ip := ip4_netif_get_local_ip netif s\<rparr> else c);
                    let old_local_port = pcb_local_port c;
                    let s = set_pcb a c s;
                    (port, s) \<leftarrow> (if pcb_local_port c = 0 then tcp_new_port s else Some (pcb_local_port c, s));
                    let c = c\<lparr>pcb_local_port := port\<rparr>;
                    if port = 0 then Some (ERR_BUF, set_pcb a c s)
                    else do {
                      let (iss, s) = tcp_next_iss s;
                      let c = c\<lparr>pcb_rcv_nxt := 0, pcb_snd_nxt := iss, pcb_lastack := iss - 1, pcb_snd_wl2 := iss - 1,
                                pcb_snd_lbb := iss - 1, pcb_rcv_wnd := TCP_WND, pcb_rcv_ann_wnd := TCP_WND,
                                pcb_rcv_ann_right_edge := 0, pcb_snd_wnd := TCP_WND,
                                pcb_mss := tcp_eff_send_mss_netif INITIAL_MSS (Some netif) s, pcb_cwnd := 1,
                                pcb_connected := connected\<rparr>;
                      (ret, s) \<leftarrow> tcp_enqueue_flags a TCP_SYN (set_pcb a c s);
                      if ret = ERR_OK then
                        do {
                          s \<leftarrow> upd_pcb a (\<lambda>c. c\<lparr>pcb_state := SYN_SENT\<rparr>) s;
                          s \<leftarrow> (if old_local_port \<noteq> 0 then TCP_RMV Bound_pcbs a s else Some s);
                          s \<leftarrow> TCP_REG_ACTIVE a s;
                          (e, s) \<leftarrow> tcp_output a s;
                          Some (ret, s)
                        }
                      else Some (ret, s)
                    }
                  }
            }
          }
      | _ \<Rightarrow> Some (ERR_ARG, s))"

subsection \<open>Timers\<close>

text \<open>The persist timer of one control block; the first result says whether it is to be removed.\<close>

definition slow_persist :: "addr \<Rightarrow> tcp_pcb \<Rightarrow> 'a tcpnet_scheme \<Rightarrow> (bool \<times> 'a tcpnet_scheme) option" where
  "slow_persist a c s =
     (if pcb_unacked c \<noteq> [] \<or> pcb_unsent c = [] then None
      else if pcb_persist_probe c \<ge> TCP_MAXRTX then Some (True, s)
      else if unat (pcb_persist_backoff c) > length tcp_persist_backoff then None
      else
        let backoff_cnt = tcp_persist_backoff ! (unat (pcb_persist_backoff c) - 1);
            c = (if pcb_persist_cnt c < backoff_cnt then c\<lparr>pcb_persist_cnt := pcb_persist_cnt c + 1\<rparr> else c);
            s = set_pcb a c s
        in
        if pcb_persist_cnt c \<ge> backoff_cnt then
          do {
            (next_slot, s) \<leftarrow>
              (if pcb_snd_wnd c = 0 then do { (err, s) \<leftarrow> tcp_zero_window_probe a s; Some (err = ERR_OK, s) }
               else do {
                 (err, s) \<leftarrow> tcp_split_unsent_seg a (pcb_snd_wnd c) s;
                 if err = ERR_OK then do { (err, s) \<leftarrow> tcp_output a s; Some (err \<noteq> ERR_OK, s) } else Some (True, s)
               });
            s \<leftarrow> (if next_slot then
                    upd_pcb a (\<lambda>c. c\<lparr>pcb_persist_cnt := 0,
                      pcb_persist_backoff := (if unat (pcb_persist_backoff c) < length tcp_persist_backoff
                                              then pcb_persist_backoff c + 1 else pcb_persist_backoff c)\<rparr>) s
                  else Some s);
            Some (False, s)
          }
        else Some (False, s))"

definition s16_of :: "int \<Rightarrow> s16" where "s16_of i = of_int i"

text \<open>The backed-off time-out, in \<^verbatim>\<open>int\<close>, capped.\<close>

definition backoff_rto :: "tcp_pcb \<Rightarrow> s16" where
  "backoff_rto c =
     (let backoff_idx = min (unat (pcb_nrtx c)) (length tcp_backoff - 1);
          calc_rto = (sint (pcb_sa c) div 8 + sint (pcb_sv c)) * 2 ^ (tcp_backoff ! backoff_idx)
      in s16_of (min calc_rto 0x7FFF))"

definition slow_rexmit :: "addr \<Rightarrow> tcp_pcb \<Rightarrow> 'a tcpnet_scheme \<Rightarrow> 'a tcpnet_scheme option" where
  "slow_rexmit a c s =
     (let c = (if sint (pcb_rtime c) \<ge> 0 \<and> sint (pcb_rtime c) < 0x7FFF then c\<lparr>pcb_rtime := pcb_rtime c + 1\<rparr> else c);
          s = set_pcb a c s
      in
      if sint (pcb_rtime c) \<ge> sint (pcb_rto c) then
        do {
          (err, s) \<leftarrow> tcp_rexmit_rto_prepare a s;
          c \<leftarrow> tcp_mem s a;
          if err = ERR_OK \<or> pcb_unacked c = [] \<and> pcb_unsent c \<noteq> [] then
            do {
              let c = (if pcb_state c \<noteq> SYN_SENT then c\<lparr>pcb_rto := backoff_rto c\<rparr> else c);
              let ssthresh = drop_bit 1 (min (pcb_cwnd c) (pcb_snd_wnd c));
              let c = c\<lparr>pcb_rtime := 0, pcb_ssthresh := (if ssthresh < push_bit 1 (pcb_mss c) then push_bit 1 (pcb_mss c) else ssthresh),
                        pcb_cwnd := pcb_mss c, pcb_bytes_acked := 0\<rparr>;
              tcp_rexmit_rto_commit a (set_pcb a c s)
            }
          else Some s
        }
      else Some s)"

text \<open>The time-outs after the retransmission: \<^verbatim>\<open>pcb_remove\<close> and \<^verbatim>\<open>pcb_reset\<close>.\<close>

definition slow_keepalive :: "addr \<Rightarrow> 'a tcpnet_scheme \<Rightarrow> (bool \<times> 'a tcpnet_scheme) option" where
  "slow_keepalive a s =
     do {
       c \<leftarrow> tcp_mem s a;
       let idle = tcp_ticks s - pcb_tmr c;
       if pcb_so_options c AND SOF_KEEPALIVE \<noteq> 0 \<and> (pcb_state c = ESTABLISHED \<or> pcb_state c = CLOSE_WAIT) then
         if idle > (pcb_keep_idle c + TCP_MAXIDLE) div TCP_SLOW_INTERVAL then Some (True, s)
         else if idle > (pcb_keep_idle c + ucast (pcb_keep_cnt_sent c) * TCP_KEEPINTVL_DEFAULT) div TCP_SLOW_INTERVAL then
           do {
             (err, s) \<leftarrow> tcp_keepalive a s;
             s \<leftarrow> (if err = ERR_OK then upd_pcb a (\<lambda>c. c\<lparr>pcb_keep_cnt_sent := pcb_keep_cnt_sent c + 1\<rparr>) s else Some s);
             Some (False, s)
           }
         else Some (False, s)
       else Some (False, s)
     }"

definition slow_timeouts :: "addr \<Rightarrow> 'a tcpnet_scheme \<Rightarrow> ((bool \<times> bool) \<times> 'a tcpnet_scheme) option" where
  "slow_timeouts a s =
     do {
       c \<leftarrow> tcp_mem s a;
       let fin_wait = (pcb_state c = FIN_WAIT_2 \<and> tcp_is_flag_set TF_RXCLOSED c \<and>
                       tcp_ticks s - pcb_tmr c > TCP_FIN_WAIT_TIMEOUT div TCP_SLOW_INTERVAL);
       (keep, s) \<leftarrow> slow_keepalive a s;
       c \<leftarrow> tcp_mem s a;
       let idle = tcp_ticks s - pcb_tmr c;
       s \<leftarrow> (if pcb_ooseq c \<noteq> [] \<and> idle \<ge> ucast (scast (pcb_rto c) :: u32) * TCP_OOSEQ_TIMEOUT then tcp_free_ooseq a s else Some s);
       let syn_rcvd = (pcb_state c = SYN_RCVD \<and> idle > TCP_SYN_RCVD_TIMEOUT div TCP_SLOW_INTERVAL);
       let last_ack = (pcb_state c = LAST_ACK \<and> idle > 2 * TCP_MSL div TCP_SLOW_INTERVAL);
       Some ((fin_wait \<or> keep \<or> syn_rcvd \<or> last_ack, keep), s)
     }"

definition slow_pcb :: "addr \<Rightarrow> 'a tcpnet_scheme \<Rightarrow> ((bool \<times> bool) \<times> 'a tcpnet_scheme) option" where
  "slow_pcb a s =
     do {
       c \<leftarrow> tcp_mem s a;
       (remove, s) \<leftarrow>
         (if pcb_state c = SYN_SENT \<and> pcb_nrtx c \<ge> TCP_SYNMAXRTX then Some (True, s)
          else if pcb_nrtx c \<ge> TCP_MAXRTX then Some (True, s)
          else if pcb_persist_backoff c > 0 then slow_persist a c s
          else map_option (Pair False) (slow_rexmit a c s));
       ((remove', reset), s) \<leftarrow> slow_timeouts a s;
       Some ((remove \<or> remove', reset), s)
     }"

text \<open>The loop over the active control blocks from one on; the first result says whether a callback changed the
  list, so that the loop starts again. In \<open>slow_restart\<close> \<open>fuel\<close> counts the passes: each but the last marks a control
  block that was not marked, and new ones are created marked.\<close>

fun slow_active :: "'a tcpnet_scheme tcp_cb \<Rightarrow> addr list \<Rightarrow> 'a tcpnet_scheme \<Rightarrow> (bool \<times> 'a tcpnet_scheme) option" where
  "slow_active cb [] s = Some (False, s)"
| "slow_active cb (a # as) s =
     do {
       c \<leftarrow> tcp_mem s a;
       if pcb_state c = CLOSED \<or> pcb_state c = LISTEN \<or> pcb_state c = TIME_WAIT then None
       else if pcb_last_timer c = tcp_timer_ctr s then slow_active cb as s
       else do {
         ((remove, reset), s) \<leftarrow> slow_pcb a (set_pcb a (c\<lparr>pcb_last_timer := tcp_timer_ctr s\<rparr>) s);
         if remove then
           do {
             c \<leftarrow> tcp_mem s a;
             let errf = pcb_errf c;
             s \<leftarrow> tcp_pcb_purge a s;
             let s = s\<lparr>tcp_active_pcbs := remove1 a (tcp_active_pcbs s)\<rparr>;
             c \<leftarrow> tcp_mem s a;
             s \<leftarrow> (if reset then tcp_rst (Some (ip_pcb_of c)) (pcb_snd_nxt c) (pcb_rcv_nxt c) (pcb_local_ip c) (pcb_remote_ip c)
                                    (pcb_local_port c) (pcb_remote_port c) s
                   else Some s);
             s \<leftarrow> tcp_free a s;
             s \<leftarrow> TCP_EVENT_ERR cb errf (pcb_callback_arg c) ERR_ABRT (s\<lparr>tcp_active_pcbs_changed := False\<rparr>);
             if tcp_active_pcbs_changed s then Some (True, s) else slow_active cb as s
           }
         else
           do {
             c \<leftarrow> tcp_mem s a;
             let c = c\<lparr>pcb_polltmr := pcb_polltmr c + 1\<rparr>;
             if pcb_polltmr c \<ge> pcb_pollinterval c then
               do {
                 (err, s) \<leftarrow> TCP_EVENT_POLL cb a (set_pcb a (c\<lparr>pcb_polltmr := 0\<rparr>) (s\<lparr>tcp_active_pcbs_changed := False\<rparr>));
                 if tcp_active_pcbs_changed s then Some (True, s)
                 else do {
                   s \<leftarrow> (if err = ERR_OK then map_option snd (tcp_output a s) else Some s);
                   slow_active cb as s
                 }
               }
             else slow_active cb as (set_pcb a c s)
           }
       }
     }"

fun slow_restart :: "'a tcpnet_scheme tcp_cb \<Rightarrow> nat \<Rightarrow> 'a tcpnet_scheme \<Rightarrow> 'a tcpnet_scheme option" where
  "slow_restart cb 0 s = None"
| "slow_restart cb (Suc fuel) s =
     do {
       (again, s) \<leftarrow> slow_active cb (tcp_active_pcbs s) s;
       if again then slow_restart cb fuel s else Some s
     }"

fun slow_timewait :: "addr list \<Rightarrow> 'a tcpnet_scheme \<Rightarrow> 'a tcpnet_scheme option" where
  "slow_timewait [] s = Some s"
| "slow_timewait (a # as) s =
     do {
       c \<leftarrow> tcp_mem s a;
       if pcb_state c \<noteq> TIME_WAIT then None
       else if tcp_ticks s - pcb_tmr c > 2 * TCP_MSL div TCP_SLOW_INTERVAL then
         do {
           s \<leftarrow> tcp_pcb_purge a s;
           s \<leftarrow> tcp_free a (s\<lparr>tcp_tw_pcbs := remove1 a (tcp_tw_pcbs s)\<rparr>);
           slow_timewait as s
         }
       else slow_timewait as s
     }"

definition tcp_slowtmr :: "'a tcpnet_scheme tcp_cb \<Rightarrow> 'a tcpnet_scheme \<Rightarrow> 'a tcpnet_scheme option" where
  "tcp_slowtmr cb s =
     do {
       let s = s\<lparr>tcp_ticks := tcp_ticks s + 1, tcp_timer_ctr := tcp_timer_ctr s + 1\<rparr>;
       s \<leftarrow> slow_restart cb (walk (net_heap s)) s;
       slow_timewait (tcp_tw_pcbs s) s
     }"

text \<open>One control block of the fast timer: the delayed acknowledgement, the pending FIN, the refused data. The
  first result is as in \<open>slow_active\<close>.\<close>

definition fast_pcb :: "'a tcpnet_scheme tcp_cb \<Rightarrow> addr \<Rightarrow> 'a tcpnet_scheme \<Rightarrow> (bool \<times> 'a tcpnet_scheme) option" where
  "fast_pcb cb a s =
     do {
       c \<leftarrow> tcp_mem s a;
       s \<leftarrow> (if tcp_is_flag_set TF_ACK_DELAY c then
               do {
                 (err, s) \<leftarrow> tcp_output a (set_pcb a (tcp_ack_now c) s);
                 upd_pcb a (tcp_clear_flags (TF_ACK_DELAY OR TF_ACK_NOW)) s
               }
             else Some s);
       c \<leftarrow> tcp_mem s a;
       s \<leftarrow> (if tcp_is_flag_set TF_CLOSEPEND c
             then map_option snd (tcp_close_shutdown_fin a (set_pcb a (tcp_clear_flags TF_CLOSEPEND c) s)) else Some s);
       c \<leftarrow> tcp_mem s a;
       if pcb_refused_data c \<noteq> None then
         do {
           (err, s) \<leftarrow> tcp_process_refused_data cb a (s\<lparr>tcp_active_pcbs_changed := False\<rparr>);
           Some (tcp_active_pcbs_changed s, s)
         }
       else Some (False, s)
     }"

fun fast_active :: "'a tcpnet_scheme tcp_cb \<Rightarrow> addr list \<Rightarrow> 'a tcpnet_scheme \<Rightarrow> (bool \<times> 'a tcpnet_scheme) option" where
  "fast_active cb [] s = Some (False, s)"
| "fast_active cb (a # as) s =
     do {
       c \<leftarrow> tcp_mem s a;
       if pcb_last_timer c = tcp_timer_ctr s then fast_active cb as s
       else do {
         (again, s) \<leftarrow> fast_pcb cb a (set_pcb a (c\<lparr>pcb_last_timer := tcp_timer_ctr s\<rparr>) s);
         if again then Some (True, s) else fast_active cb as s
       }
     }"

fun fast_restart :: "'a tcpnet_scheme tcp_cb \<Rightarrow> nat \<Rightarrow> 'a tcpnet_scheme \<Rightarrow> 'a tcpnet_scheme option" where
  "fast_restart cb 0 s = None"
| "fast_restart cb (Suc fuel) s =
     do {
       (again, s) \<leftarrow> fast_active cb (tcp_active_pcbs s) s;
       if again then fast_restart cb fuel s else Some s
     }"

definition tcp_fasttmr :: "'a tcpnet_scheme tcp_cb \<Rightarrow> 'a tcpnet_scheme \<Rightarrow> 'a tcpnet_scheme option" where
  "tcp_fasttmr cb s =
     (let s = s\<lparr>tcp_timer_ctr := tcp_timer_ctr s + 1\<rparr> in fast_restart cb (walk (net_heap s)) s)"

definition tcp_tmr :: "'a tcpnet_scheme tcp_cb \<Rightarrow> 'a tcpnet_scheme \<Rightarrow> 'a tcpnet_scheme option" where
  "tcp_tmr cb s =
     do {
       s \<leftarrow> tcp_fasttmr cb s;
       let s = s\<lparr>tcp_timer := tcp_timer s + 1\<rparr>;
       if tcp_timer s AND 1 \<noteq> 0 then tcp_slowtmr cb s else Some s
     }"

fun txnow_loop :: "addr list \<Rightarrow> 'a tcpnet_scheme \<Rightarrow> 'a tcpnet_scheme option" where
  "txnow_loop [] s = Some s"
| "txnow_loop (a # as) s =
     do {
       c \<leftarrow> tcp_mem s a;
       s \<leftarrow> (if tcp_is_flag_set TF_NAGLEMEMERR c then map_option snd (tcp_output a s) else Some s);
       txnow_loop as s
     }"

definition tcp_txnow :: "'a tcpnet_scheme \<Rightarrow> 'a tcpnet_scheme option" where
  "tcp_txnow s = txnow_loop (tcp_active_pcbs s) s"

text \<open>The TCP timer of \<^verbatim>\<open>timeouts.c\<close> and what \<^verbatim>\<open>sys_check_timeouts\<close> runs.\<close>

definition tcpip_tcp_timer :: "'a tcpnet_scheme tcp_cb \<Rightarrow> 'a tcpnet_scheme \<Rightarrow> 'a tcpnet_scheme option" where
  "tcpip_tcp_timer cb s =
     do {
       s \<leftarrow> tcp_tmr cb s;
       if tcp_active_pcbs s \<noteq> [] \<or> tcp_tw_pcbs s \<noteq> []
       then sys_timeout TCP_TMR_INTERVAL (Some TCPIP_TCP_TIMER) None s
       else Some (s\<lparr>tcpip_tcp_timer_active := False\<rparr>)
     }"

definition run_timeout :: "'a tcpnet_scheme tcp_cb \<Rightarrow> nat \<Rightarrow> nat option \<Rightarrow> 'a tcpnet_scheme \<Rightarrow> 'a tcpnet_scheme option" where
  "run_timeout cb f arg s = (if f = TCPIP_TCP_TIMER then tcpip_tcp_timer cb s else None)"

subsection \<open>Address changes\<close>

fun addr_changed_pcblist :: "'a tcpnet_scheme tcp_cb \<Rightarrow> u32 \<Rightarrow> addr list \<Rightarrow> 'a tcpnet_scheme \<Rightarrow> 'a tcpnet_scheme option" where
  "addr_changed_pcblist cb old_addr [] s = Some s"
| "addr_changed_pcblist cb old_addr (a # as) s =
     do {
       c \<leftarrow> tcp_mem s a;
       s \<leftarrow> (if pcb_local_ip c = old_addr then tcp_abort cb (Some a) s else Some s);
       addr_changed_pcblist cb old_addr as s
     }"

fun listen_addr_changed :: "nat \<Rightarrow> u32 \<Rightarrow> u32 \<Rightarrow> addr option \<Rightarrow> 'a tcpnet_scheme \<Rightarrow> 'a tcpnet_scheme option" where
  "listen_addr_changed 0 old_addr new_addr p s = None"
| "listen_addr_changed (Suc fuel) old_addr new_addr None s = Some s"
| "listen_addr_changed (Suc fuel) old_addr new_addr (Some a) s =
     do {
       l \<leftarrow> tcp_listen_mem s a;
       listen_addr_changed fuel old_addr new_addr (lpcb_next l)
         (if lpcb_local_ip l = old_addr then set_lpcb a (l\<lparr>lpcb_local_ip := new_addr\<rparr>) s else s)
     }"

text \<open>A null pointer counts as any address.\<close>

definition tcp_netif_ip_addr_changed ::
  "'a tcpnet_scheme tcp_cb \<Rightarrow> u32 option \<Rightarrow> u32 option \<Rightarrow> 'a tcpnet_scheme \<Rightarrow> 'a tcpnet_scheme option" where
  "tcp_netif_ip_addr_changed cb old_addr new_addr s =
     (let old = addr_or_any old_addr; new = addr_or_any new_addr in
      if old \<noteq> IPADDR_ANY then
        do {
          s \<leftarrow> addr_changed_pcblist cb old (tcp_active_pcbs s) s;
          s \<leftarrow> addr_changed_pcblist cb old (tcp_bound_pcbs s) s;
          if new \<noteq> IPADDR_ANY then listen_addr_changed (walk (net_heap s)) old new (tcp_listen_pcbs s) s else Some s
        }
      else Some s)"

end
