(* ===== verification/Tcp_In.thy ===== *)
theory Tcp_In
  imports Tcp
begin

text \<open>
  Receiving: \<^verbatim>\<open>lwip/core/tcp_in.c\<close>. The variables the file shares between its functions are the record \<open>tcp_in\<close> of the
  state. In the header of a received segment the ports, the sequence and acknowledgement numbers and the window are
  in host byte order once \<open>tcp_input\<close> has converted them; so are those of the segments on \<open>pcb_ooseq\<close>. A long function
  is cut into the steps its comments name. \<^verbatim>\<open>CHECKSUM_CHECK_TCP\<close> is off, \<^verbatim>\<open>TCP_OOSEQ_BYTES_LIMIT\<close>,
  \<^verbatim>\<open>TCP_OOSEQ_PBUFS_LIMIT\<close> and \<^verbatim>\<open>LWIP_HOOK_TCP_INPACKET_PCB\<close> are not defined.
\<close>

definition upd_in :: "(tcp_in \<Rightarrow> tcp_in) \<Rightarrow> 'a tcpnet_scheme \<Rightarrow> 'a tcpnet_scheme" where
  "upd_in f s = s\<lparr>tcp_in := f (tcp_in s)\<rparr>"

definition LWIP_TCP_CALC_INITIAL_CWND :: "u16 \<Rightarrow> u16" where
  "LWIP_TCP_CALC_INITIAL_CWND mss = of_nat (min (4 * unat mss) (max (2 * unat mss) 4380))"

text \<open>The sequence number in the header of a received segment.\<close>

definition seg_hseqno :: "heap \<Rightarrow> tcp_seg \<Rightarrow> u32 option" where
  "seg_hseqno h seg = rd32 h (seg_tcphdr seg) 4"

definition seg_tcpflags :: "heap \<Rightarrow> tcp_seg \<Rightarrow> u8 option" where
  "seg_tcpflags h seg = TCPH_FLAGS h (seg_tcphdr seg)"

subsection \<open>Options\<close>

definition LWIP_TCP_OPT_EOL :: u8 where "LWIP_TCP_OPT_EOL = 0"
definition LWIP_TCP_OPT_NOP :: u8 where "LWIP_TCP_OPT_NOP = 1"
definition LWIP_TCP_OPT_MSS :: u8 where "LWIP_TCP_OPT_MSS = 2"
definition LWIP_TCP_OPT_LEN_MSS :: u8 where "LWIP_TCP_OPT_LEN_MSS = 4"

definition tcp_get_next_optbyte :: "heap \<Rightarrow> tcp_in \<Rightarrow> (u8 \<times> tcp_in) option" where
  "tcp_get_next_optbyte h t =
     do {
       let optidx = in_optidx t;
       x \<leftarrow> (if in_opt2 t = None \<or> optidx < in_opt1len t then rd8 h (in_tcphdr t) (TCP_HLEN + unat optidx)
             else rd8 h (in_opt2 t) (unat (ucast (optidx - in_opt1len t) :: u8)));
       Some (x, t\<lparr>in_optidx := optidx + 1\<rparr>)
     }"

text \<open>The loop over the options. Every pass advances \<^verbatim>\<open>tcp_optidx\<close>, which does not wrap around before it
  exceeds an option length of at most 40 bytes; \<open>fuel\<close> is that length and one more for the test that ends the loop.\<close>

fun parseopt_loop :: "nat \<Rightarrow> heap \<Rightarrow> tcp_in \<Rightarrow> tcp_pcb \<Rightarrow> (tcp_in \<times> tcp_pcb) option" where
  "parseopt_loop 0 h t c = None"
| "parseopt_loop (Suc fuel) h t c =
     (if \<not> in_optidx t < in_optlen t then Some (t, c)
      else do {
        (opt, t) \<leftarrow> tcp_get_next_optbyte h t;
        if opt = LWIP_TCP_OPT_EOL then Some (t, c)
        else if opt = LWIP_TCP_OPT_NOP then parseopt_loop fuel h t c
        else if opt = LWIP_TCP_OPT_MSS then
          do {
            (len, t) \<leftarrow> tcp_get_next_optbyte h t;
            if len \<noteq> LWIP_TCP_OPT_LEN_MSS \<or> int (unat (in_optidx t)) - 2 + 4 > int (unat (in_optlen t)) then Some (t, c)
            else do {
              (hi, t) \<leftarrow> tcp_get_next_optbyte h t;
              (lo, t) \<leftarrow> tcp_get_next_optbyte h t;
              let mss = push_bit 8 (ucast hi :: u16) OR ucast lo;
              parseopt_loop fuel h t (c\<lparr>pcb_mss := (if mss > TCP_MSS \<or> mss = 0 then TCP_MSS else mss)\<rparr>)
            }
          }
        else
          do {
            (len, t) \<leftarrow> tcp_get_next_optbyte h t;
            if len < 2 then Some (t, c)
            else parseopt_loop fuel h (t\<lparr>in_optidx := in_optidx t + (ucast len - 2)\<rparr>) c
          }
      })"

definition tcp_parseopt :: "addr \<Rightarrow> 'a tcpnet_scheme \<Rightarrow> 'a tcpnet_scheme option" where
  "tcp_parseopt a s =
     do {
       c \<leftarrow> tcp_mem s a;
       let t = tcp_in s;
       if in_optlen t \<noteq> 0 then
         do {
           (t, c) \<leftarrow> parseopt_loop (Suc (unat (in_optlen t))) (net_heap s) (t\<lparr>in_optidx := 0\<rparr>) c;
           Some (set_pcb a c (s\<lparr>tcp_in := t\<rparr>))
         }
       else Some s
     }"

subsection \<open>Acknowledgements\<close>

fun tcp_free_acked_segments ::
  "u32 \<Rightarrow> tcp_seg list \<Rightarrow> u16 \<Rightarrow> tcp_pcb \<Rightarrow> heap \<Rightarrow> (tcp_seg list \<times> u16 \<times> tcp_pcb \<times> heap) option" where
  "tcp_free_acked_segments ackno [] recv_acked c h = Some ([], recv_acked, c, h)"
| "tcp_free_acked_segments ackno (seg # segs) recv_acked c h =
     do {
       seqno \<leftarrow> seg_seqno h seg;
       len \<leftarrow> TCP_TCPLEN h seg;
       if TCP_SEQ_LEQ (seqno + len) ackno then
         do {
           clen \<leftarrow> pbuf_clen (seg_p seg) h;
           if \<not> pcb_snd_queuelen c \<ge> clen then None
           else do {
             h \<leftarrow> tcp_seg_free seg h;
             tcp_free_acked_segments ackno segs (recv_acked + seg_len seg) (c\<lparr>pcb_snd_queuelen := pcb_snd_queuelen c - clen\<rparr>) h
           }
         }
       else Some (seg # segs, recv_acked, c, h)
     }"

text \<open>The window update; \<open>wnd\<close> is the window of the segment.\<close>

definition receive_snd_wnd :: "tcp_in \<Rightarrow> u16 \<Rightarrow> tcp_pcb \<Rightarrow> tcp_pcb" where
  "receive_snd_wnd t wnd c =
     (if TCP_SEQ_LT (pcb_snd_wl1 c) (in_seqno t) \<or>
         pcb_snd_wl1 c = in_seqno t \<and> TCP_SEQ_LT (pcb_snd_wl2 c) (in_ackno t) \<or>
         pcb_snd_wl2 c = in_ackno t \<and> wnd > pcb_snd_wnd c
      then c\<lparr>pcb_snd_wnd := wnd, pcb_snd_wnd_max := max (pcb_snd_wnd_max c) wnd,
             pcb_snd_wl1 := in_seqno t, pcb_snd_wl2 := in_ackno t\<rparr>
      else c)"

text \<open>An acknowledgement of nothing new: the five clauses for a duplicate.\<close>

definition receive_dupack :: "addr \<Rightarrow> u32 \<Rightarrow> 'a tcpnet_scheme \<Rightarrow> 'a tcpnet_scheme option" where
  "receive_dupack a right_wnd_edge s =
     do {
       c \<leftarrow> tcp_mem s a;
       let t = tcp_in s;
       if in_tcplen t = 0 \<and> pcb_snd_wl2 c + ucast (pcb_snd_wnd c) = right_wnd_edge \<and> sint (pcb_rtime c) \<ge> 0 \<and>
          pcb_lastack c = in_ackno t then
         do {
           let c = (if pcb_dupacks c + 1 > pcb_dupacks c then c\<lparr>pcb_dupacks := pcb_dupacks c + 1\<rparr> else c);
           let c = (if pcb_dupacks c > 3 then c\<lparr>pcb_cwnd := TCP_WND_INC (pcb_cwnd c) (pcb_mss c)\<rparr> else c);
           if pcb_dupacks c \<ge> 3 then tcp_rexmit_fast a (set_pcb a c s) else Some (set_pcb a c s)
         }
       else Some (set_pcb a (c\<lparr>pcb_dupacks := 0\<rparr>) s)
     }"

definition rto_of :: "tcp_pcb \<Rightarrow> s16" where
  "rto_of c = s16_of (sint (pcb_sa c) div 8 + sint (pcb_sv c))"

definition receive_cwnd :: "u16 \<Rightarrow> tcp_pcb \<Rightarrow> tcp_pcb" where
  "receive_cwnd acked c =
     (if state_code (pcb_state c) \<ge> state_code ESTABLISHED then
        if pcb_cwnd c < pcb_ssthresh c then
          let num_seg = (if tcp_is_flag_set TF_RTO c then 1 else 2)
          in c\<lparr>pcb_cwnd := TCP_WND_INC (pcb_cwnd c) (min acked (num_seg * pcb_mss c))\<rparr>
        else
          let c = c\<lparr>pcb_bytes_acked := TCP_WND_INC (pcb_bytes_acked c) acked\<rparr> in
          if pcb_bytes_acked c \<ge> pcb_cwnd c
          then c\<lparr>pcb_bytes_acked := pcb_bytes_acked c - pcb_cwnd c, pcb_cwnd := TCP_WND_INC (pcb_cwnd c) (pcb_mss c)\<rparr>
          else c
      else c)"

text \<open>Whether the retransmission of what was in flight is over.\<close>

definition rto_done :: "heap \<Rightarrow> tcp_pcb \<Rightarrow> bool option" where
  "rto_done h c =
     (case pcb_unacked c @ pcb_unsent c of
        [] \<Rightarrow> Some True
      | seg # segs \<Rightarrow> do { seqno \<leftarrow> seg_seqno h seg; Some (TCP_SEQ_LEQ (pcb_rto_end c) seqno) })"

definition receive_new_ack :: "addr \<Rightarrow> 'a tcpnet_scheme \<Rightarrow> 'a tcpnet_scheme option" where
  "receive_new_ack a s =
     do {
       c \<leftarrow> tcp_mem s a;
       let ackno = in_ackno (tcp_in s);
       let c = (if tcp_is_flag_set TF_INFR c
                then (tcp_clear_flags TF_INFR c)\<lparr>pcb_cwnd := pcb_ssthresh c, pcb_bytes_acked := 0\<rparr> else c);
       let acked = ucast (ackno - pcb_lastack c);
       let c = receive_cwnd acked (c\<lparr>pcb_nrtx := 0, pcb_rto := rto_of c, pcb_dupacks := 0, pcb_lastack := ackno\<rparr>);
       (unacked, recv_acked, c, h) \<leftarrow>
         tcp_free_acked_segments ackno (pcb_unacked c) (in_recv_acked (tcp_in s)) c (net_heap s);
       let c = c\<lparr>pcb_unacked := unacked\<rparr>;
       (unsent, recv_acked, c, h) \<leftarrow> tcp_free_acked_segments ackno (pcb_unsent c) recv_acked c h;
       let c = c\<lparr>pcb_unsent := unsent, pcb_rtime := (if pcb_unacked c = [] then - 1 else 0), pcb_polltmr := 0,
                 pcb_unsent_oversize := (if unsent = [] then 0 else pcb_unsent_oversize c),
                 pcb_snd_buf := pcb_snd_buf c + recv_acked\<rparr>;
       c \<leftarrow> (if tcp_is_flag_set TF_RTO c
             then do { d \<leftarrow> rto_done h c; Some (if d then tcp_clear_flags TF_RTO c else c) } else Some c);
       Some (set_pcb a c (upd_in (\<lambda>t. t\<lparr>in_recv_acked := recv_acked\<rparr>) (s\<lparr>net_heap := h\<rparr>)))
     }"

definition receive_rtt :: "u32 \<Rightarrow> u32 \<Rightarrow> tcp_pcb \<Rightarrow> tcp_pcb" where
  "receive_rtt ticks ackno c =
     (if pcb_rttest c \<noteq> 0 \<and> TCP_SEQ_LT (pcb_rtseq c) ackno then
        let m = (ucast (ticks - pcb_rttest c) :: s16);
            m = m - s16_of (sint (pcb_sa c) div 8);
            c = c\<lparr>pcb_sa := pcb_sa c + m\<rparr>;
            m = (if sint m < 0 then - m else m);
            m = m - s16_of (sint (pcb_sv c) div 4);
            c = c\<lparr>pcb_sv := pcb_sv c + m\<rparr>
        in c\<lparr>pcb_rto := rto_of c, pcb_rttest := 0\<rparr>
      else c)"

definition receive_ack :: "addr \<Rightarrow> 'a tcpnet_scheme \<Rightarrow> 'a tcpnet_scheme option" where
  "receive_ack a s =
     do {
       c \<leftarrow> tcp_mem s a;
       let t = tcp_in s;
       let right_wnd_edge = ucast (pcb_snd_wnd c) + pcb_snd_wl2 c;
       wnd \<leftarrow> rd16 (net_heap s) (in_tcphdr t) 14;
       let c = receive_snd_wnd t wnd c;
       let s = set_pcb a c s;
       s \<leftarrow> (if TCP_SEQ_LEQ (in_ackno t) (pcb_lastack c) then receive_dupack a right_wnd_edge s
             else if TCP_SEQ_BETWEEN (in_ackno t) (pcb_lastack c + 1) (pcb_snd_nxt c) then receive_new_ack a s
             else map_option snd (tcp_send_empty_ack a s));
       upd_pcb a (receive_rtt (tcp_ticks s) (in_ackno t)) s
     }"

subsection \<open>Data in sequence\<close>

text \<open>Dropping the first \<open>off\<close> bytes of a chain.\<close>

fun trim_front_loop :: "nat \<Rightarrow> addr \<Rightarrow> u16 \<Rightarrow> u16 \<Rightarrow> heap \<Rightarrow> (addr \<times> u16 \<times> heap) option" where
  "trim_front_loop 0 p off new_tot_len h = None"
| "trim_front_loop (Suc fuel) p off new_tot_len h =
     do {
       b \<leftarrow> h_pbuf h p;
       if p_len b < off then
         do {
           q \<leftarrow> p_next b;
           trim_front_loop fuel q (off - p_len b) new_tot_len (set_pbuf p (b\<lparr>p_tot_len := new_tot_len, p_len := 0\<rparr>) h)
         }
       else Some (p, off, h)
     }"

definition receive_trim_front :: "addr \<Rightarrow> 'a tcpnet_scheme \<Rightarrow> 'a tcpnet_scheme option" where
  "receive_trim_front a s =
     do {
       c \<leftarrow> tcp_mem s a;
       let t = tcp_in s;
       if TCP_SEQ_BETWEEN (pcb_rcv_nxt c) (in_seqno t + 1) (in_seqno t + ucast (in_tcplen t) - 1) then
         do {
           p \<leftarrow> seg_p (in_inseg t);
           b \<leftarrow> h_pbuf (net_heap s) p;
           let off32 = pcb_rcv_nxt c - in_seqno t;
           let off = ucast off32;
           if \<not> off32 < 0xffff \<or> \<not> p_tot_len b \<ge> off then None
           else do {
             (q, off', h) \<leftarrow> trim_front_loop (walk (net_heap s)) p off (p_tot_len b - off) (net_heap s);
             (r, h) \<leftarrow> pbuf_remove_header (Some q) (unat off') h;
             h \<leftarrow> wr32 (seg_tcphdr (in_inseg t)) 4 (pcb_rcv_nxt c) h;
             Some (upd_in (\<lambda>t. t\<lparr>in_seqno := pcb_rcv_nxt c, in_inseg := (in_inseg t)\<lparr>seg_len := seg_len (in_inseg t) - off\<rparr>\<rparr>)
                    (s\<lparr>net_heap := h\<rparr>))
           }
         }
       else if TCP_SEQ_LT (in_seqno t) (pcb_rcv_nxt c) then Some (set_pcb a (tcp_ack_now c) s)
       else Some s
     }"

text \<open>Shortening the incoming segment to \<open>len\<close> units of sequence space; the result is checked by an assertion.\<close>

definition inseg_shorten :: "u16 \<Rightarrow> u32 \<Rightarrow> 'a tcpnet_scheme \<Rightarrow> 'a tcpnet_scheme option" where
  "inseg_shorten len right_edge s =
     do {
       let t = tcp_in s;
       fl \<leftarrow> seg_tcpflags (net_heap s) (in_inseg t);
       let seg = (in_inseg t)\<lparr>seg_len := (if fl AND TCP_SYN \<noteq> 0 then len - 1 else len)\<rparr>;
       h \<leftarrow> pbuf_realloc (seg_p seg) (seg_len seg) (net_heap s);
       n \<leftarrow> TCP_TCPLEN h seg;
       let tcplen = ucast n;
       if in_seqno t + ucast tcplen \<noteq> right_edge then None
       else Some (upd_in (\<lambda>t. t\<lparr>in_inseg := seg, in_tcplen := tcplen\<rparr>) (s\<lparr>net_heap := h\<rparr>))
     }"

definition receive_fit_window :: "addr \<Rightarrow> 'a tcpnet_scheme \<Rightarrow> 'a tcpnet_scheme option" where
  "receive_fit_window a s =
     do {
       c \<leftarrow> tcp_mem s a;
       let seg = in_inseg (tcp_in s);
       n \<leftarrow> TCP_TCPLEN (net_heap s) seg;
       let tcplen = (ucast n :: u16);
       let s = upd_in (\<lambda>t. t\<lparr>in_tcplen := tcplen\<rparr>) s;
       if tcplen > pcb_rcv_wnd c then
         do {
           fl \<leftarrow> seg_tcpflags (net_heap s) seg;
           h \<leftarrow> (if fl AND TCP_FIN \<noteq> 0 then TCPH_FLAGS_SET (seg_tcphdr seg) (fl AND NOT TCP_FIN) (net_heap s)
                 else Some (net_heap s));
           inseg_shorten (pcb_rcv_wnd c) (pcb_rcv_nxt c + ucast (pcb_rcv_wnd c)) (s\<lparr>net_heap := h\<rparr>)
         }
       else Some s
     }"

text \<open>Removing what the incoming segment covers of the queue of segments out of sequence; a FIN among it moves to the
  incoming segment.\<close>

fun ooseq_covered :: "tcp_seg \<Rightarrow> u32 \<Rightarrow> tcp_seg list \<Rightarrow> u16 \<Rightarrow> heap \<Rightarrow> (tcp_seg list \<times> u16 \<times> heap) option" where
  "ooseq_covered inseg seqno [] tcplen h = Some ([], tcplen, h)"
| "ooseq_covered inseg seqno (nxt # segs) tcplen h =
     do {
       nseqno \<leftarrow> seg_hseqno h nxt;
       if TCP_SEQ_GEQ (seqno + ucast tcplen) (nseqno + ucast (seg_len nxt)) then
         do {
           nfl \<leftarrow> seg_tcpflags h nxt;
           fl \<leftarrow> seg_tcpflags h inseg;
           (tcplen, h) \<leftarrow>
             (if nfl AND TCP_FIN \<noteq> 0 \<and> fl AND TCP_SYN = 0 then
                do { h \<leftarrow> TCPH_SET_FLAG (seg_tcphdr inseg) TCP_FIN h; n \<leftarrow> TCP_TCPLEN h inseg; Some (ucast n, h) }
              else Some (tcplen, h));
           h \<leftarrow> tcp_seg_free nxt h;
           ooseq_covered inseg seqno segs tcplen h
         }
       else Some (nxt # segs, tcplen, h)
     }"

definition receive_fit_ooseq :: "addr \<Rightarrow> 'a tcpnet_scheme \<Rightarrow> 'a tcpnet_scheme option" where
  "receive_fit_ooseq a s =
     do {
       c \<leftarrow> tcp_mem s a;
       if pcb_ooseq c = [] then Some s
       else do {
         let t = tcp_in s;
         fl \<leftarrow> seg_tcpflags (net_heap s) (in_inseg t);
         if fl AND TCP_FIN \<noteq> 0 then
           do {
             h \<leftarrow> tcp_segs_free (pcb_ooseq c) (net_heap s);
             Some (set_pcb a (c\<lparr>pcb_ooseq := []\<rparr>) (s\<lparr>net_heap := h\<rparr>))
           }
         else do {
           (nxt, tcplen, h) \<leftarrow> ooseq_covered (in_inseg t) (in_seqno t) (pcb_ooseq c) (in_tcplen t) (net_heap s);
           let s = set_pcb a (c\<lparr>pcb_ooseq := nxt\<rparr>) (upd_in (\<lambda>t. t\<lparr>in_tcplen := tcplen\<rparr>) (s\<lparr>net_heap := h\<rparr>));
           case nxt of
             [] \<Rightarrow> Some s
           | n # ns \<Rightarrow>
               do {
                 nseqno \<leftarrow> seg_hseqno h n;
                 if TCP_SEQ_GT (in_seqno t + ucast tcplen) nseqno
                 then inseg_shorten (ucast (nseqno - in_seqno t)) nseqno s else Some s
               }
         }
       }
     }"

text \<open>Advancing \<^verbatim>\<open>rcv_nxt\<close> by \<open>len\<close>.\<close>

definition receive_advance :: "u32 \<Rightarrow> tcp_pcb \<Rightarrow> tcp_pcb option" where
  "receive_advance len c =
     (if \<not> ucast (pcb_rcv_wnd c) \<ge> len then None
      else map_option snd (tcp_update_rcv_ann_wnd (c\<lparr>pcb_rcv_nxt := pcb_rcv_nxt c + len, pcb_rcv_wnd := pcb_rcv_wnd c - ucast len\<rparr>)))"

text \<open>The segments of the queue that are in sequence now.\<close>

fun ooseq_drain :: "tcp_seg list \<Rightarrow> addr \<Rightarrow> 'a tcpnet_scheme \<Rightarrow> 'a tcpnet_scheme option" where
  "ooseq_drain [] a s = Some s"
| "ooseq_drain (cseg # segs) a s =
     do {
       c \<leftarrow> tcp_mem s a;
       let h = net_heap s;
       seqno \<leftarrow> seg_hseqno h cseg;
       if seqno = pcb_rcv_nxt c then
         do {
           len \<leftarrow> TCP_TCPLEN h cseg;
           c \<leftarrow> receive_advance len c;
           p \<leftarrow> seg_p cseg;
           b \<leftarrow> h_pbuf h p;
           let recv_data = in_recv_data (tcp_in s);
           h \<leftarrow> (if p_tot_len b > 0 then pbuf_cat recv_data (Some p) h else Some h);
           let s = upd_in (\<lambda>t. t\<lparr>in_seqno := seqno, in_recv_data := (if p_tot_len b > 0 \<and> recv_data = None then Some p else recv_data)\<rparr>) s;
           let cseg = (if p_tot_len b > 0 then cseg\<lparr>seg_p := None\<rparr> else cseg);
           fl \<leftarrow> seg_tcpflags h cseg;
           let s = (if fl AND TCP_FIN \<noteq> 0 then upd_in (\<lambda>t. t\<lparr>in_recv_flags := in_recv_flags t OR TF_GOT_FIN\<rparr>) s else s);
           let c = (if fl AND TCP_FIN \<noteq> 0 \<and> pcb_state c = ESTABLISHED then c\<lparr>pcb_state := CLOSE_WAIT\<rparr> else c);
           h \<leftarrow> tcp_seg_free cseg h;
           ooseq_drain segs a (set_pcb a (c\<lparr>pcb_ooseq := segs\<rparr>) (s\<lparr>net_heap := h\<rparr>))
         }
       else Some s
     }"

definition receive_inseq :: "addr \<Rightarrow> 'a tcpnet_scheme \<Rightarrow> 'a tcpnet_scheme option" where
  "receive_inseq a s =
     do {
       s \<leftarrow> receive_fit_window a s;
       s \<leftarrow> receive_fit_ooseq a s;
       c \<leftarrow> tcp_mem s a;
       let t = tcp_in s;
       c \<leftarrow> receive_advance (ucast (in_tcplen t)) (c\<lparr>pcb_rcv_nxt := in_seqno t\<rparr>);
       p \<leftarrow> seg_p (in_inseg t);
       b \<leftarrow> h_pbuf (net_heap s) p;
       let t = (if p_tot_len b > 0 then t\<lparr>in_recv_data := Some p, in_inseg := (in_inseg t)\<lparr>seg_p := None\<rparr>\<rparr> else t);
       fl \<leftarrow> seg_tcpflags (net_heap s) (in_inseg t);
       let t = (if fl AND TCP_FIN \<noteq> 0 then t\<lparr>in_recv_flags := in_recv_flags t OR TF_GOT_FIN\<rparr> else t);
       s \<leftarrow> ooseq_drain (pcb_ooseq c) a (set_pcb a c (s\<lparr>tcp_in := t\<rparr>));
       upd_pcb a tcp_ack s
     }"

subsection \<open>Data out of sequence\<close>

text \<open>Deleting the segments of the queue \<open>nxt\<close> that \<open>cseg\<close> covers.\<close>

fun oos_delete :: "u32 \<Rightarrow> tcp_seg \<Rightarrow> tcp_seg list \<Rightarrow> heap \<Rightarrow> (tcp_seg list \<times> heap) option" where
  "oos_delete seqno cseg [] h = Some ([], h)"
| "oos_delete seqno cseg (nxt # segs) h =
     do {
       nseqno \<leftarrow> seg_hseqno h nxt;
       if TCP_SEQ_GEQ (seqno + ucast (seg_len cseg)) (nseqno + ucast (seg_len nxt)) then
         do {
           fl \<leftarrow> seg_tcpflags h nxt;
           h \<leftarrow> (if fl AND TCP_FIN \<noteq> 0 then TCPH_SET_FLAG (seg_tcphdr cseg) TCP_FIN h else Some h);
           h \<leftarrow> tcp_seg_free nxt h;
           oos_delete seqno cseg segs h
         }
       else Some (nxt # segs, h)
     }"

text \<open>Shortening a segment of the queue to \<open>len\<close> bytes.\<close>

definition seg_shorten :: "u16 \<Rightarrow> tcp_seg \<Rightarrow> heap \<Rightarrow> (tcp_seg \<times> heap) option" where
  "seg_shorten len seg h = do { h \<leftarrow> pbuf_realloc (seg_p seg) len h; Some (seg\<lparr>seg_len := len\<rparr>, h) }"

text \<open>The result is \<open>cseg\<close> with the segments after it.\<close>

definition tcp_oos_insert_segment :: "u32 \<Rightarrow> tcp_seg \<Rightarrow> tcp_seg list \<Rightarrow> heap \<Rightarrow> (tcp_seg list \<times> heap) option" where
  "tcp_oos_insert_segment seqno cseg nxt h =
     do {
       fl \<leftarrow> seg_tcpflags h cseg;
       if fl AND TCP_FIN \<noteq> 0 then do { h \<leftarrow> tcp_segs_free nxt h; Some ([cseg], h) }
       else do {
         (nxt, h) \<leftarrow> oos_delete seqno cseg nxt h;
         case nxt of
           [] \<Rightarrow> Some ([cseg], h)
         | n # ns \<Rightarrow>
             do {
               nseqno \<leftarrow> seg_hseqno h n;
               (cseg, h) \<leftarrow> (if TCP_SEQ_GT (seqno + ucast (seg_len cseg)) nseqno
                             then seg_shorten (ucast (nseqno - seqno)) cseg h else Some (cseg, h));
               Some (cseg # nxt, h)
             }
       }
     }"

text \<open>Shortening the segment before \<open>seqno\<close> if it reaches beyond it.\<close>

definition oos_trim_prev :: "u32 \<Rightarrow> tcp_seg \<Rightarrow> heap \<Rightarrow> (tcp_seg \<times> heap) option" where
  "oos_trim_prev seqno prev h =
     do {
       pseqno \<leftarrow> seg_hseqno h prev;
       if TCP_SEQ_GT (pseqno + ucast (seg_len prev)) seqno then seg_shorten (ucast (seqno - pseqno)) prev h else Some (prev, h)
     }"

text \<open>Appending to the last segment \<open>nxt\<close>; the appended segment is cut at the right edge of the window. The results are
  \<open>nxt\<close>, what follows it, and \<^verbatim>\<open>tcplen\<close>.\<close>

definition oos_append ::
  "tcp_in \<Rightarrow> u32 \<Rightarrow> tcp_seg \<Rightarrow> heap \<Rightarrow> (tcp_seg list \<times> u16 \<times> heap) option" where
  "oos_append t right_edge nxt h =
     do {
       fl \<leftarrow> seg_tcpflags h nxt;
       if fl AND TCP_FIN \<noteq> 0 then Some ([nxt], in_tcplen t, h)
       else do {
         (copied, h) \<leftarrow> tcp_seg_copy (in_inseg t) h;
         case copied of
           None \<Rightarrow> Some ([nxt], in_tcplen t, h)
         | Some cseg \<Rightarrow>
             do {
               (nxt, h) \<leftarrow> oos_trim_prev (in_seqno t) nxt h;
               if TCP_SEQ_GT (ucast (in_tcplen t) + in_seqno t) right_edge then
                 do {
                   fl \<leftarrow> seg_tcpflags h cseg;
                   h \<leftarrow> (if fl AND TCP_FIN \<noteq> 0 then TCPH_FLAGS_SET (seg_tcphdr cseg) (fl AND NOT TCP_FIN) h else Some h);
                   (cseg, h) \<leftarrow> seg_shorten (ucast (right_edge - in_seqno t)) cseg h;
                   n \<leftarrow> TCP_TCPLEN h cseg;
                   let tcplen = (ucast n :: u16);
                   if in_seqno t + ucast tcplen \<noteq> right_edge then None else Some ([nxt, cseg], tcplen, h)
                 }
               else Some ([nxt, cseg], in_tcplen t, h)
             }
       }
     }"

text \<open>The search for the place of the incoming segment. \<open>prev\<close> is the segment before the rest of the queue, if
  any; the result replaces both.\<close>

fun oos_place ::
  "tcp_in \<Rightarrow> u32 \<Rightarrow> tcp_seg option \<Rightarrow> tcp_seg list \<Rightarrow> heap \<Rightarrow> (tcp_seg list \<times> u16 \<times> heap) option" where
  "oos_place t right_edge prev [] h = Some (case prev of None \<Rightarrow> [] | Some p \<Rightarrow> [p], in_tcplen t, h)"
| "oos_place t right_edge prev (nxt # segs) h =
     do {
       let pre = (case prev of None \<Rightarrow> [] | Some p \<Rightarrow> [p]);
       let seqno = in_seqno t;
       nseqno \<leftarrow> seg_hseqno h nxt;
       if seqno = nseqno then
         if seg_len (in_inseg t) > seg_len nxt then
           do {
             (copied, h) \<leftarrow> tcp_seg_copy (in_inseg t) h;
             case copied of
               None \<Rightarrow> Some (pre @ nxt # segs, in_tcplen t, h)
             | Some cseg \<Rightarrow>
                 do { (q, h) \<leftarrow> tcp_oos_insert_segment seqno cseg (nxt # segs) h; Some (pre @ q, in_tcplen t, h) }
           }
         else Some (pre @ nxt # segs, in_tcplen t, h)
       else do {
         here \<leftarrow> (case prev of
                    None \<Rightarrow> Some (TCP_SEQ_LT seqno nseqno)
                  | Some p \<Rightarrow> do { pseqno \<leftarrow> seg_hseqno h p; Some (TCP_SEQ_BETWEEN seqno (pseqno + 1) (nseqno - 1)) });
         if here then
           do {
             (copied, h) \<leftarrow> tcp_seg_copy (in_inseg t) h;
             case copied of
               None \<Rightarrow> Some (pre @ nxt # segs, in_tcplen t, h)
             | Some cseg \<Rightarrow>
                 do {
                   (pre, h) \<leftarrow> (case prev of
                                  None \<Rightarrow> Some ([], h)
                                | Some p \<Rightarrow> do { (p, h) \<leftarrow> oos_trim_prev seqno p h; Some ([p], h) });
                   (q, h) \<leftarrow> tcp_oos_insert_segment seqno cseg (nxt # segs) h;
                   Some (pre @ q, in_tcplen t, h)
                 }
           }
         else if segs = [] \<and> TCP_SEQ_GT seqno nseqno then
           do { (q, tcplen, h) \<leftarrow> oos_append t right_edge nxt h; Some (pre @ q, tcplen, h) }
         else
           do { (q, tcplen, h) \<leftarrow> oos_place t right_edge (Some nxt) segs h; Some (pre @ q, tcplen, h) }
       }
     }"

definition receive_outseq :: "addr \<Rightarrow> 'a tcpnet_scheme \<Rightarrow> 'a tcpnet_scheme option" where
  "receive_outseq a s =
     do {
       c \<leftarrow> tcp_mem s a;
       let t = tcp_in s;
       s \<leftarrow> (if pcb_ooseq c = [] then
               do {
                 (copied, h) \<leftarrow> tcp_seg_copy (in_inseg t) (net_heap s);
                 Some (set_pcb a (c\<lparr>pcb_ooseq := (case copied of None \<Rightarrow> [] | Some cseg \<Rightarrow> [cseg])\<rparr>) (s\<lparr>net_heap := h\<rparr>))
               }
             else
               do {
                 (q, tcplen, h) \<leftarrow> oos_place t (pcb_rcv_nxt c + ucast (pcb_rcv_wnd c)) None (pcb_ooseq c) (net_heap s);
                 Some (set_pcb a (c\<lparr>pcb_ooseq := q\<rparr>) (upd_in (\<lambda>t. t\<lparr>in_tcplen := tcplen\<rparr>) (s\<lparr>net_heap := h\<rparr>)))
               });
       map_option snd (tcp_send_empty_ack a s)
     }"

definition receive_data :: "addr \<Rightarrow> 'a tcpnet_scheme \<Rightarrow> 'a tcpnet_scheme option" where
  "receive_data a s =
     do {
       s \<leftarrow> receive_trim_front a s;
       c \<leftarrow> tcp_mem s a;
       let seqno = in_seqno (tcp_in s);
       if TCP_SEQ_BETWEEN seqno (pcb_rcv_nxt c) (pcb_rcv_nxt c + ucast (pcb_rcv_wnd c) - 1) then
         if pcb_rcv_nxt c = seqno then receive_inseq a s else receive_outseq a s
       else map_option snd (tcp_send_empty_ack a s)
     }"

definition tcp_receive :: "addr \<Rightarrow> 'a tcpnet_scheme \<Rightarrow> 'a tcpnet_scheme option" where
  "tcp_receive a s =
     do {
       c \<leftarrow> tcp_mem s a;
       if \<not> state_code (pcb_state c) \<ge> state_code ESTABLISHED then None
       else do {
         s \<leftarrow> (if in_flags (tcp_in s) AND TCP_ACK \<noteq> 0 then receive_ack a s else Some s);
         c \<leftarrow> tcp_mem s a;
         let t = tcp_in s;
         if in_tcplen t > 0 \<and> state_code (pcb_state c) < state_code CLOSE_WAIT then receive_data a s
         else if \<not> TCP_SEQ_BETWEEN (in_seqno t) (pcb_rcv_nxt c) (pcb_rcv_nxt c + ucast (pcb_rcv_wnd c) - 1)
         then Some (set_pcb a (tcp_ack_now c) s) else Some s
       }
     }"

end
