(* ===== verification/Tcp_Input.thy ===== *)
theory Tcp_Input
  imports Tcp_In
begin

text \<open>
  The state machine and the demultiplexing of segments: \<^verbatim>\<open>tcp_process\<close>, \<^verbatim>\<open>tcp_listen_input\<close>, \<^verbatim>\<open>tcp_timewait_input\<close> and
  \<^verbatim>\<open>tcp_input\<close> of \<^verbatim>\<open>lwip/core/tcp_in.c\<close>.
\<close>

subsection \<open>The state machine\<close>

text \<open>The reset in answer to the current segment.\<close>

definition rst_reply :: "ip_pcb option \<Rightarrow> 'a tcpnet_scheme \<Rightarrow> 'a tcpnet_scheme option" where
  "rst_reply pcb s =
     do {
       let t = tcp_in s;
       src \<leftarrow> rd16 (net_heap s) (in_tcphdr t) 0;
       dest \<leftarrow> rd16 (net_heap s) (in_tcphdr t) 2;
       tcp_rst pcb (in_ackno t) (in_seqno t + ucast (in_tcplen t)) (current_iphdr_dest (ip_data s))
         (current_iphdr_src (ip_data s)) dest src s
     }"

definition process_rst :: "addr \<Rightarrow> tcp_pcb \<Rightarrow> 'a tcpnet_scheme \<Rightarrow> (err_t \<times> 'a tcpnet_scheme) option" where
  "process_rst a c s =
     (let t = tcp_in s;
          acceptable = (if pcb_state c = SYN_SENT then in_ackno t = pcb_snd_nxt c else in_seqno t = pcb_rcv_nxt c);
          c = (if pcb_state c \<noteq> SYN_SENT \<and> in_seqno t \<noteq> pcb_rcv_nxt c \<and>
                  TCP_SEQ_BETWEEN (in_seqno t) (pcb_rcv_nxt c) (pcb_rcv_nxt c + ucast (pcb_rcv_wnd c))
               then tcp_ack_now c else c)
      in
      if acceptable then
        if pcb_state c = CLOSED then None
        else Some (ERR_RST, set_pcb a (tcp_clear_flags TF_ACK_DELAY c)
                              (upd_in (\<lambda>t. t\<lparr>in_recv_flags := in_recv_flags t OR TF_RESET\<rparr>) s))
      else Some (ERR_OK, set_pcb a c s))"

definition process_syn_sent :: "'a tcpnet_scheme tcp_cb \<Rightarrow> addr \<Rightarrow> tcp_pcb \<Rightarrow> 'a tcpnet_scheme \<Rightarrow> (err_t \<times> 'a tcpnet_scheme) option" where
  "process_syn_sent cb a c s =
     do {
       let t = tcp_in s;
       if in_flags t AND TCP_ACK \<noteq> 0 \<and> in_flags t AND TCP_SYN \<noteq> 0 \<and> in_ackno t = pcb_lastack c + 1 then
         do {
           wnd \<leftarrow> rd16 (net_heap s) (in_tcphdr t) 14;
           let mss = tcp_eff_send_mss (pcb_mss c) (pcb_local_ip c) (pcb_remote_ip c) s;
           let c = c\<lparr>pcb_rcv_nxt := in_seqno t + 1, pcb_rcv_ann_right_edge := in_seqno t + 1, pcb_lastack := in_ackno t,
                     pcb_snd_wnd := wnd, pcb_snd_wnd_max := wnd, pcb_snd_wl1 := in_seqno t - 1, pcb_state := ESTABLISHED,
                     pcb_mss := mss, pcb_cwnd := LWIP_TCP_CALC_INITIAL_CWND mss\<rparr>;
           if \<not> pcb_snd_queuelen c > 0 then None
           else do {
             let c = c\<lparr>pcb_snd_queuelen := pcb_snd_queuelen c - 1\<rparr>;
             (rseg, c) \<leftarrow> (case (pcb_unacked c, pcb_unsent c) of
                             ([], []) \<Rightarrow> None
                           | ([], seg # segs) \<Rightarrow> Some (seg, c\<lparr>pcb_unsent := segs\<rparr>)
                           | (seg # segs, _) \<Rightarrow> Some (seg, c\<lparr>pcb_unacked := segs\<rparr>));
             h \<leftarrow> tcp_seg_free rseg (net_heap s);
             let c = (if pcb_unacked c = [] then c\<lparr>pcb_rtime := - 1\<rparr> else c\<lparr>pcb_rtime := 0, pcb_nrtx := 0\<rparr>);
             (err, s) \<leftarrow> TCP_EVENT_CONNECTED cb a ERR_OK (set_pcb a c (s\<lparr>net_heap := h\<rparr>));
             if err = ERR_ABRT then Some (ERR_ABRT, s)
             else do { s \<leftarrow> upd_pcb a tcp_ack_now s; Some (ERR_OK, s) }
           }
         }
       else if in_flags t AND TCP_ACK \<noteq> 0 then
         do {
           s \<leftarrow> rst_reply (Some (ip_pcb_of c)) s;
           s \<leftarrow> (if pcb_nrtx c < TCP_SYNMAXRTX
                 then do { s \<leftarrow> upd_pcb a (\<lambda>c. c\<lparr>pcb_rtime := 0\<rparr>) s; tcp_rexmit_rto a s } else Some s);
           Some (ERR_OK, s)
         }
       else Some (ERR_OK, s)
     }"

definition process_syn_rcvd :: "'a tcpnet_scheme tcp_cb \<Rightarrow> addr \<Rightarrow> tcp_pcb \<Rightarrow> 'a tcpnet_scheme \<Rightarrow> (err_t \<times> 'a tcpnet_scheme) option" where
  "process_syn_rcvd cb a c s =
     do {
       let t = tcp_in s;
       if in_flags t AND TCP_ACK \<noteq> 0 then
         if TCP_SEQ_BETWEEN (in_ackno t) (pcb_lastack c + 1) (pcb_snd_nxt c) then
           do {
             let c = c\<lparr>pcb_state := ESTABLISHED\<rparr>;
             let s = set_pcb a c s;
             (err, s) \<leftarrow> (case pcb_listener c of
                            None \<Rightarrow> Some (ERR_VAL, s)
                          | Some lp \<Rightarrow>
                              do {
                                l \<leftarrow> tcp_listen_mem s lp;
                                if lpcb_accept l = None then None
                                else TCP_EVENT_ACCEPT cb l (Some a) (pcb_callback_arg c) ERR_OK s
                              });
             if err \<noteq> ERR_OK then
               do {
                 s \<leftarrow> (if err \<noteq> ERR_ABRT then tcp_abort cb (Some a) s else Some s);
                 Some (ERR_ABRT, s)
               }
             else do {
               s \<leftarrow> tcp_receive a s;
               let s = upd_in (\<lambda>t. if in_recv_acked t \<noteq> 0 then t\<lparr>in_recv_acked := in_recv_acked t - 1\<rparr> else t) s;
               s \<leftarrow> upd_pcb a (\<lambda>c. c\<lparr>pcb_cwnd := LWIP_TCP_CALC_INITIAL_CWND (pcb_mss c)\<rparr>) s;
               s \<leftarrow> (if in_recv_flags (tcp_in s) AND TF_GOT_FIN \<noteq> 0
                     then upd_pcb a (\<lambda>c. (tcp_ack_now c)\<lparr>pcb_state := CLOSE_WAIT\<rparr>) s else Some s);
               Some (ERR_OK, s)
             }
           }
         else do { s \<leftarrow> rst_reply (Some (ip_pcb_of c)) s; Some (ERR_OK, s) }
       else if in_flags t AND TCP_SYN \<noteq> 0 \<and> in_seqno t = pcb_rcv_nxt c - 1 then
         do { (err, s) \<leftarrow> tcp_rexmit a s; Some (ERR_OK, s) }
       else Some (ERR_OK, s)
     }"

text \<open>Moving to \<^verbatim>\<open>TIME_WAIT\<close>.\<close>

definition enter_time_wait :: "addr \<Rightarrow> 'a tcpnet_scheme \<Rightarrow> 'a tcpnet_scheme option" where
  "enter_time_wait a s =
     do {
       s \<leftarrow> tcp_pcb_purge a s;
       s \<leftarrow> TCP_RMV_ACTIVE a s;
       s \<leftarrow> upd_pcb a (\<lambda>c. c\<lparr>pcb_state := TIME_WAIT\<rparr>) s;
       TCP_REG Tw_pcbs a s
     }"

text \<open>Whether the segment acknowledges everything sent, the FIN included.\<close>

definition acks_all :: "tcp_in \<Rightarrow> tcp_pcb \<Rightarrow> bool" where
  "acks_all t c = (in_flags t AND TCP_ACK \<noteq> 0 \<and> in_ackno t = pcb_snd_nxt c \<and> pcb_unsent c = [])"

text \<open>The states after the handshake.\<close>

definition process_data :: "tcp_state \<Rightarrow> addr \<Rightarrow> 'a tcpnet_scheme \<Rightarrow> 'a tcpnet_scheme option" where
  "process_data st a s =
     do {
       s \<leftarrow> tcp_receive a s;
       c \<leftarrow> tcp_mem s a;
       let got_fin = (in_recv_flags (tcp_in s) AND TF_GOT_FIN \<noteq> 0);
       let acked = acks_all (tcp_in s) c;
       case st of
         FIN_WAIT_1 \<Rightarrow>
           if got_fin then
             if acked then enter_time_wait a (set_pcb a (tcp_ack_now c) s)
             else Some (set_pcb a ((tcp_ack_now c)\<lparr>pcb_state := CLOSING\<rparr>) s)
           else if acked then Some (set_pcb a (c\<lparr>pcb_state := FIN_WAIT_2\<rparr>) s)
           else Some s
       | FIN_WAIT_2 \<Rightarrow> if got_fin then enter_time_wait a (set_pcb a (tcp_ack_now c) s) else Some s
       | CLOSING \<Rightarrow> if acked then enter_time_wait a s else Some s
       | LAST_ACK \<Rightarrow> Some (if acked then upd_in (\<lambda>t. t\<lparr>in_recv_flags := in_recv_flags t OR TF_CLOSED\<rparr>) s else s)
       | _ \<Rightarrow> if got_fin then Some (set_pcb a ((tcp_ack_now c)\<lparr>pcb_state := CLOSE_WAIT\<rparr>) s) else Some s
     }"

definition tcp_process :: "'a tcpnet_scheme tcp_cb \<Rightarrow> addr \<Rightarrow> 'a tcpnet_scheme \<Rightarrow> (err_t \<times> 'a tcpnet_scheme) option" where
  "tcp_process cb a s =
     do {
       c \<leftarrow> tcp_mem s a;
       let t = tcp_in s;
       if in_flags t AND TCP_RST \<noteq> 0 then process_rst a c s
       else if in_flags t AND TCP_SYN \<noteq> 0 \<and> pcb_state c \<noteq> SYN_SENT \<and> pcb_state c \<noteq> SYN_RCVD
       then Some (ERR_OK, set_pcb a (tcp_ack_now c) s)
       else do {
         let c = (if \<not> tcp_is_flag_set TF_RXCLOSED c then c\<lparr>pcb_tmr := tcp_ticks s\<rparr> else c);
         s \<leftarrow> tcp_parseopt a (set_pcb a (c\<lparr>pcb_keep_cnt_sent := 0, pcb_persist_probe := 0\<rparr>) s);
         c \<leftarrow> tcp_mem s a;
         case pcb_state c of
           SYN_SENT \<Rightarrow> process_syn_sent cb a c s
         | SYN_RCVD \<Rightarrow> process_syn_rcvd cb a c s
         | CLOSED \<Rightarrow> Some (ERR_OK, s)
         | LISTEN \<Rightarrow> Some (ERR_OK, s)
         | TIME_WAIT \<Rightarrow> Some (ERR_OK, s)
         | st \<Rightarrow> map_option (Pair ERR_OK) (process_data st a s)
       }
     }"

subsection \<open>Segments for listening and waiting control blocks\<close>

definition tcp_listen_input :: "'a tcpnet_scheme tcp_cb \<Rightarrow> addr \<Rightarrow> 'a tcpnet_scheme \<Rightarrow> 'a tcpnet_scheme option" where
  "tcp_listen_input cb lp s =
     do {
       let t = tcp_in s;
       if in_flags t AND TCP_RST \<noteq> 0 then Some s
       else do {
         l \<leftarrow> tcp_listen_mem s lp;
         if in_flags t AND TCP_ACK \<noteq> 0 then rst_reply (Some (ip_pcb_of_listen l)) s
         else if in_flags t AND TCP_SYN \<noteq> 0 then
           do {
             (npcb, s) \<leftarrow> tcp_alloc cb (lpcb_prio l) s;
             l \<leftarrow> tcp_listen_mem s lp;
             case npcb of
               None \<Rightarrow> map_option snd (TCP_EVENT_ACCEPT cb l None (lpcb_callback_arg l) ERR_MEM s)
             | Some a \<Rightarrow>
                 do {
                   src \<leftarrow> rd16 (net_heap s) (in_tcphdr t) 0;
                   dest \<leftarrow> rd16 (net_heap s) (in_tcphdr t) 2;
                   let (iss, s) = tcp_next_iss s;
                   s \<leftarrow> upd_pcb a (\<lambda>c. c\<lparr>pcb_local_ip := current_iphdr_dest (ip_data s), pcb_remote_ip := current_iphdr_src (ip_data s),
                           pcb_local_port := dest, pcb_remote_port := src, pcb_state := SYN_RCVD,
                           pcb_rcv_nxt := in_seqno t + 1, pcb_rcv_ann_right_edge := in_seqno t + 1,
                           pcb_snd_wl2 := iss, pcb_snd_nxt := iss, pcb_lastack := iss, pcb_snd_lbb := iss,
                           pcb_snd_wl1 := in_seqno t - 1, pcb_callback_arg := lpcb_callback_arg l, pcb_listener := Some lp,
                           pcb_so_options := lpcb_so_options l AND SOF_INHERITED, pcb_netif_idx := lpcb_netif_idx l\<rparr>) s;
                   s \<leftarrow> TCP_REG_ACTIVE a s;
                   s \<leftarrow> tcp_parseopt a s;
                   wnd \<leftarrow> rd16 (net_heap s) (in_tcphdr t) 14;
                   s \<leftarrow> upd_pcb a (\<lambda>c. c\<lparr>pcb_snd_wnd := wnd, pcb_snd_wnd_max := wnd,
                           pcb_mss := tcp_eff_send_mss (pcb_mss c) (pcb_local_ip c) (pcb_remote_ip c) s\<rparr>) s;
                   (rc, s) \<leftarrow> tcp_enqueue_flags a (TCP_SYN OR TCP_ACK) s;
                   if rc \<noteq> ERR_OK then tcp_abandon cb (Some a) False s
                   else map_option snd (tcp_output a s)
                 }
           }
         else Some s
       }
     }"

definition tcp_timewait_input :: "addr \<Rightarrow> 'a tcpnet_scheme \<Rightarrow> 'a tcpnet_scheme option" where
  "tcp_timewait_input a s =
     (let t = tcp_in s in
      if in_flags t AND TCP_RST \<noteq> 0 then Some s
      else do {
        c \<leftarrow> tcp_mem s a;
        if in_flags t AND TCP_SYN \<noteq> 0 \<and>
           TCP_SEQ_BETWEEN (in_seqno t) (pcb_rcv_nxt c) (pcb_rcv_nxt c + ucast (pcb_rcv_wnd c))
        then rst_reply (Some (ip_pcb_of c)) s
        else do {
          let c = (if in_flags t AND TCP_SYN = 0 \<and> in_flags t AND TCP_FIN \<noteq> 0 then c\<lparr>pcb_tmr := tcp_ticks s\<rparr> else c);
          if in_tcplen t > 0 then map_option snd (tcp_output a (set_pcb a (tcp_ack_now c) s))
          else Some (set_pcb a c s)
        }
      })"

subsection \<open>Finding the control block\<close>

definition pcb_matches :: "tcp_pcb \<Rightarrow> u16 \<Rightarrow> u16 \<Rightarrow> 'a tcpnet_scheme \<Rightarrow> bool option" where
  "pcb_matches c src dest s =
     do {
       other_netif \<leftarrow> (if pcb_netif_idx c = NETIF_NO_INDEX then Some False
                       else do { r \<leftarrow> current_input_netif (ip_data s); Some (pcb_netif_idx c \<noteq> netif_get_index (netifs s r)) });
       Some (\<not> other_netif \<and> pcb_remote_port c = src \<and> pcb_local_port c = dest \<and>
             pcb_remote_ip c = current_iphdr_src (ip_data s) \<and> pcb_local_ip c = current_iphdr_dest (ip_data s))
     }"

text \<open>The first control block of a list that the segment is for; \<open>ok\<close> is what the loop asserts of the states.\<close>

fun pcb_lookup :: "(tcp_state \<Rightarrow> bool) \<Rightarrow> addr list \<Rightarrow> u16 \<Rightarrow> u16 \<Rightarrow> 'a tcpnet_scheme \<Rightarrow> addr option option" where
  "pcb_lookup ok [] src dest s = Some None"
| "pcb_lookup ok (a # as) src dest s =
     do {
       c \<leftarrow> tcp_mem s a;
       if \<not> ok (pcb_state c) then None
       else do {
         m \<leftarrow> pcb_matches c src dest s;
         if m then Some (Some a) else pcb_lookup ok as src dest s
       }
     }"

definition active_state :: "tcp_state \<Rightarrow> bool" where
  "active_state st = (st \<noteq> CLOSED \<and> st \<noteq> TIME_WAIT \<and> st \<noteq> LISTEN)"

text \<open>Moving a control block to the front of the active ones, and what the code makes of the first
  listening one: it becomes its own successor.\<close>

definition move_front :: "addr \<Rightarrow> 'a tcpnet_scheme \<Rightarrow> 'a tcpnet_scheme" where
  "move_front a s = s\<lparr>tcp_active_pcbs := a # remove1 a (tcp_active_pcbs s)\<rparr>"

definition listen_front :: "addr \<Rightarrow> 'a tcpnet_scheme \<Rightarrow> 'a tcpnet_scheme option" where
  "listen_front lp s = do { l \<leftarrow> tcp_listen_mem s lp; Some (set_lpcb lp (l\<lparr>lpcb_next := tcp_listen_pcbs s\<rparr>) s) }"

subsection \<open>Events after the processing\<close>

text \<open>Each step returns whether the code jumps to \<^verbatim>\<open>aborted\<close>.\<close>

definition unless_aborted :: "('s \<Rightarrow> (bool \<times> 's) option) \<Rightarrow> bool \<times> 's \<Rightarrow> (bool \<times> 's) option" where
  "unless_aborted f r = (if fst r then Some r else f (snd r))"

definition tcp_input_delayed_close :: "'a tcpnet_scheme tcp_cb \<Rightarrow> addr \<Rightarrow> 'a tcpnet_scheme \<Rightarrow> (bool \<times> 'a tcpnet_scheme) option" where
  "tcp_input_delayed_close cb a s =
     (if in_recv_flags (tcp_in s) AND TF_CLOSED \<noteq> 0 then
        do {
          c \<leftarrow> tcp_mem s a;
          s \<leftarrow> (if \<not> tcp_is_flag_set TF_RXCLOSED c then TCP_EVENT_ERR cb (pcb_errf c) (pcb_callback_arg c) ERR_CLSD s else Some s);
          s \<leftarrow> tcp_pcb_remove Active_pcbs a s;
          s \<leftarrow> tcp_free a s;
          Some (True, s)
        }
      else Some (False, s))"

definition input_sent :: "'a tcpnet_scheme tcp_cb \<Rightarrow> addr \<Rightarrow> 'a tcpnet_scheme \<Rightarrow> (bool \<times> 'a tcpnet_scheme) option" where
  "input_sent cb a s =
     (if in_recv_acked (tcp_in s) > 0 then
        do {
          (err, s) \<leftarrow> TCP_EVENT_SENT cb a (in_recv_acked (tcp_in s)) s;
          if err = ERR_ABRT then Some (True, s) else Some (False, upd_in (\<lambda>t. t\<lparr>in_recv_acked := 0\<rparr>) s)
        }
      else Some (False, s))"

definition input_recv :: "'a tcpnet_scheme tcp_cb \<Rightarrow> addr \<Rightarrow> 'a tcpnet_scheme \<Rightarrow> (bool \<times> 'a tcpnet_scheme) option" where
  "input_recv cb a s =
     (case in_recv_data (tcp_in s) of
        None \<Rightarrow> Some (False, s)
      | Some p \<Rightarrow>
          do {
            c \<leftarrow> tcp_mem s a;
            if pcb_refused_data c \<noteq> None then None
            else if tcp_is_flag_set TF_RXCLOSED c then
              do {
                (n, h) \<leftarrow> pbuf_free (Some p) (net_heap s);
                s \<leftarrow> tcp_abort cb (Some a) (s\<lparr>net_heap := h\<rparr>);
                Some (True, s)
              }
            else do {
              (err, s) \<leftarrow> TCP_EVENT_RECV cb a p ERR_OK s;
              if err = ERR_ABRT then Some (True, s)
              else if err \<noteq> ERR_OK then
                do { s \<leftarrow> upd_pcb a (\<lambda>c. c\<lparr>pcb_refused_data := in_recv_data (tcp_in s)\<rparr>) s; Some (False, s) }
              else Some (False, s)
            }
          })"

definition input_fin :: "'a tcpnet_scheme tcp_cb \<Rightarrow> addr \<Rightarrow> 'a tcpnet_scheme \<Rightarrow> (bool \<times> 'a tcpnet_scheme) option" where
  "input_fin cb a s =
     (if in_recv_flags (tcp_in s) AND TF_GOT_FIN \<noteq> 0 then
        do {
          c \<leftarrow> tcp_mem s a;
          case pcb_refused_data c of
            Some p \<Rightarrow>
              do {
                b \<leftarrow> h_pbuf (net_heap s) p;
                Some (False, s\<lparr>net_heap := set_pbuf p (b\<lparr>p_flags := p_flags b OR PBUF_FLAG_TCP_FIN\<rparr>) (net_heap s)\<rparr>)
              }
          | None \<Rightarrow>
              do {
                let c = (if pcb_rcv_wnd c \<noteq> TCP_WND then c\<lparr>pcb_rcv_wnd := pcb_rcv_wnd c + 1\<rparr> else c);
                (err, s) \<leftarrow> TCP_EVENT_CLOSED cb a (set_pcb a c s);
                Some (err = ERR_ABRT, s)
              }
        }
      else Some (False, s))"

definition input_output :: "addr \<Rightarrow> 'a tcpnet_scheme \<Rightarrow> (bool \<times> 'a tcpnet_scheme) option" where
  "input_output a s = map_option (\<lambda>(err, s). (False, s)) (tcp_output a s)"

definition input_events :: "'a tcpnet_scheme tcp_cb \<Rightarrow> addr \<Rightarrow> 'a tcpnet_scheme \<Rightarrow> 'a tcpnet_scheme option" where
  "input_events cb a s =
     do {
       r \<leftarrow> input_sent cb a s;
       r \<leftarrow> unless_aborted (tcp_input_delayed_close cb a) r;
       r \<leftarrow> unless_aborted (input_recv cb a) r;
       r \<leftarrow> unless_aborted (input_fin cb a) r;
       r \<leftarrow> unless_aborted (\<lambda>s. tcp_input_delayed_close cb a (s\<lparr>tcp_input_pcb := None\<rparr>)) r;
       r \<leftarrow> unless_aborted (input_output a) r;
       Some (snd r)
     }"

subsection \<open>Input\<close>

text \<open>The target \<^verbatim>\<open>aborted\<close>.\<close>

definition input_aborted :: "'a tcpnet_scheme \<Rightarrow> 'a tcpnet_scheme option" where
  "input_aborted s =
     (let s = upd_in (\<lambda>t. t\<lparr>in_recv_data := None\<rparr>) (s\<lparr>tcp_input_pcb := None\<rparr>) in
      case seg_p (in_inseg (tcp_in s)) of
        None \<Rightarrow> Some s
      | Some p \<Rightarrow>
          do {
            (n, h) \<leftarrow> pbuf_free (Some p) (net_heap s);
            Some (upd_in (\<lambda>t. t\<lparr>in_inseg := (in_inseg t)\<lparr>seg_p := None\<rparr>\<rparr>) (s\<lparr>net_heap := h\<rparr>))
          })"

definition input_process :: "'a tcpnet_scheme tcp_cb \<Rightarrow> addr \<Rightarrow> 'a tcpnet_scheme \<Rightarrow> 'a tcpnet_scheme option" where
  "input_process cb a s =
     do {
       (err, s) \<leftarrow> tcp_process cb a (s\<lparr>tcp_input_pcb := Some a\<rparr>);
       if err = ERR_ABRT then Some s
       else if in_recv_flags (tcp_in s) AND TF_RESET \<noteq> 0 then
         do {
           c \<leftarrow> tcp_mem s a;
           s \<leftarrow> TCP_EVENT_ERR cb (pcb_errf c) (pcb_callback_arg c) ERR_RST s;
           s \<leftarrow> tcp_pcb_remove Active_pcbs a s;
           tcp_free a s
         }
       else input_events cb a s
     }"

text \<open>The refused data first; the first result is the jump to \<^verbatim>\<open>aborted\<close>.\<close>

definition input_refused :: "'a tcpnet_scheme tcp_cb \<Rightarrow> addr \<Rightarrow> 'a tcpnet_scheme \<Rightarrow> (bool \<times> 'a tcpnet_scheme) option" where
  "input_refused cb a s =
     do {
       c \<leftarrow> tcp_mem s a;
       if pcb_refused_data c = None then Some (False, s)
       else do {
         (err, s) \<leftarrow> tcp_process_refused_data cb a s;
         drop_it \<leftarrow> (if err = ERR_ABRT then Some True
                  else do { c \<leftarrow> tcp_mem s a; Some (pcb_refused_data c \<noteq> None \<and> in_tcplen (tcp_in s) > 0) });
         if drop_it then
           do {
             c \<leftarrow> tcp_mem s a;
             s \<leftarrow> (if pcb_rcv_ann_wnd c = 0 then map_option snd (tcp_send_empty_ack a s) else Some s);
             Some (True, s)
           }
         else Some (False, s)
       }
     }"

definition input_connection :: "'a tcpnet_scheme tcp_cb \<Rightarrow> addr \<Rightarrow> addr \<Rightarrow> 'a tcpnet_scheme \<Rightarrow> 'a tcpnet_scheme option" where
  "input_connection cb a p s =
     do {
       b \<leftarrow> h_pbuf (net_heap s) p;
       let s = upd_in (\<lambda>t. t\<lparr>in_inseg := (in_inseg t)\<lparr>seg_len := p_tot_len b, seg_p := Some p, seg_tcphdr := in_tcphdr t\<rparr>,
                             in_recv_data := None, in_recv_flags := 0, in_recv_acked := 0\<rparr>) s;
       let s = (if in_flags (tcp_in s) AND TCP_PSH \<noteq> 0
                then s\<lparr>net_heap := set_pbuf p (b\<lparr>p_flags := p_flags b OR PBUF_FLAG_PUSH\<rparr>) (net_heap s)\<rparr> else s);
       (aborted, s) \<leftarrow> input_refused cb a s;
       s \<leftarrow> (if aborted then Some s else input_process cb a s);
       input_aborted s
     }"

definition tcp_input_free :: "addr \<Rightarrow> 'a tcpnet_scheme \<Rightarrow> 'a tcpnet_scheme option" where
  "tcp_input_free p s = do { (n, h) \<leftarrow> pbuf_free (Some p) (net_heap s); Some (s\<lparr>net_heap := h\<rparr>) }"

definition input_demux :: "'a tcpnet_scheme tcp_cb \<Rightarrow> addr \<Rightarrow> 'a tcpnet_scheme \<Rightarrow> 'a tcpnet_scheme option" where
  "input_demux cb p s =
     do {
       let t = tcp_in s;
       src \<leftarrow> rd16 (net_heap s) (in_tcphdr t) 0;
       dest \<leftarrow> rd16 (net_heap s) (in_tcphdr t) 2;
       active \<leftarrow> pcb_lookup active_state (tcp_active_pcbs s) src dest s;
       case active of
         Some a \<Rightarrow> input_connection cb a p (move_front a s)
       | None \<Rightarrow>
           do {
             tw \<leftarrow> pcb_lookup (\<lambda>st. st = TIME_WAIT) (tcp_tw_pcbs s) src dest s;
             case tw of
               Some a \<Rightarrow> do { s \<leftarrow> tcp_timewait_input a s; tcp_input_free p s }
             | None \<Rightarrow>
                 (case tcp_listen_pcbs s of
                    Some lp \<Rightarrow>
                      do {
                        s \<leftarrow> listen_front lp s;
                        s \<leftarrow> tcp_listen_input cb lp s;
                        tcp_input_free p s
                      }
                  | None \<Rightarrow>
                      do {
                        fl \<leftarrow> TCPH_FLAGS (net_heap s) (in_tcphdr t);
                        s \<leftarrow> (if fl AND TCP_RST = 0 then rst_reply None s else Some s);
                        tcp_input_free p s
                      })
           }
     }"

text \<open>Moving the payload behind the options. The results are the lengths of the options in all and in the first pbuf
  and the pointer to the rest, which is in the second one, and whether the options fit there.\<close>

definition input_options ::
  "addr \<Rightarrow> nat \<Rightarrow> heap \<Rightarrow> ((u16 \<times> u16 \<times> ptr option) \<times> bool \<times> heap) option" where
  "input_options p hdrlen_bytes h =
     do {
       b \<leftarrow> h_pbuf h p;
       let optlen = (of_nat (hdrlen_bytes - TCP_HLEN) :: u16);
       if unat (p_len b) \<ge> hdrlen_bytes then
         do { (r, h) \<leftarrow> pbuf_remove_header (Some p) hdrlen_bytes h; Some ((optlen, optlen, None), True, h) }
       else do {
         q \<leftarrow> p_next b;
         (r, h) \<leftarrow> pbuf_remove_header (Some p) TCP_HLEN h;
         b \<leftarrow> h_pbuf h p;
         let opt1len = p_len b;
         let opt2len = optlen - opt1len;
         (r, h) \<leftarrow> pbuf_remove_header (Some p) (unat opt1len) h;
         nb \<leftarrow> h_pbuf h q;
         if opt2len > p_len nb then Some ((optlen, opt1len, None), False, h)
         else do {
           (r, h) \<leftarrow> pbuf_remove_header (Some q) (unat opt2len) h;
           b \<leftarrow> h_pbuf h p;
           let b = b\<lparr>p_tot_len := p_tot_len b - opt2len\<rparr>;
           let h = set_pbuf p b h;
           n \<leftarrow> h_pbuf h q;
           if p_len b \<noteq> 0 \<or> p_tot_len b \<noteq> p_tot_len n then None
           else Some ((optlen, opt1len, p_payload nb), True, h)
         }
       }
     }"

text \<open>Converting the header to host byte order and setting the variables of the segment; the first result says whether the
  length is fine.\<close>

definition input_header :: "addr \<Rightarrow> 'a tcpnet_scheme \<Rightarrow> (bool \<times> 'a tcpnet_scheme) option" where
  "input_header p s =
     do {
       let h = net_heap s;
       let hdr = in_tcphdr (tcp_in s);
       x \<leftarrow> rd16 h hdr 0; h \<leftarrow> wr16 hdr 0 (lwip_ntohs x) h;
       x \<leftarrow> rd16 h hdr 2; h \<leftarrow> wr16 hdr 2 (lwip_ntohs x) h;
       x \<leftarrow> rd32 h hdr 4; let seqno = lwip_ntohl x; h \<leftarrow> wr32 hdr 4 seqno h;
       x \<leftarrow> rd32 h hdr 8; let ackno = lwip_ntohl x; h \<leftarrow> wr32 hdr 8 ackno h;
       x \<leftarrow> rd16 h hdr 14; h \<leftarrow> wr16 hdr 14 (lwip_ntohs x) h;
       fl \<leftarrow> TCPH_FLAGS h hdr;
       b \<leftarrow> h_pbuf h p;
       let tcplen = (if fl AND (TCP_FIN OR TCP_SYN) \<noteq> 0 then p_tot_len b + 1 else p_tot_len b);
       Some (\<not> tcplen < p_tot_len b,
             upd_in (\<lambda>t. t\<lparr>in_seqno := seqno, in_ackno := ackno, in_flags := fl, in_tcplen := tcplen\<rparr>) (s\<lparr>net_heap := h\<rparr>))
     }"

definition tcp_input :: "'a tcpnet_scheme tcp_cb \<Rightarrow> addr \<Rightarrow> netif_ref \<Rightarrow> 'a tcpnet_scheme \<Rightarrow> 'a tcpnet_scheme option" where
  "tcp_input cb p inp s =
     do {
       b \<leftarrow> h_pbuf (net_heap s) p;
       let s = upd_in (\<lambda>t. t\<lparr>in_tcphdr := p_payload b\<rparr>) s;
       if unat (p_len b) < TCP_HLEN then tcp_input_free p s
       else do {
         let dest = current_iphdr_dest (ip_data s);
         cur \<leftarrow> current_netif (ip_data s);
         if ip4_addr_isbroadcast_u32 dest (netifs s cur) \<or> ip4_addr_ismulticast dest then tcp_input_free p s
         else do {
           hdrlen \<leftarrow> TCPH_HDRLEN_BYTES (net_heap s) (p_payload b);
           if unat hdrlen < TCP_HLEN \<or> unat hdrlen > unat (p_tot_len b) then tcp_input_free p s
           else do {
             ((optlen, opt1len, opt2), fits, h) \<leftarrow> input_options p (unat hdrlen) (net_heap s);
             let s = upd_in (\<lambda>t. t\<lparr>in_optlen := optlen, in_opt1len := opt1len, in_opt2 := opt2\<rparr>) (s\<lparr>net_heap := h\<rparr>);
             if \<not> fits then tcp_input_free p s
             else do {
               (ok, s) \<leftarrow> input_header p s;
               if ok then input_demux cb p s else tcp_input_free p s
             }
           }
         }
       }
     }"

end
