(* ===== verification/Tcp_Window.thy ===== *)
theory Tcp_Window
  imports Tcp_In
begin

text \<open>
  The receive window: how \<^verbatim>\<open>tcp_receive\<close> advances \<^verbatim>\<open>rcv_nxt\<close>, \<^verbatim>\<open>tcp_recved\<close> opens the window again and \<^verbatim>\<open>tcp_update_rcv_ann_wnd\<close>
  chooses what is announced. The invariant \<open>rcv_wnd_ok\<close> says that the peer has not been promised more than the buffer
  takes; sequence numbers wrap around.
\<close>

subsection \<open>Comparisons of sequence numbers\<close>

lemma sint_u32_0: "sint (x :: u32) = 0 \<longleftrightarrow> x = 0"
  by (simp add: signed_eq_0_iff)

lemma TCP_SEQ_GEQ_not_LT: "TCP_SEQ_GEQ a b \<longleftrightarrow> \<not> TCP_SEQ_LT a b"
  by (auto simp: TCP_SEQ_GEQ_def TCP_SEQ_LT_def)

lemma TCP_SEQ_GT_not_LT: "TCP_SEQ_GT a b \<longleftrightarrow> a \<noteq> b \<and> \<not> TCP_SEQ_LT a b"
  by (auto simp: TCP_SEQ_GT_def TCP_SEQ_LT_def order.strict_iff_order not_less sint_u32_0)

lemma TCP_SEQ_LEQ_not_LT: "TCP_SEQ_LEQ a b \<longleftrightarrow> a = b \<or> TCP_SEQ_LT a b"
  by (auto simp: TCP_SEQ_LEQ_def TCP_SEQ_LT_def order.strict_iff_order not_less sint_u32_0)

lemma ucast_u16_u32_le: "(ucast (w :: u16) :: u32) \<le> 0xffff"
  using unat_u16_le [of w] by (simp add: word_le_nat_alt word_nat)

lemma ucast_u32_u16_inv: "x \<le> 0xffff \<Longrightarrow> ucast (ucast (x :: u32) :: u16) = x"
  by (simp add: word_unat_eq_iff word_le_nat_alt unsigned_ucast_eq unsigned_take_bit_eq take_bit_nat_eq_self_iff)

subsection \<open>The receive window\<close>

text \<open>What the peer may send reaches at most to the end of the buffer.\<close>

definition rcv_wnd_ok :: "tcp_pcb \<Rightarrow> bool" where
  "rcv_wnd_ok c = (pcb_rcv_ann_right_edge c - pcb_rcv_nxt c \<le> ucast (pcb_rcv_wnd c))"

lemma small_in_half: "x \<le> 0x1fffe \<Longrightarrow> in_half n (n + x)"
  by (simp add: in_half_def word_le_nat_alt word_less_nat_alt)

lemma u32_add_small: "x \<le> 0xffff \<Longrightarrow> y \<le> 0xffff \<Longrightarrow> unat (x + y :: u32) = unat x + unat y"
  by (simp add: word_le_nat_alt unat_word_ariths)

lemma tcp_update_rcv_ann_wnd_ok:
  assumes "rcv_wnd_ok c"
  shows "\<exists>w. tcp_update_rcv_ann_wnd c =
             Some (pcb_rcv_nxt c + ucast w - pcb_rcv_ann_right_edge c, c\<lparr>pcb_rcv_ann_wnd := w\<rparr>) \<and>
           pcb_rcv_ann_right_edge c - pcb_rcv_nxt c \<le> ucast w \<and> w \<le> pcb_rcv_wnd c \<and>
           (pcb_rcv_nxt c + ucast w = pcb_rcv_ann_right_edge c \<or>
            w = pcb_rcv_wnd c \<and>
            pcb_rcv_ann_right_edge c - pcb_rcv_nxt c + ucast (min (TCP_WND div 2) (pcb_mss c)) \<le> ucast w)"
proof -
  define x where "x = pcb_rcv_ann_right_edge c - pcb_rcv_nxt c"
  define m :: u32 where "m = ucast (min (TCP_WND div 2) (pcb_mss c))"
  let ?n = "pcb_rcv_nxt c" and ?w = "ucast (pcb_rcv_wnd c) :: u32"
  have x: "x \<le> ?w" "x \<le> 0xffff" and m: "m \<le> 0xffff" and e: "pcb_rcv_ann_right_edge c = ?n + x"
    using assms ucast_u16_u32_le [of "pcb_rcv_wnd c"] by (auto simp: rcv_wnd_ok_def x_def m_def ucast_u16_u32_le intro: order.trans)
  have "TCP_SEQ_GEQ (?n + ?w) (?n + (x + m)) \<longleftrightarrow> \<not> ?w < x + m"
    using ucast_u16_u32_le [of "pcb_rcv_wnd c"] x(2) m
    by (subst TCP_SEQ_GEQ_not_LT, subst seq.less_iff_offset [of ?n])
       (auto intro!: small_in_half simp: word_le_nat_alt u32_add_small)
  moreover have "\<not> TCP_SEQ_GT ?n (?n + x)"
    using seq.less_add(1) [of x ?n] x(2) by (auto simp: TCP_SEQ_GT_not_LT word_le_nat_alt word_less_nat_alt)
  moreover have "w' \<le> pcb_rcv_wnd c" if "(ucast w' :: u32) = x" for w'
    using x(1) unfolding that [symmetric] by (simp add: word_le_nat_alt word_nat)
  moreover have "ucast (ucast x :: u16) = x"
    by (rule ucast_u32_u16_inv [OF x(2)])
  ultimately show ?thesis
    using x unfolding tcp_update_rcv_ann_wnd_def Let_def e m_def [symmetric] add.assoc
    by (intro exI [of _ "if ?w < x + m then ucast x else pcb_rcv_wnd c"]) (auto simp: not_less)
qed


lemma receive_advance_ok:
  assumes "rcv_wnd_ok c" and "len \<le> pcb_rcv_ann_right_edge c - pcb_rcv_nxt c"
  shows "\<exists>c'. receive_advance len c = Some c' \<and> rcv_wnd_ok c' \<and> pcb_rcv_nxt c' = pcb_rcv_nxt c + len \<and>
    unat (pcb_rcv_wnd c') = unat (pcb_rcv_wnd c) - unat len \<and>
    pcb_rcv_ann_right_edge c' = pcb_rcv_ann_right_edge c \<and>
    pcb_rcv_ann_right_edge c - pcb_rcv_nxt c' \<le> ucast (pcb_rcv_ann_wnd c') \<and> pcb_rcv_ann_wnd c' \<le> pcb_rcv_wnd c'"
proof -
  let ?c = "c\<lparr>pcb_rcv_nxt := pcb_rcv_nxt c + len, pcb_rcv_wnd := pcb_rcv_wnd c - ucast len\<rparr>"
  let ?w = "pcb_rcv_wnd c"
  have len: "len \<le> ucast ?w" "len \<le> 0xffff"
    using assms ucast_u16_u32_le [of ?w] by (auto simp: rcv_wnd_ok_def intro: order.trans)
  have u: "unat (ucast len :: u16) = unat len"
    using ucast_u32_u16_inv [OF len(2)] by (metis unat_ucast_u16_u32)
  have w: "unat (?w - ucast len) = unat ?w - unat len"
    using len(1) by (subst unat_sub) (auto simp: word_le_nat_alt u word_nat)
  have "rcv_wnd_ok ?c"
  proof -
    have "(ucast (?w - ucast len) :: u32) = ucast ?w - len"
      using len(1) by (simp add: word_unat_eq_iff word_nat w unat_sub)
    moreover have "pcb_rcv_ann_right_edge c - (pcb_rcv_nxt c + len) \<le> ucast ?w - len"
      using assms len(1) unfolding diff_diff_eq [symmetric] rcv_wnd_ok_def by (simp add: word_le_nat_alt unat_sub)
    ultimately show ?thesis
      by (simp add: rcv_wnd_ok_def)
  qed
  from tcp_update_rcv_ann_wnd_ok [OF this] show ?thesis
    using len(1) w \<open>rcv_wnd_ok ?c\<close> by (auto simp: receive_advance_def rcv_wnd_ok_def)
qed


text \<open>C12: Receiving data that the peer was allowed to send never trips an assertion: \<^verbatim>\<open>rcv_nxt\<close> advances by their length,
  the window shrinks by as much, and the right edge announced to the peer never moves back and never exceeds the buffer.\<close>

theorem receive_window_kept:
  assumes "rcv_wnd_ok c" and "len \<le> pcb_rcv_ann_right_edge c - pcb_rcv_nxt c"
  shows "\<exists>c'. receive_advance len c = Some c' \<and> rcv_wnd_ok c' \<and> pcb_rcv_nxt c' = pcb_rcv_nxt c + len \<and>
    unat (pcb_rcv_wnd c') = unat (pcb_rcv_wnd c) - unat len \<and>
    pcb_rcv_ann_right_edge c' = pcb_rcv_ann_right_edge c \<and>
    pcb_rcv_ann_right_edge c - pcb_rcv_nxt c' \<le> ucast (pcb_rcv_ann_wnd c') \<and> pcb_rcv_ann_wnd c' \<le> pcb_rcv_wnd c'"
  by (rule receive_advance_ok [OF assms])


subsection \<open>A sample connection\<close>

definition sample_tcp_in :: tcp_in where
  "sample_tcp_in = \<lparr>in_inseg = \<lparr>seg_p = None, seg_len = 0, seg_flags = 0, seg_tcphdr = None\<rparr>, in_tcphdr = None, in_optlen = 0, in_opt1len = 0,
     in_opt2 = None, in_optidx = 0, in_seqno = 0, in_ackno = 0, in_recv_acked = 0, in_tcplen = 0, in_flags = 0, in_recv_flags = 0,
     in_recv_data = None\<rparr>"

definition sample_tcpnet :: tcpnet where
  "sample_tcpnet = timenet.extend sample_timenet
     \<lparr>tcp_mem = Map.empty, tcp_listen_mem = Map.empty, tcp_bound_pcbs = [], tcp_listen_pcbs = None, tcp_active_pcbs = [], tcp_tw_pcbs = [],
      tcp_active_pcbs_changed = False, tcpip_tcp_timer_active = False, tcp_port = 0xc000, tcp_ticks = 0, tcp_timer = 0,
      tcp_timer_ctr = 0, tcp_iss = 6510, tcp_input_pcb = None, tcp_in = sample_tcp_in\<rparr>"

text \<open>Established, with 1000 bytes received, whose sequence numbers wrapped around, and not yet consumed.\<close>

definition sample_pcb :: tcp_pcb where
  "sample_pcb = (new_tcp_pcb TCP_PRIO_NORMAL sample_tcpnet)
     \<lparr>pcb_state := ESTABLISHED, pcb_rcv_nxt := 500, pcb_rcv_wnd := 64535, pcb_rcv_ann_wnd := 64535, pcb_rcv_ann_right_edge := 65035\<rparr>"

lemma sample_pcb_sel:
  "tcp_mem (set_pcb 7 sample_pcb sample_tcpnet) 7 = Some sample_pcb" "pcb_state sample_pcb = ESTABLISHED"
  "pcb_rcv_nxt sample_pcb = 500" "pcb_rcv_wnd sample_pcb = 64535" "pcb_rcv_ann_right_edge sample_pcb = 65035"
  by (simp_all add: set_pcb_def sample_pcb_def)

theorem receive_window_kept_witness:
  "\<exists>c'. receive_advance 1460 sample_pcb = Some c' \<and> rcv_wnd_ok c' \<and> pcb_rcv_nxt c' = 1960 \<and> unat (pcb_rcv_wnd c') = 63075"
  using receive_window_kept [of sample_pcb 1460] by (auto simp: sample_pcb_def rcv_wnd_ok_def)


end
