(* ===== verification/Tcp_Options.thy ===== *)
theory Tcp_Options
  imports Tcp_Window
begin

text \<open>
  The options of a TCP header. \<open>opt_mss\<close> is a reference reading of a list of option bytes; \<^verbatim>\<open>tcp_parseopt\<close>, which reads them one
  by one from one or two pbufs through an index that it moves, is shown to end and to agree with it.
\<close>

definition mss_of :: "u8 \<Rightarrow> u8 \<Rightarrow> u16" where
  "mss_of hi lo = (let mss = push_bit 8 (ucast hi) OR ucast lo in if mss > TCP_MSS \<or> mss = 0 then TCP_MSS else mss)"

lemma mss_of_bounds: "0 < mss_of hi lo" "mss_of hi lo \<le> TCP_MSS"
  by (auto simp: mss_of_def Let_def TCP_MSS_def word_gt_0)

text \<open>What the options of a segment say about the segment size, the default being \<open>m\<close>: the list is read option by
  option up to the end mark or the first option that is malformed.\<close>

function opt_mss :: "bytes \<Rightarrow> u16 \<Rightarrow> u16" where
  "opt_mss [] m = m"
| "opt_mss (k # os) m =
     (if k = 0 then m
      else if k = 1 then opt_mss os m
      else if k = 2 then
        (case os of
           l # hi # lo # os' \<Rightarrow>
             if l = 4 then opt_mss os' (mss_of hi lo) else m
         | _ \<Rightarrow> m)
      else (case os of [] \<Rightarrow> m | l # os' \<Rightarrow> if l < 2 then m else opt_mss (drop (unat l - 2) os') m))"
  by pat_completeness auto
termination
  by (relation "measure (\<lambda>(os, m). length os)") auto

lemma opt_mss_bounds: "0 < m \<Longrightarrow> m \<le> TCP_MSS \<Longrightarrow> 0 < opt_mss os m \<and> opt_mss os m \<le> TCP_MSS"
  by (induction os m rule: opt_mss.induct)
     (auto split: list.splits simp: mss_of_bounds)

text \<open>The option bytes of the current segment: in the first pbuf, or the rest in the second.\<close>

definition optbyte :: "heap \<Rightarrow> tcp_in \<Rightarrow> nat \<Rightarrow> u8 option" where
  "optbyte h t i =
     (if in_opt2 t = None \<or> i < unat (in_opt1len t) then rd8 h (in_tcphdr t) (TCP_HLEN + i)
      else rd8 h (in_opt2 t) (i - unat (in_opt1len t)))"

text \<open>The options are \<open>os\<close>, and the byte behind them can be read.\<close>

definition tcp_options :: "heap \<Rightarrow> tcp_in \<Rightarrow> bytes \<Rightarrow> bool" where
  "tcp_options h t os \<longleftrightarrow> length os = unat (in_optlen t) \<and> length os \<le> 40 \<and>
     (\<forall>i < length os. optbyte h t i = Some (os ! i)) \<and> optbyte h t (length os) \<noteq> None"

lemma tcp_get_next_optbyte_eq:
  assumes "unat (in_optidx t) < 256"
  shows "tcp_get_next_optbyte h t =
    map_option (\<lambda>x. (x, t\<lparr>in_optidx := in_optidx t + 1\<rparr>)) (optbyte h t (unat (in_optidx t)))"
proof -
  let ?i = "in_optidx t" and ?n = "in_opt1len t"
  have "unat (ucast (?i - ?n) :: u8) = unat ?i - unat ?n" if "\<not> ?i < ?n"
    using that assms by (simp add: unsigned_ucast_eq unsigned_take_bit_eq take_bit_nat_eq_self_iff unat_sub not_less word_le_nat_alt)
  then show ?thesis
    by (auto simp: tcp_get_next_optbyte_def optbyte_def Let_def word_less_nat_alt split: Option.bind_split)
qed

lemma optbyte_optidx [simp]: "optbyte h (t\<lparr>in_optidx := i\<rparr>) = optbyte h t"
  by (simp add: optbyte_def fun_eq_iff)

lemma tcp_options_optidx [simp]: "tcp_options h (t\<lparr>in_optidx := i\<rparr>) os = tcp_options h t os"
  by (simp add: tcp_options_def)

lemma unat_plus1_u16: "unat (i :: u16) \<le> 400 \<Longrightarrow> unat (i + 1) = Suc (unat i)"
  by (simp add: unat_word_ariths)

lemma get_in_options:
  assumes "tcp_options h t os" and "unat (in_optidx t) \<le> length os"
  shows "\<exists>x. tcp_get_next_optbyte h t = Some (x, t\<lparr>in_optidx := in_optidx t + 1\<rparr>) \<and>
           (unat (in_optidx t) < length os \<longrightarrow> x = os ! unat (in_optidx t)) \<and> unat (in_optidx t + 1) = Suc (unat (in_optidx t))"
proof -
  have "unat (in_optidx t) \<le> 40"
    using assms by (simp add: tcp_options_def)
  then show ?thesis
    using assms tcp_get_next_optbyte_eq [of t h] unat_plus1_u16 [of "in_optidx t"]
    by (cases "unat (in_optidx t) = length os") (auto simp: tcp_options_def)
qed

text \<open>One pass of the loop for an option with a length, the two bytes read being at hand.\<close>

definition parse_ok :: "nat \<Rightarrow> heap \<Rightarrow> tcp_in \<Rightarrow> tcp_pcb \<Rightarrow> bytes \<Rightarrow> bool" where
  "parse_ok fuel h t c os \<longleftrightarrow>
     (\<exists>k. parseopt_loop fuel h t c =
        Some (t\<lparr>in_optidx := k\<rparr>, c\<lparr>pcb_mss := opt_mss (drop (unat (in_optidx t)) os) (pcb_mss c)\<rparr>))"

lemma drop_eq_ConsD: "drop i os = x # xs \<Longrightarrow> i < length os \<and> x = os ! i \<and> xs = drop (Suc i) os"
  by (metis Cons_nth_drop_Suc drop_all leI list.discI list.inject)

lemma Suc_Suc_minus_2: "\<not> n < 2 \<Longrightarrow> Suc (Suc (n + k - 2)) = k + n"
  by simp

lemma parse_mss:
  assumes t: "tcp_options h t os" and i: "unat (in_optidx t) < length os" and two: "os ! unat (in_optidx t) = 2"
    and IH: "\<And>t c. tcp_options h t os \<Longrightarrow> length os - unat (in_optidx t) < fuel \<Longrightarrow> parse_ok fuel h t c os"
    and fuel: "length os - unat (in_optidx t) < Suc fuel"
  shows "parse_ok (Suc fuel) h t c os"
proof -
  let ?i = "unat (in_optidx t)" and ?t = "\<lambda>k. t\<lparr>in_optidx := in_optidx t + k\<rparr>"
  have lt: "in_optidx t < in_optlen t" and len: "unat (in_optlen t) = length os"
    using t i by (simp_all add: tcp_options_def word_less_nat_alt)
  have g1: "tcp_get_next_optbyte h t = Some (2, ?t 1)" and u1: "unat (in_optidx t + 1) = Suc ?i"
    using get_in_options [OF t] i two by auto
  obtain l where g2: "tcp_get_next_optbyte h (?t 1) = Some (l, ?t 2)" and l: "Suc ?i < length os \<Longrightarrow> l = os ! Suc ?i"
    and u2: "unat (in_optidx t + 2) = Suc (Suc ?i)"
    using get_in_options [of h "?t 1" os] t i u1 by (auto simp: add.assoc)
  have z: "uint (in_optidx t + 2) = uint (in_optidx t) + 2" "uint (in_optlen t) = int (length os)"
    using arg_cong [OF u2, of int] arg_cong [OF len, of int] by simp_all
  have "int (length os) < int (?i + 4) \<longleftrightarrow> \<not> ?i + 4 \<le> length os"
    by (simp only: of_nat_less_iff not_le)
  then have z4: "int (length os) < uint (in_optidx t) + 4 \<longleftrightarrow> \<not> ?i + 4 \<le> length os"
    by simp
  have d: "drop ?i os = 2 # drop (Suc ?i) os"
    using i two by (metis Cons_nth_drop_Suc)
  show ?thesis
  proof (cases "l = 4 \<and> ?i + 4 \<le> length os")
    case True
    then have g3: "tcp_get_next_optbyte h (?t 2) = Some (os ! Suc (Suc ?i), ?t 3)" and u3: "unat (in_optidx t + 3) = Suc (Suc (Suc ?i))"
      using get_in_options [of h "?t 2" os] t u2 by (auto simp: add.assoc)
    then have g4: "tcp_get_next_optbyte h (?t 3) = Some (os ! Suc (Suc (Suc ?i)), ?t 4)" and u4: "unat (in_optidx t + 4) = ?i + 4"
      using get_in_options [of h "?t 3" os] t u3 True by (auto simp: add.assoc)
    have "drop (Suc ?i) os = l # os ! Suc (Suc ?i) # os ! Suc (Suc (Suc ?i)) # drop (?i + 4) os"
      using True l by (simp add: Cons_nth_drop_Suc [symmetric] numeral_eq_Suc)
    then show ?thesis
      using IH [of "?t 4" "c\<lparr>pcb_mss := mss_of (os ! Suc (Suc ?i)) (os ! Suc (Suc (Suc ?i)))\<rparr>"] t fuel i lt len g1 g2 g3 g4 u2 u4 d True
      by (auto simp: parse_ok_def LWIP_TCP_OPT_EOL_def LWIP_TCP_OPT_NOP_def LWIP_TCP_OPT_MSS_def LWIP_TCP_OPT_LEN_MSS_def Let_def mss_of_def z add.commute [of 4] z4)
  next
    case False
    then have "opt_mss (drop ?i os) m = m" for m
      unfolding d using l
      by (auto split: list.splits dest!: drop_eq_ConsD drop_eq_ConsD [OF sym])
    then show ?thesis
      using False lt len g1 g2 u2
      by (auto simp: parse_ok_def LWIP_TCP_OPT_EOL_def LWIP_TCP_OPT_NOP_def LWIP_TCP_OPT_MSS_def LWIP_TCP_OPT_LEN_MSS_def z add.commute [of 4] z4)
  qed
qed

lemma parse_other:
  assumes t: "tcp_options h t os" and i: "unat (in_optidx t) < length os"
    and k: "os ! unat (in_optidx t) \<noteq> 0" "os ! unat (in_optidx t) \<noteq> 1" "os ! unat (in_optidx t) \<noteq> 2"
    and IH: "\<And>t c. tcp_options h t os \<Longrightarrow> length os - unat (in_optidx t) < fuel \<Longrightarrow> parse_ok fuel h t c os"
    and fuel: "length os - unat (in_optidx t) < Suc fuel"
  shows "parse_ok (Suc fuel) h t c os"
proof -
  let ?i = "unat (in_optidx t)" and ?t = "\<lambda>k. t\<lparr>in_optidx := in_optidx t + k\<rparr>"
  have lt: "in_optidx t < in_optlen t" and len: "length os \<le> 40"
    using t i by (simp_all add: tcp_options_def word_less_nat_alt)
  have g1: "tcp_get_next_optbyte h t = Some (os ! ?i, ?t 1)" and u1: "unat (in_optidx t + 1) = Suc ?i"
    using get_in_options [OF t] i by auto
  obtain l where g2: "tcp_get_next_optbyte h (?t 1) = Some (l, ?t 2)" and l: "Suc ?i < length os \<Longrightarrow> l = os ! Suc ?i"
    and u2: "unat (in_optidx t + 2) = Suc (Suc ?i)"
    using get_in_options [of h "?t 1" os] t i u1 by (auto simp: add.assoc)
  have d: "drop ?i os = os ! ?i # drop (Suc ?i) os"
    using i by (metis Cons_nth_drop_Suc)
  show ?thesis
  proof (cases "l < 2")
    case True
    then have "opt_mss (drop ?i os) m = m" for m
      unfolding d using l k by (auto split: list.splits dest!: drop_eq_ConsD)
    then show ?thesis
      using True lt g1 g2 k by (auto simp: parse_ok_def LWIP_TCP_OPT_EOL_def LWIP_TCP_OPT_NOP_def LWIP_TCP_OPT_MSS_def)
  next
    case False
    then have "unat (ucast l - 2 :: u16) = unat l - 2"
      by (subst unat_sub) (auto simp: word_le_nat_alt word_less_nat_alt word_nat)
    then have u: "unat (in_optidx t + 2 + (ucast l - 2)) = ?i + unat l"
      using False u2 i len unat_u8_lt [of l] by (subst unat_add_u16) (auto simp: word_less_nat_alt)
    have "opt_mss (drop ?i os) m = opt_mss (drop (?i + unat l) os) m" for m
      unfolding d using l k False Suc_Suc_minus_2
      by (auto split: list.splits dest!: drop_eq_ConsD simp: word_less_nat_alt)
    then show ?thesis
      using IH [of "?t (2 + (ucast l - 2))" c] u False lt g1 g2 k t fuel i
      by (auto simp: parse_ok_def LWIP_TCP_OPT_EOL_def LWIP_TCP_OPT_NOP_def LWIP_TCP_OPT_MSS_def add.assoc word_less_nat_alt)
  qed
qed

lemma parseopt_loop_ok:
  "tcp_options h t os \<Longrightarrow> length os - unat (in_optidx t) < fuel \<Longrightarrow> parse_ok fuel h t c os"
proof (induction fuel arbitrary: t c)
  case (Suc fuel)
  let ?i = "unat (in_optidx t)"
  consider "\<not> ?i < length os" | "?i < length os" "os ! ?i = 0 \<or> os ! ?i = 1" | "?i < length os" "os ! ?i = 2"
    | "?i < length os" "os ! ?i \<noteq> 0" "os ! ?i \<noteq> 1" "os ! ?i \<noteq> 2"
    by blast
  then show ?case
  proof cases
    case 1
    then show ?thesis
      using Suc.prems by (auto simp: parse_ok_def tcp_options_def word_less_nat_alt intro: exI [of _ "in_optidx t"])
  next
    case 2
    then have "in_optidx t < in_optlen t" "drop ?i os = os ! ?i # drop (Suc ?i) os"
      using Suc.prems by (simp_all add: tcp_options_def word_less_nat_alt Cons_nth_drop_Suc)
    then show ?thesis
      using get_in_options [OF Suc.prems(1)] Suc.IH [of "t\<lparr>in_optidx := in_optidx t + 1\<rparr>" c] Suc.prems 2
      by (auto simp: parse_ok_def LWIP_TCP_OPT_EOL_def LWIP_TCP_OPT_NOP_def)
  qed (use Suc parse_mss parse_other in blast)+
qed simp

lemma tcp_parseopt_ok:
  assumes "tcp_mem s a = Some c" and "tcp_options (net_heap s) (tcp_in s) os"
  shows "\<exists>k. tcp_parseopt a s =
           Some (set_pcb a (c\<lparr>pcb_mss := opt_mss os (pcb_mss c)\<rparr>) (s\<lparr>tcp_in := (tcp_in s)\<lparr>in_optidx := k\<rparr>\<rparr>))"
proof (cases "os = []")
  case True
  then show ?thesis
    using assms by (auto simp: tcp_parseopt_def tcp_options_def set_pcb_def fun_upd_idem word_unat_eq_iff
        intro: exI [of _ "in_optidx (tcp_in s)"])
next
  case False
  then have "unat (in_optlen (tcp_in s)) = length os" "in_optlen (tcp_in s) \<noteq> 0"
    using assms(2) by (auto simp: tcp_options_def)
  then show ?thesis
    using parseopt_loop_ok [of "net_heap s" "(tcp_in s)\<lparr>in_optidx := 0\<rparr>" os "Suc (length os)" c] assms
    by (auto simp: parse_ok_def tcp_parseopt_def)
qed



lemma parseopt_nops:
  assumes "\<forall>i < n. optbyte h t i = Some LWIP_TCP_OPT_NOP" and "n < unat (in_optlen t)" and "n < 256"
    and "unat (in_optidx t) + m = n"
  shows "parseopt_loop (m + fuel) h t c = parseopt_loop fuel h (t\<lparr>in_optidx := in_optidx t + of_nat m\<rparr>) c"
  using assms
proof (induction m arbitrary: t)
  case (Suc m)
  have "unat (in_optidx t + 1) = Suc (unat (in_optidx t))"
    using Suc.prems(3,4) by (intro unat_plus1_u16) simp
  moreover have "tcp_get_next_optbyte h t = Some (LWIP_TCP_OPT_NOP, t\<lparr>in_optidx := in_optidx t + 1\<rparr>)"
    using Suc.prems by (simp add: tcp_get_next_optbyte_eq)
  ultimately show ?case
    using Suc.prems Suc.IH [of "t\<lparr>in_optidx := in_optidx t + 1\<rparr>"]
    by (simp add: LWIP_TCP_OPT_NOP_def LWIP_TCP_OPT_EOL_def word_less_nat_alt add.assoc)
qed simp

text \<open>C36: An option at the very end of the header that lacks its length makes \<^verbatim>\<open>tcp_parseopt\<close> read the byte behind the header; a
  segment without data, whose memory ends there, is read out of bounds.\<close>

theorem tcp_parseopt_overread:
  assumes "tcp_mem s a = Some c" and "unat (in_optlen (tcp_in s)) = Suc n" and "n < 40"
    and "\<forall>i < n. optbyte (net_heap s) (tcp_in s) i = Some LWIP_TCP_OPT_NOP"
    and "optbyte (net_heap s) (tcp_in s) n = Some k" and "k \<noteq> LWIP_TCP_OPT_EOL" and "k \<noteq> LWIP_TCP_OPT_NOP"
    and "optbyte (net_heap s) (tcp_in s) (Suc n) = None"
  shows "tcp_parseopt a s = None"
proof -
  let ?t = "\<lambda>k. (tcp_in s)\<lparr>in_optidx := k\<rparr>" and ?h = "net_heap s"
  have u: "unat (of_nat n :: u16) = n" "unat (of_nat n + 1 :: u16) = Suc n"
    using assms(3) unat_plus1_u16 [of "of_nat n"] by (simp_all add: unat_of_nat)
  have "tcp_get_next_optbyte ?h (?t (of_nat n)) = Some (k, ?t (of_nat n + 1))"
    and "tcp_get_next_optbyte ?h (?t (of_nat n + 1)) = None"
    using assms u by (simp_all add: tcp_get_next_optbyte_eq)
  then have "parseopt_loop 2 ?h (?t (of_nat n)) c = None"
    using assms u by (simp add: numeral_2_eq_2 word_less_nat_alt)
  moreover have "parseopt_loop (n + 2) ?h (?t 0) c = parseopt_loop 2 ?h (?t (of_nat n)) c"
    using assms parseopt_nops [of n ?h "?t 0" n 2 c] by simp
  moreover have "in_optlen (tcp_in s) \<noteq> 0"
    using assms(2) by auto
  ultimately show ?thesis
    using assms by (simp add: tcp_parseopt_def Let_def)
qed

text \<open>A header with the segment size 1452, and one whose last option is cut off; the first has data behind it, with the second
  the memory ends.\<close>

definition sample_options :: "bytes \<Rightarrow> bytes \<Rightarrow> tcpnet" where
  "sample_options os data = set_pcb 7 sample_pcb (sample_tcpnet
     \<lparr>net_heap := ram 3 (replicate 20 0 @ os) data [] empty_heap,
      tcp_in := sample_tcp_in\<lparr>in_tcphdr := Some (3, 0), in_optlen := of_nat (length os), in_opt1len := of_nat (length os)\<rparr>\<rparr>)"

lemma sample_options_sel:
  "tcp_mem (sample_options os data) 7 = Some sample_pcb" "pcb_mss sample_pcb = 536"
  "in_optlen (tcp_in (sample_options os data)) = of_nat (length os)"
  by (simp_all add: sample_options_def set_pcb_def sample_pcb_def new_tcp_pcb_def INITIAL_MSS_def)

lemma nth_slice: "off + n \<le> length xs \<Longrightarrow> i < n \<Longrightarrow> slice off n xs ! i = xs ! (off + i)"
  by (simp add: slice_def)

lemma sample_optbyte:
  "optbyte (net_heap (sample_options os data)) (tcp_in (sample_options os data)) i =
     (if i < length os + length data then Some ((os @ data) ! i) else None)"
proof -
  have "(replicate 20 0 @ os @ data) ! (20 + i) = (os @ data) ! i"
    by (simp add: nth_append)
  then show ?thesis
    by (simp add: optbyte_def sample_options_def set_pcb_def sample_tcp_in_def rd8_def mem_read_def nth_slice TCP_HLEN_def nat_add_distrib)
qed


theorem tcp_parseopt_overread_witness: "tcp_parseopt 7 (sample_options [1, 1, 1, 2] []) = None"
  by (rule tcp_parseopt_overread [OF sample_options_sel(1), where n = 3 and k = 2])
     (auto simp: sample_options_sel sample_optbyte LWIP_TCP_OPT_NOP_def LWIP_TCP_OPT_EOL_def less_Suc_eq numeral_3_eq_3)

end
