(* ===== verification/Tcp_Frame.thy ===== *)
theory Tcp_Frame
  imports Tcp_Input Tcp_Options
begin

text \<open>
  What the functions of TCP leave alone. \<open>ensures\<close> with its rules is a small calculus of postconditions for the option monad;
  \<open>tcp_view\<close> is what a connection looks like from outside: the state and the peer of every control block, and the lists of control
  blocks. Sending, retransmitting, releasing segments and processing acknowledgements and data keep the view; the output
  functions of the IP layer change the part of the state below TCP only.
\<close>

subsection \<open>Reasoning about results\<close>

text \<open>\<open>ensures m Q\<close>: if \<open>m\<close> has a result, it satisfies \<open>Q\<close>. The rules follow the structure of a definition; what is
  known of the memory at a control block is kept, other reads are not of interest.\<close>

definition ensures :: "'r option \<Rightarrow> ('r \<Rightarrow> bool) \<Rightarrow> bool" where
  "ensures m Q \<longleftrightarrow> (\<forall>r. m = Some r \<longrightarrow> Q r)"

named_theorems wp \<open>rules for \<open>ensures\<close>\<close>

lemma ensuresD: "ensures m Q \<Longrightarrow> m = Some r \<Longrightarrow> Q r"
  by (simp add: ensures_def)

lemma ensures_any: "(\<And>x. Q x) \<Longrightarrow> ensures m Q"
  by (simp add: ensures_def)

lemma ensures_basic [wp]:
  "Q r \<Longrightarrow> ensures (Some r) Q"
  "ensures None Q"
  "ensures m (\<lambda>x. ensures (f x) Q) \<Longrightarrow> ensures (m \<bind> f) Q"
  "(\<And>y. y = x \<Longrightarrow> ensures (g y) Q) \<Longrightarrow> ensures (Let x g) Q"
  "ensures m (\<lambda>x. Q (k x)) \<Longrightarrow> ensures (map_option k m) Q"
  by (auto simp: ensures_def bind_eq_Some_conv)

lemma ensures_cases [wp]:
  "(b \<Longrightarrow> ensures m Q) \<Longrightarrow> (\<not> b \<Longrightarrow> ensures m' Q) \<Longrightarrow> ensures (if b then m else m') Q"
  "(o1 = None \<Longrightarrow> ensures m Q) \<Longrightarrow> (\<And>x. o1 = Some x \<Longrightarrow> ensures (k x) Q) \<Longrightarrow> ensures (case o1 of None \<Rightarrow> m | Some x \<Rightarrow> k x) Q"
  "(xs = [] \<Longrightarrow> ensures m Q) \<Longrightarrow> (\<And>y ys. xs = y # ys \<Longrightarrow> ensures (k2 y ys) Q) \<Longrightarrow> ensures (case xs of [] \<Rightarrow> m | y # ys \<Rightarrow> k2 y ys) Q"
  "(\<And>x y. p = (x, y) \<Longrightarrow> ensures (k3 x y) Q) \<Longrightarrow> ensures (case p of (x, y) \<Rightarrow> k3 x y) Q"
  by (auto split: option.splits list.splits prod.splits)

lemma ensures_tcp_mem [wp]: "(\<And>c. tcp_mem s a = Some c \<Longrightarrow> Q c) \<Longrightarrow> ensures (tcp_mem s a) Q"
  by (simp add: ensures_def)

lemma ensures_upd_pcb [wp]:
  "(\<And>c. tcp_mem s a = Some c \<Longrightarrow> Q (set_pcb a (f c) s)) \<Longrightarrow> ensures (upd_pcb a f s) Q"
  by (auto simp: ensures_def upd_pcb_def bind_eq_Some_conv)

subsection \<open>The IP layer\<close>

text \<open>The output functions change the part of the state that belongs to the IP layer and below only.\<close>

lemma netif_loop_output_more: "netif_loop_output r p s = Some (e, s') \<Longrightarrow> net.more s' = net.more s"
  by (auto simp: netif_loop_output_def netif_loop_enqueue_def set_netif_def Let_def bind_eq_Some_conv split: option.splits if_splits prod.splits)

lemma netif_output_func_more: "netif_output_func r p a s = Some (e, s') \<Longrightarrow> net.more s' = net.more s"
  by (auto simp: netif_output_func_def TuntapHelper_Inject_def Let_def bind_eq_Some_conv split: option.splits if_splits prod.splits)

lemma netif_output_more: "netif_output r p a s = Some (e, s') \<Longrightarrow> net.more s' = net.more s"
  by (auto simp: netif_output_def netif_null_output_ip4_def netif_loop_output_ipv4_def
      dest: netif_loop_output_more netif_output_func_more split: netif_output_fn.splits)

lemma frag_send_more: "frag_send p poff l n ofo mf hdr r d s = Some (x, s') \<Longrightarrow> net.more s' = net.more s"
  by (auto simp: frag_send_def Let_def bind_eq_Some_conv simp del: frag_copy_loop.simps dest!: netif_output_more split: option.splits if_split_asm prod.splits)

lemma frag_loop_more: "frag_loop fuel p poff l ofo mf hdr r d s = Some (e, s') \<Longrightarrow> net.more s' = net.more s"
  by (induction fuel arbitrary: p poff l ofo s)
     (auto simp: Let_def bind_eq_Some_conv dest!: frag_send_more split: option.splits if_splits prod.splits)

lemma ip4_frag_more: "ip4_frag p r d s = Some (e, s') \<Longrightarrow> net.more s' = net.more s"
  by (auto simp: ip4_frag_def Let_def bind_eq_Some_conv simp del: frag_loop.simps dest!: frag_loop_more split: if_split_asm)

lemma ip4_transmit_more: "ip4_transmit p d r s = Some (e, s') \<Longrightarrow> net.more s' = net.more s"
  by (auto simp: ip4_transmit_def bind_eq_Some_conv dest!: netif_output_more netif_loop_output_more ip4_frag_more split: if_split_asm)

lemma ip4_output_if_src_more: "ip4_output_if_src p src dest ttl tos proto r s = Some (e, s') \<Longrightarrow> net.more s' = net.more s"
  by (auto simp: ip4_output_if_src_def Let_def bind_eq_Some_conv dest!: ip4_transmit_more split: option.splits if_split_asm prod.splits)

lemma ip4_output_if_more: "ip4_output_if p src dest ttl tos proto r s = Some (e, s') \<Longrightarrow> net.more s' = net.more s"
  by (simp add: ip4_output_if_def Let_def ip4_output_if_src_more)


subsection \<open>What sending keeps\<close>

text \<open>What identifies a control block: its state and the peer. The lists of control blocks belong to the view.\<close>

definition pcb_key :: "tcp_pcb \<Rightarrow> tcp_state \<times> u16 \<times> u32 \<times> u16" where
  "pcb_key c = (pcb_state c, pcb_local_port c, pcb_remote_ip c, pcb_remote_port c)"

definition keys :: "'a tcpnet_scheme \<Rightarrow> addr \<Rightarrow> (tcp_state \<times> u16 \<times> u32 \<times> u16) option" where
  "keys s = (\<lambda>b. map_option pcb_key (tcp_mem s b))"

definition tcp_lists :: "'a tcpnet_scheme \<Rightarrow> addr list \<times> addr list \<times> addr list \<times> addr option \<times> (addr \<Rightarrow> tcp_pcb_listen option)" where
  "tcp_lists s = (tcp_active_pcbs s, tcp_tw_pcbs s, tcp_bound_pcbs s, tcp_listen_pcbs s, tcp_listen_mem s)"

definition tcp_view where
  "tcp_view s = (keys s, tcp_lists s)"

lemma tcp_view_more: "net.more s' = net.more s \<Longrightarrow> tcp_view s' = tcp_view s"
  by (cases s; cases s') (simp add: tcp_view_def keys_def tcp_lists_def)

lemma tcp_view_upd [simp]:
  "tcp_view (s\<lparr>net_heap := h\<rparr>) = tcp_view s" "tcp_view (s\<lparr>tcp_in := t\<rparr>) = tcp_view s" "tcp_view (s\<lparr>tcp_input_pcb := p\<rparr>) = tcp_view s"
  "tcp_view (upd_in f s) = tcp_view s"
  by (simp_all add: tcp_view_def keys_def tcp_lists_def upd_in_def)

lemma pcb_key_flags [simp]:
  "pcb_key (tcp_set_flags fl c) = pcb_key c" "pcb_key (tcp_clear_flags fl c) = pcb_key c" "pcb_key (tcp_ack_now c) = pcb_key c"
  "pcb_key (tcp_ack c) = pcb_key c"
  by (simp_all add: pcb_key_def tcp_set_flags_def tcp_clear_flags_def tcp_ack_now_def tcp_ack_def)

lemma pcb_state_flags [simp]:
  "pcb_state (tcp_set_flags fl c) = pcb_state c" "pcb_state (tcp_clear_flags fl c) = pcb_state c" "pcb_state (tcp_ack_now c) = pcb_state c"
  "pcb_state (tcp_ack c) = pcb_state c"
  by (simp_all add: tcp_set_flags_def tcp_clear_flags_def tcp_ack_now_def tcp_ack_def)

lemma tcp_mem_set_pcb [simp]: "tcp_mem (set_pcb a c s) = (tcp_mem s)(a \<mapsto> c)" "net_heap (set_pcb a c s) = net_heap s"
  "tcp_in (set_pcb a c s) = tcp_in s" "netifs (set_pcb a c s) = netifs s" "tcp_ticks (set_pcb a c s) = tcp_ticks s"
  by (simp_all add: set_pcb_def)

lemma keys_upd [simp]:
  "keys (s\<lparr>net_heap := h\<rparr>) = keys s" "keys (s\<lparr>tcp_in := t\<rparr>) = keys s" "keys (s\<lparr>tcp_input_pcb := p\<rparr>) = keys s"
  "keys (upd_in f s) = keys s" "keys (set_pcb a c s) = (keys s)(a \<mapsto> pcb_key c)"
  by (auto simp: keys_def upd_in_def fun_eq_iff)

lemma keys_Some [simp]: "tcp_mem s a = Some c \<Longrightarrow> keys s a = Some (pcb_key c)"
  by (simp add: keys_def)

lemma tcp_view_set_pcb [simp]: "keys s a = Some (pcb_key c) \<Longrightarrow> tcp_view (set_pcb a c s) = tcp_view s"
  by (auto simp: tcp_view_def tcp_lists_def keys_def set_pcb_def fun_eq_iff)

lemma upd_in_sel [simp]: "tcp_mem (upd_in f s) = tcp_mem s" "net_heap (upd_in f s) = net_heap s" "tcp_in (upd_in f s) = f (tcp_in s)"
  by (simp_all add: upd_in_def)

lemma set_pcb_twice [simp]: "set_pcb a c (set_pcb a c' s) = set_pcb a c s"
  by (simp add: set_pcb_def)

lemma pcb_key_if [simp]: "pcb_key (if b then c else c') = (if b then pcb_key c else pcb_key c')"
  by simp

lemma pcb_key_upd [simp]:
  "pcb_key (c\<lparr>pcb_local_ip := v1\<rparr>) = pcb_key c" "pcb_key (c\<lparr>pcb_netif_idx := v2\<rparr>) = pcb_key c"
  "pcb_key (c\<lparr>pcb_so_options := v3\<rparr>) = pcb_key c" "pcb_key (c\<lparr>pcb_tos := v4\<rparr>) = pcb_key c"
  "pcb_key (c\<lparr>pcb_ttl := v5\<rparr>) = pcb_key c" "pcb_key (c\<lparr>pcb_callback_arg := v6\<rparr>) = pcb_key c"
  "pcb_key (c\<lparr>pcb_prio := v7\<rparr>) = pcb_key c" "pcb_key (c\<lparr>pcb_flags := v8\<rparr>) = pcb_key c"
  "pcb_key (c\<lparr>pcb_polltmr := v9\<rparr>) = pcb_key c" "pcb_key (c\<lparr>pcb_pollinterval := v10\<rparr>) = pcb_key c"
  "pcb_key (c\<lparr>pcb_last_timer := v11\<rparr>) = pcb_key c" "pcb_key (c\<lparr>pcb_tmr := v12\<rparr>) = pcb_key c"
  "pcb_key (c\<lparr>pcb_rcv_nxt := v13\<rparr>) = pcb_key c" "pcb_key (c\<lparr>pcb_rcv_wnd := v14\<rparr>) = pcb_key c"
  "pcb_key (c\<lparr>pcb_rcv_ann_wnd := v15\<rparr>) = pcb_key c" "pcb_key (c\<lparr>pcb_rcv_ann_right_edge := v16\<rparr>) = pcb_key c"
  "pcb_key (c\<lparr>pcb_rtime := v17\<rparr>) = pcb_key c" "pcb_key (c\<lparr>pcb_mss := v18\<rparr>) = pcb_key c"
  "pcb_key (c\<lparr>pcb_rttest := v19\<rparr>) = pcb_key c" "pcb_key (c\<lparr>pcb_rtseq := v20\<rparr>) = pcb_key c"
  "pcb_key (c\<lparr>pcb_sa := v21\<rparr>) = pcb_key c" "pcb_key (c\<lparr>pcb_sv := v22\<rparr>) = pcb_key c"
  "pcb_key (c\<lparr>pcb_rto := v23\<rparr>) = pcb_key c" "pcb_key (c\<lparr>pcb_nrtx := v24\<rparr>) = pcb_key c"
  "pcb_key (c\<lparr>pcb_dupacks := v25\<rparr>) = pcb_key c" "pcb_key (c\<lparr>pcb_lastack := v26\<rparr>) = pcb_key c"
  "pcb_key (c\<lparr>pcb_cwnd := v27\<rparr>) = pcb_key c" "pcb_key (c\<lparr>pcb_ssthresh := v28\<rparr>) = pcb_key c"
  "pcb_key (c\<lparr>pcb_rto_end := v29\<rparr>) = pcb_key c" "pcb_key (c\<lparr>pcb_snd_nxt := v30\<rparr>) = pcb_key c"
  "pcb_key (c\<lparr>pcb_snd_wl1 := v31\<rparr>) = pcb_key c" "pcb_key (c\<lparr>pcb_snd_wl2 := v32\<rparr>) = pcb_key c"
  "pcb_key (c\<lparr>pcb_snd_lbb := v33\<rparr>) = pcb_key c" "pcb_key (c\<lparr>pcb_snd_wnd := v34\<rparr>) = pcb_key c"
  "pcb_key (c\<lparr>pcb_snd_wnd_max := v35\<rparr>) = pcb_key c" "pcb_key (c\<lparr>pcb_snd_buf := v36\<rparr>) = pcb_key c"
  "pcb_key (c\<lparr>pcb_snd_queuelen := v37\<rparr>) = pcb_key c" "pcb_key (c\<lparr>pcb_unsent_oversize := v38\<rparr>) = pcb_key c"
  "pcb_key (c\<lparr>pcb_bytes_acked := v39\<rparr>) = pcb_key c" "pcb_key (c\<lparr>pcb_unsent := v40\<rparr>) = pcb_key c"
  "pcb_key (c\<lparr>pcb_unacked := v41\<rparr>) = pcb_key c" "pcb_key (c\<lparr>pcb_ooseq := v42\<rparr>) = pcb_key c"
  "pcb_key (c\<lparr>pcb_refused_data := v43\<rparr>) = pcb_key c" "pcb_key (c\<lparr>pcb_listener := v44\<rparr>) = pcb_key c"
  "pcb_key (c\<lparr>pcb_sent := v45\<rparr>) = pcb_key c" "pcb_key (c\<lparr>pcb_recv := v46\<rparr>) = pcb_key c"
  "pcb_key (c\<lparr>pcb_connected := v47\<rparr>) = pcb_key c" "pcb_key (c\<lparr>pcb_poll := v48\<rparr>) = pcb_key c"
  "pcb_key (c\<lparr>pcb_errf := v49\<rparr>) = pcb_key c" "pcb_key (c\<lparr>pcb_keep_idle := v50\<rparr>) = pcb_key c"
  "pcb_key (c\<lparr>pcb_persist_cnt := v51\<rparr>) = pcb_key c" "pcb_key (c\<lparr>pcb_persist_backoff := v52\<rparr>) = pcb_key c"
  "pcb_key (c\<lparr>pcb_persist_probe := v53\<rparr>) = pcb_key c" "pcb_key (c\<lparr>pcb_keep_cnt_sent := v54\<rparr>) = pcb_key c"
  by (simp_all add: pcb_key_def)

text \<open>An operation that keeps the view.\<close>

definition keeps :: "'a tcpnet_scheme \<Rightarrow> ('r \<times> 'a tcpnet_scheme) option \<Rightarrow> bool" where
  "keeps s m \<longleftrightarrow> ensures m (\<lambda>(r, s'). tcp_view s' = tcp_view s)"

definition keeps' :: "'a tcpnet_scheme \<Rightarrow> 'a tcpnet_scheme option \<Rightarrow> bool" where
  "keeps' s m \<longleftrightarrow> ensures m (\<lambda>s'. tcp_view s' = tcp_view s)"

lemma ensures_keeps: "keeps s m \<Longrightarrow> (\<And>r s'. tcp_view s' = tcp_view s \<Longrightarrow> Q (r, s')) \<Longrightarrow> ensures m Q"
  by (auto simp: keeps_def ensures_def)

lemma ensures_keeps': "keeps' s m \<Longrightarrow> (\<And>s'. tcp_view s' = tcp_view s \<Longrightarrow> Q s') \<Longrightarrow> ensures m Q"
  by (auto simp: keeps'_def ensures_def)

lemma keeps_ip4_output_if: "keeps s (ip4_output_if p src dest ttl tos proto r s)"
  by (auto simp: keeps_def ensures_def dest: ip4_output_if_more [THEN tcp_view_more])

lemmas ip4_output_if_wp [wp] = keeps_ip4_output_if [THEN ensures_keeps]

lemma keeps_control_segment: "keeps s (tcp_output_control_segment pcb p src dst s)"
  unfolding keeps_def tcp_output_control_segment_def
  by ((rule wp)+ | rule ensures_any | simp)+

lemmas control_segment_wp [wp] = keeps_control_segment [THEN ensures_keeps]

lemma keeps_tcp_rst: "keeps' s (tcp_rst pcb seqno ackno l r lp rp s)"
  unfolding keeps'_def tcp_rst_def
  by ((rule wp)+ | rule ensures_any | simp)+

lemmas tcp_rst_wp [wp] = keeps_tcp_rst [THEN ensures_keeps']

lemma keeps_alloc_header: "keeps s (tcp_output_alloc_header a optlen datalen seqno s)"
  unfolding keeps_def tcp_output_alloc_header_def
  by ((rule wp)+ | rule ensures_any | simp)+

lemmas alloc_header_wp [wp] = keeps_alloc_header [THEN ensures_keeps]

lemma keeps_send_empty_ack: "keeps s (tcp_send_empty_ack a s)"
  unfolding keeps_def tcp_send_empty_ack_def
  by ((rule wp)+ | rule ensures_any | simp)+

lemmas send_empty_ack_wp [wp] = keeps_send_empty_ack [THEN ensures_keeps]

lemma keeps_output_segment: "keeps s (tcp_output_segment seg a r s)"
  unfolding keeps_def tcp_output_segment_def
  by ((rule wp)+ | rule ensures_any | simp)+

lemmas output_segment_wp [wp] = keeps_output_segment [THEN ensures_keeps]

lemma keeps_output_sent: "keeps' s (output_sent a seg rest s)"
  unfolding keeps'_def output_sent_def
  by ((rule wp)+ | rule ensures_any | simp)+

lemmas output_sent_wp [wp] = keeps_output_sent [THEN ensures_keeps']

lemma keeps_output_loop: "keeps s (tcp_output_loop segs a r wnd s)"
proof (induction segs arbitrary: s)
  case (Cons seg segs)
  show ?case
    unfolding keeps_def tcp_output_loop.simps
    by ((rule wp Cons.IH [THEN ensures_keeps])+ | rule ensures_any | simp)+
qed (simp add: keeps_def ensures_def)

lemmas output_loop_wp [wp] = keeps_output_loop [THEN ensures_keeps]

lemma keeps_output_done: "keeps s (output_done a s)"
  unfolding keeps_def output_done_def
  by ((rule wp)+ | rule ensures_any | simp)+

lemmas output_done_wp [wp] = keeps_output_done [THEN ensures_keeps]

lemma keeps_tcp_output: "keeps s (tcp_output a s)"
  unfolding keeps_def tcp_output_def
  by ((rule wp)+ | rule ensures_any | simp)+

lemmas tcp_output_wp [wp] = keeps_tcp_output [THEN ensures_keeps]

subsection \<open>Retransmission and release\<close>

lemma keeps_rexmit_rto_prepare: "keeps s (tcp_rexmit_rto_prepare a s)"
  unfolding keeps_def tcp_rexmit_rto_prepare_def
  by ((rule wp)+ | rule ensures_any | simp)+

lemmas rexmit_rto_prepare_wp [wp] = keeps_rexmit_rto_prepare [THEN ensures_keeps]

lemma keeps_rexmit_rto_commit: "keeps' s (tcp_rexmit_rto_commit a s)"
  unfolding keeps'_def tcp_rexmit_rto_commit_def
  by ((rule wp)+ | rule ensures_any | simp)+

lemmas rexmit_rto_commit_wp [wp] = keeps_rexmit_rto_commit [THEN ensures_keeps']

lemma keeps_rexmit_rto: "keeps' s (tcp_rexmit_rto a s)"
  unfolding keeps'_def tcp_rexmit_rto_def
  by ((rule wp)+ | rule ensures_any | simp)+

lemmas rexmit_rto_wp [wp] = keeps_rexmit_rto [THEN ensures_keeps']

lemma keeps_rexmit: "keeps s (tcp_rexmit a s)"
  unfolding keeps_def tcp_rexmit_def
  by ((rule wp)+ | rule ensures_any | simp)+

lemmas rexmit_wp [wp] = keeps_rexmit [THEN ensures_keeps]

lemma keeps_rexmit_fast: "keeps' s (tcp_rexmit_fast a s)"
  unfolding keeps'_def tcp_rexmit_fast_def Let_def
  by ((rule wp)+ | rule ensures_any | simp)+

lemmas rexmit_fast_wp [wp] = keeps_rexmit_fast [THEN ensures_keeps']

lemma keeps_free_ooseq: "keeps' s (tcp_free_ooseq a s)"
  unfolding keeps'_def tcp_free_ooseq_def
  by ((rule wp)+ | rule ensures_any | simp)+

lemmas free_ooseq_wp [wp] = keeps_free_ooseq [THEN ensures_keeps']

lemma keeps_pcb_purge: "keeps' s (tcp_pcb_purge a s)"
  unfolding keeps'_def tcp_pcb_purge_def
  by ((rule wp)+ | rule ensures_any | simp)+

lemmas pcb_purge_wp [wp] = keeps_pcb_purge [THEN ensures_keeps']

subsection \<open>Receiving\<close>

lemma keeps_rst_reply: "keeps' s (rst_reply pcb s)"
  unfolding keeps'_def rst_reply_def
  by ((rule wp)+ | rule ensures_any | simp)+

lemmas rst_reply_wp [wp] = keeps_rst_reply [THEN ensures_keeps']

lemma parseopt_loop_key: "ensures (parseopt_loop fuel h t c) (\<lambda>(t', c'). pcb_key c' = pcb_key c)"
proof (induction fuel arbitrary: t c)
  case (Suc fuel)
  have IH: "(\<And>t' c'. pcb_key c' = pcb_key c \<Longrightarrow> Q (t', c')) \<Longrightarrow> ensures (parseopt_loop fuel h t c) Q" for t c Q
    using Suc.IH [of t c] by (auto simp: ensures_def)
  show ?case
    unfolding parseopt_loop.simps by ((rule wp IH)+ | rule ensures_any | simp)+
qed (simp add: ensures_def)

lemma parseopt_loop_wp [wp]:
  "(\<And>t' c'. pcb_key c' = pcb_key c \<Longrightarrow> Q (t', c')) \<Longrightarrow> ensures (parseopt_loop fuel h t c) Q"
  using parseopt_loop_key [of fuel h t c] by (auto simp: ensures_def)

lemma free_acked_key:
  "ensures (tcp_free_acked_segments ackno segs n c h) (\<lambda>(segs', n', c', h'). pcb_key c' = pcb_key c)"
proof (induction segs arbitrary: n c h)
  case (Cons seg segs)
  have IH: "(\<And>segs' n' c' h'. pcb_key c' = pcb_key c \<Longrightarrow> Q (segs', n', c', h')) \<Longrightarrow>
      ensures (tcp_free_acked_segments ackno segs n c h) Q" for n c h Q
    using Cons.IH [of n c h] by (auto simp: ensures_def)
  show ?case
    unfolding tcp_free_acked_segments.simps by ((rule wp IH)+ | rule ensures_any | simp)+
qed (simp add: ensures_def)

lemma free_acked_wp [wp]:
  "(\<And>segs' n' c' h'. pcb_key c' = pcb_key c \<Longrightarrow> Q (segs', n', c', h')) \<Longrightarrow> ensures (tcp_free_acked_segments ackno segs n c h) Q"
  using free_acked_key [of ackno segs n c h] by (auto simp: ensures_def)

lemma receive_advance_wp [wp]: "(\<And>c'. pcb_key c' = pcb_key c \<Longrightarrow> Q c') \<Longrightarrow> ensures (receive_advance len c) Q"
  by (auto simp: ensures_def receive_advance_def tcp_update_rcv_ann_wnd_def Let_def split: if_split_asm)

lemma pcb_key_receive [simp]:
  "pcb_key (receive_snd_wnd t wnd c) = pcb_key c" "pcb_key (receive_cwnd n c) = pcb_key c" "pcb_key (receive_rtt ticks ackno c) = pcb_key c"
  by (simp_all add: receive_snd_wnd_def receive_cwnd_def receive_rtt_def Let_def)

lemma keeps_parseopt: "keeps' s (tcp_parseopt a s)"
  unfolding keeps'_def tcp_parseopt_def
  by ((rule wp)+ | rule ensures_any | simp)+

lemmas parseopt_wp [wp] = keeps_parseopt [THEN ensures_keeps']

lemma keeps_receive_dupack: "keeps' s (receive_dupack a e s)"
  unfolding keeps'_def receive_dupack_def
  by ((rule wp)+ | rule ensures_any | simp)+

lemmas receive_dupack_wp [wp] = keeps_receive_dupack [THEN ensures_keeps']

lemma keeps_receive_new_ack: "keeps' s (receive_new_ack a s)"
  unfolding keeps'_def receive_new_ack_def
  by ((rule wp)+ | rule ensures_any | simp)+

lemmas receive_new_ack_wp [wp] = keeps_receive_new_ack [THEN ensures_keeps']

lemma keeps_receive_ack: "keeps' s (receive_ack a s)"
  unfolding keeps'_def receive_ack_def
  by ((rule wp)+ | rule ensures_any | simp)+

lemmas receive_ack_wp [wp] = keeps_receive_ack [THEN ensures_keeps']

lemma keeps_receive_trim_front: "keeps' s (receive_trim_front a s)"
  unfolding keeps'_def receive_trim_front_def
  by ((rule wp)+ | rule ensures_any | simp)+

lemmas receive_trim_front_wp [wp] = keeps_receive_trim_front [THEN ensures_keeps']

lemma keeps_inseg_shorten: "keeps' s (inseg_shorten l e s)"
  unfolding keeps'_def inseg_shorten_def
  by ((rule wp)+ | rule ensures_any | simp)+

lemmas inseg_shorten_wp [wp] = keeps_inseg_shorten [THEN ensures_keeps']

lemma keeps_receive_fit_window: "keeps' s (receive_fit_window a s)"
  unfolding keeps'_def receive_fit_window_def
  by ((rule wp)+ | rule ensures_any | simp)+

lemmas receive_fit_window_wp [wp] = keeps_receive_fit_window [THEN ensures_keeps']

lemma keeps_receive_fit_ooseq: "keeps' s (receive_fit_ooseq a s)"
  unfolding keeps'_def receive_fit_ooseq_def
  by ((rule wp)+ | rule ensures_any | simp)+

lemmas receive_fit_ooseq_wp [wp] = keeps_receive_fit_ooseq [THEN ensures_keeps']

lemma keeps_receive_outseq: "keeps' s (receive_outseq a s)"
  unfolding keeps'_def receive_outseq_def
  by ((rule wp)+ | rule ensures_any | simp)+

lemmas receive_outseq_wp [wp] = keeps_receive_outseq [THEN ensures_keeps']

end
