(* ===== verification/Tcp_States.thy ===== *)
theory Tcp_States
  imports Tcp_Frame
begin

text \<open>
  The TCP state machine: the transitions a segment can cause are the relation \<open>tcp_step\<close>, and \<^verbatim>\<open>tcp_process\<close> is shown to follow it
  and to keep the lists of control blocks in order.
\<close>

subsection \<open>State changes\<close>

text \<open>The view with a control block in another state.\<close>

definition upd_view ::
  "addr \<Rightarrow> tcp_state \<times> 'i \<Rightarrow> (addr \<Rightarrow> (tcp_state \<times> 'i) option) \<times> 'l \<Rightarrow> (addr \<Rightarrow> (tcp_state \<times> 'i) option) \<times> 'l" where
  "upd_view a k v = ((fst v)(a \<mapsto> k), snd v)"

lemma upd_view_simps [simp]:
  "upd_view a k (upd_view a k' v) = upd_view a k v" "fst (upd_view a k v) = (fst v)(a \<mapsto> k)" "snd (upd_view a k v) = snd v"
  "fst v a = Some k \<Longrightarrow> upd_view a k v = v"
  by (auto simp: upd_view_def prod_eq_iff)

lemma tcp_view_set: "tcp_view (set_pcb a c s) = upd_view a (pcb_key c) (tcp_view s)"
  by (simp add: tcp_view_def upd_view_def tcp_lists_def set_pcb_def keys_def fun_eq_iff)

lemma fst_tcp_view: "tcp_mem s a = Some c \<Longrightarrow> fst (tcp_view s) a = Some (pcb_key c)"
  by (simp add: tcp_view_def)

lemma tcp_view_mem:
  "tcp_mem s a = Some c \<Longrightarrow> tcp_view s = v \<Longrightarrow> fst v a = Some (st, i) \<Longrightarrow> pcb_state c = st \<and> pcb_key c = (st, i)"
  by (auto simp: tcp_view_def keys_def pcb_key_def)

lemma pcb_key_state [simp]: "pcb_key (c\<lparr>pcb_state := st\<rparr>) = (st, snd (pcb_key c))"
  by (simp add: pcb_key_def)

lemma pcb_state_key: "pcb_state c = fst (pcb_key c)"
  by (simp add: pcb_key_def)

definition fin_step :: "tcp_state \<Rightarrow> tcp_state \<Rightarrow> bool" where
  "fin_step st st' \<longleftrightarrow> st' = st \<or> st = ESTABLISHED \<and> st' = CLOSE_WAIT"

lemma fin_step_simps [simp]: "fin_step st st" "fin_step ESTABLISHED CLOSE_WAIT"
  by (simp_all add: fin_step_def)

definition moved :: "(tcp_state \<Rightarrow> tcp_state \<Rightarrow> bool) \<Rightarrow> addr \<Rightarrow> 'a tcpnet_scheme \<Rightarrow> 'a tcpnet_scheme \<Rightarrow> bool" where
  "moved R a s s' \<longleftrightarrow>
     (\<exists>st st' i. fst (tcp_view s) a = Some (st, i) \<and> R st st' \<and> tcp_view s' = upd_view a (st', i) (tcp_view s))"

lemma moved_same: "tcp_view s' = tcp_view s \<Longrightarrow> fst (tcp_view s) a \<noteq> None \<Longrightarrow> moved fin_step a s s'"
  by (auto simp: moved_def intro!: exI [of _ "fst (the (fst (tcp_view s) a))"])

lemma moved_set:
  assumes "tcp_view s1 = tcp_view s" and "tcp_mem s a = Some c" and "R (fst (pcb_key c)) (fst (pcb_key c'))" and "snd (pcb_key c') = snd (pcb_key c)"
  shows "moved R a s (set_pcb a c' s1)"
  using assms fst_tcp_view [of s a c] unfolding moved_def tcp_view_set by (cases "pcb_key c'") (auto simp: pcb_key_def)

lemma moved_trans:
  assumes "moved R a s s1" and "moved R' a s1 s2" and "\<And>st st1 st2. R st st1 \<Longrightarrow> R' st1 st2 \<Longrightarrow> R'' st st2"
  shows "moved R'' a s s2"
proof -
  obtain st st1 i where 1: "fst (tcp_view s) a = Some (st, i)" "R st st1" "tcp_view s1 = upd_view a (st1, i) (tcp_view s)"
    using assms(1) unfolding moved_def by blast
  obtain st2 where "R' st1 st2" "tcp_view s2 = upd_view a (st2, i) (tcp_view s1)"
    using assms(2) 1(3) by (auto simp: moved_def simp del: upd_view_simps(4))
  then show ?thesis
    using 1 assms(3) unfolding moved_def by fastforce
qed

lemma fin_step_trans: "fin_step st st1 \<Longrightarrow> fin_step st1 st2 \<Longrightarrow> fin_step st st2"
  by (auto simp: fin_step_def)

lemma moved_fin_trans: "moved fin_step a s s1 \<Longrightarrow> moved fin_step a s1 s2 \<Longrightarrow> moved fin_step a s s2"
  by (erule moved_trans, assumption, rule fin_step_trans)

lemma moved_present: "moved R a s s1 \<Longrightarrow> fst (tcp_view s1) a \<noteq> None"
  by (auto simp: moved_def)

lemma moved_view: "moved R a s1 s2 \<Longrightarrow> tcp_view s1 = tcp_view s \<Longrightarrow> moved R a s s2"
  by (simp add: moved_def)

lemma ooseq_drain_step:
  "fst (tcp_view s) a \<noteq> None \<Longrightarrow> ensures (ooseq_drain segs a s) (moved fin_step a s)"
proof (induction segs arbitrary: s)
  case (Cons seg segs)
  have IH: "ensures (ooseq_drain segs a s1) (moved fin_step a s)" if "moved fin_step a s s1" for s1
    using Cons.IH [OF moved_present [OF that]] moved_fin_trans [OF that] by (auto simp: ensures_def)
  show ?case
    unfolding ooseq_drain.simps 
    by ((rule wp IH moved_set moved_same)+ | rule ensures_any | simp add: fst_tcp_view pcb_state_key fin_step_def)+
qed (simp add: ensures_def moved_same)

lemma ooseq_drain_wp:
  "moved fin_step a s s1 \<Longrightarrow> (\<And>s2. moved fin_step a s s2 \<Longrightarrow> Q s2) \<Longrightarrow> ensures (ooseq_drain segs a s1) Q"
  using ooseq_drain_step [OF moved_present] moved_fin_trans by (fastforce simp: ensures_def)

lemma moved_right: "moved R a s s1 \<Longrightarrow> tcp_view s2 = tcp_view s1 \<Longrightarrow> moved R a s s2"
  by (simp add: moved_def)

lemma receive_inseq_step:
  assumes "fst (tcp_view s) a \<noteq> None"
  shows "ensures (receive_inseq a s) (moved fin_step a s)"
  unfolding receive_inseq_def
  by ((rule wp ooseq_drain_wp)+ | (erule moved_right) | rule moved_same | rule ensures_any | simp add: assms)+

lemma receive_data_step:
  assumes "fst (tcp_view s) a \<noteq> None"
  shows "ensures (receive_data a s) (moved fin_step a s)"
proof -
  have *: "ensures (receive_inseq a s1) (moved fin_step a s)" if "tcp_view s1 = tcp_view s" for s1
    using receive_inseq_step [of s1 a] that assms by (auto simp: ensures_def moved_def)
  show ?thesis
    unfolding receive_data_def
    by ((rule wp *)+ | rule moved_same | rule ensures_any | simp add: assms)+
qed

lemma tcp_receive_step:
  assumes "fst (tcp_view s) a \<noteq> None"
  shows "ensures (tcp_receive a s) (moved fin_step a s)"
proof -
  have *: "ensures (receive_data a s1) (moved fin_step a s)" if "tcp_view s1 = tcp_view s" for s1
    using receive_data_step [of s1 a] that assms by (auto simp: ensures_def moved_def)
  show ?thesis
    unfolding tcp_receive_def
    by ((rule wp *)+ | rule moved_same | rule ensures_any | simp add: assms)+
qed

subsection \<open>The state diagram\<close>

text \<open>The transitions that a segment can cause.\<close>

inductive tcp_step :: "tcp_state \<Rightarrow> tcp_state \<Rightarrow> bool" where
  stay: "tcp_step st st"
| connected: "tcp_step SYN_SENT ESTABLISHED"
| accepted: "tcp_step SYN_RCVD ESTABLISHED"
| accepted_fin: "tcp_step SYN_RCVD CLOSE_WAIT"
| peer_fin: "tcp_step ESTABLISHED CLOSE_WAIT"
| fin_acked: "tcp_step FIN_WAIT_1 FIN_WAIT_2"
| both_fin: "tcp_step FIN_WAIT_1 CLOSING"
| both_fin_acked: "tcp_step FIN_WAIT_1 TIME_WAIT"
| last_fin: "tcp_step FIN_WAIT_2 TIME_WAIT"
| closing_acked: "tcp_step CLOSING TIME_WAIT"

inductive_simps tcp_step_iff: "tcp_step st st'"

text \<open>A control block that enters \<^verbatim>\<open>TIME_WAIT\<close> changes its list.\<close>

definition retire where
  "retire a v =
     (case v of (k, act, tw, rest) \<Rightarrow> (k(a \<mapsto> (TIME_WAIT, snd (the (k a)))), remove1 a act, a # tw, rest))"

definition stepped :: "addr \<Rightarrow> 'a tcpnet_scheme \<Rightarrow> 'a tcpnet_scheme \<Rightarrow> bool" where
  "stepped a s s' \<longleftrightarrow>
     (\<exists>st st' i. fst (tcp_view s) a = Some (st, i) \<and> tcp_step st st' \<and>
        tcp_view s' = (if st' = TIME_WAIT \<and> st \<noteq> TIME_WAIT then retire a (tcp_view s) else upd_view a (st', i) (tcp_view s)))"

lemma tcp_view_sys_timeout: "sys_timeout m f x s = Some s' \<Longrightarrow> tcp_view s' = tcp_view s"
  by (auto simp: sys_timeout_def sys_timeout_abs_def tcp_view_def keys_def tcp_lists_def split: if_split_asm prod.splits option.splits)

lemma enter_time_wait_view: "ensures (enter_time_wait a s) (\<lambda>s'. tcp_view s' = retire a (tcp_view s))"
proof -
  have *: "tcp_view s' = retire a (tcp_view s1)"
    if "tcp_timer_needed (s1\<lparr>tcp_active_pcbs := remove1 a (tcp_active_pcbs s1), tcp_active_pcbs_changed := True,
          tcp_mem := (tcp_mem s1)(a \<mapsto> c\<lparr>pcb_state := TIME_WAIT\<rparr>), tcp_tw_pcbs := a # tcp_tw_pcbs s1\<rparr>) = Some s'"
      and "tcp_mem s1 a = Some c" for s1 s' c
    using that keys_Some [OF that(2)]
    by (auto simp: tcp_timer_needed_def tcp_view_def keys_def tcp_lists_def retire_def fun_eq_iff
        dest!: tcp_view_sys_timeout split: if_split_asm)
  show ?thesis
    using keeps_pcb_purge [of s a]
    by (auto simp: ensures_def enter_time_wait_def keeps'_def TCP_RMV_ACTIVE_def TCP_RMV_def TCP_REG_def upd_pcb_def bind_eq_Some_conv set_pcb_def
        dest!: *)
qed

lemma moved_mem:
  assumes "moved R a s s1" and "tcp_mem s1 a = Some c"
  shows "\<exists>st i. fst (tcp_view s) a = Some (st, i) \<and> R st (pcb_state c) \<and> pcb_key c = (pcb_state c, i) \<and>
           tcp_view s1 = upd_view a (pcb_key c) (tcp_view s)"
  using assms fst_tcp_view [OF assms(2)] by (cases "pcb_key c") (auto simp: moved_def pcb_state_key)

lemma tcp_receive_wp:
  "fst (tcp_view s) a \<noteq> None \<Longrightarrow> (\<And>s'. moved fin_step a s s' \<Longrightarrow> Q s') \<Longrightarrow> ensures (tcp_receive a s) Q"
  using tcp_receive_step [of s a] by (auto simp: ensures_def)

lemma enter_time_wait_wp [wp]:
  "(\<And>s'. tcp_view s' = retire a (tcp_view s) \<Longrightarrow> Q s') \<Longrightarrow> ensures (enter_time_wait a s) Q"
  using enter_time_wait_view [of a s] by (auto simp: ensures_def)

lemma retire_upd_view [simp]: "fst v a = Some (st, i) \<Longrightarrow> retire a (upd_view a (st', i) v) = retire a v"
  by (auto simp: retire_def upd_view_def split: prod.splits)

definition data_states :: "tcp_state set" where
  "data_states = {ESTABLISHED, FIN_WAIT_1, FIN_WAIT_2, CLOSE_WAIT, CLOSING, LAST_ACK}"

lemma stepped_same: 
  assumes "moved fin_step a s s1" and "tcp_view s2 = tcp_view s1"
  shows "stepped a s s2"
proof -
  obtain st st' i where *: "fst (tcp_view s) a = Some (st, i)" "fin_step st st'" "tcp_view s1 = upd_view a (st', i) (tcp_view s)"
    using assms(1) unfolding moved_def by blast
  then have "tcp_step st st'" "\<not> (st' = TIME_WAIT \<and> st \<noteq> TIME_WAIT)"
    by (auto simp: fin_step_def tcp_step_iff)
  then show ?thesis
    unfolding stepped_def assms(2) using * by metis
qed

lemma stepped_set:
  assumes "moved fin_step a s s1" and "tcp_mem s1 a = Some c" and "fst (tcp_view s) a = Some (st, i)"
    and "pcb_key c' = (st', snd (pcb_key c))" and "tcp_step st st'" and "st' \<noteq> TIME_WAIT"
  shows "stepped a s (set_pcb a c' s1)"
proof -
  obtain st1 where "pcb_key c = (st1, i)" "tcp_view s1 = upd_view a (st1, i) (tcp_view s)"
    using moved_mem [OF assms(1,2)] assms(3) by auto
  then show ?thesis
    using assms unfolding stepped_def tcp_view_set by auto
qed

lemma stepped_retire:
  assumes "tcp_view s2 = retire a (tcp_view s1)" and "moved fin_step a s s0" and "tcp_mem s0 a = Some c"
    and "tcp_view s1 = tcp_view s0" and "fst (tcp_view s) a = Some (st, i)" and "tcp_step st TIME_WAIT" and "st \<noteq> TIME_WAIT"
  shows "stepped a s s2"
proof -
  obtain st1 where "tcp_view s0 = upd_view a (st1, i) (tcp_view s)"
    using moved_mem [OF assms(2,3)] assms(5) by auto
  then show ?thesis
    using assms unfolding stepped_def by auto
qed

lemma process_data_step:
  assumes "fst (tcp_view s) a = Some (st, i)" and "st \<in> data_states"
  shows "ensures (process_data st a s) (stepped a s)"
proof -
  have "st = ESTABLISHED \<or> st = FIN_WAIT_1 \<or> st = FIN_WAIT_2 \<or> st = CLOSE_WAIT \<or> st = CLOSING \<or> st = LAST_ACK"
    using assms(2) by (auto simp: data_states_def)
  then show ?thesis
    unfolding process_data_def
    by (elim disjE; simp only: tcp_state.case)
       (((rule wp tcp_receive_wp)+ | rule ensures_any | erule (1) stepped_set | erule stepped_retire, assumption, assumption | erule stepped_same |
         simp add: assms tcp_step_iff)+)
qed

subsection \<open>Segment processing\<close>

text \<open>What is relied on of the callbacks: an accepted or a connected one changes neither states nor lists of control blocks, unless
  it reports that it has aborted the connection.\<close>

definition cb_steady :: "'a tcpnet_scheme tcp_cb \<Rightarrow> bool" where
  "cb_steady cb \<longleftrightarrow>
     (\<forall>f arg p e s s'. cb_accept cb f arg p e s = Some (ERR_OK, s') \<longrightarrow> tcp_view s' = tcp_view s) \<and>
     (\<forall>f arg a e s err s'. cb_connected cb f arg a e s = Some (err, s') \<and> err \<noteq> ERR_ABRT \<longrightarrow> tcp_view s' = tcp_view s)"

lemma stepped_upd:
  "tcp_view s' = upd_view a (st', i) (tcp_view s) \<Longrightarrow> fst (tcp_view s) a = Some (st, i) \<Longrightarrow> tcp_step st st' \<Longrightarrow>
   st' \<noteq> TIME_WAIT \<Longrightarrow> stepped a s s'"
  by (auto simp: stepped_def)

lemma stepped_refl: "tcp_view s' = tcp_view s \<Longrightarrow> fst (tcp_view s) a \<noteq> None \<Longrightarrow> stepped a s s'"
  by (erule stepped_same [OF moved_same, OF refl]) simp

lemma accept_view:
  "cb_steady cb \<Longrightarrow> TCP_EVENT_ACCEPT cb l p arg e s = Some (ERR_OK, s') \<Longrightarrow> tcp_view s' = tcp_view s"
  by (auto simp: TCP_EVENT_ACCEPT_def cb_steady_def tcp_accept_null_def bind_eq_Some_conv split: option.splits accept_fn.splits if_split_asm)

lemma accept_wp:
  "cb_steady cb \<Longrightarrow> (\<And>e' s'. (e' = ERR_OK \<longrightarrow> tcp_view s' = tcp_view s) \<Longrightarrow> Q (e', s')) \<Longrightarrow>
   ensures (TCP_EVENT_ACCEPT cb l p arg e s) Q"
  using accept_view [of cb l p arg e s] by (auto simp: ensures_def)

lemma connected_wp:
  "cb_steady cb \<Longrightarrow> (\<And>e' s'. (e' \<noteq> ERR_ABRT \<longrightarrow> tcp_view s' = tcp_view s) \<Longrightarrow> Q (e', s')) \<Longrightarrow>
   ensures (TCP_EVENT_CONNECTED cb a e s) Q"
  by (auto simp: ensures_def TCP_EVENT_CONNECTED_def cb_steady_def bind_eq_Some_conv split: option.splits)

lemma process_rst_step:
  assumes "tcp_mem s a = Some c"
  shows "ensures (process_rst a c s) (\<lambda>(e, s'). e \<noteq> ERR_ABRT \<longrightarrow> stepped a s s')"
  unfolding process_rst_def
  by ((rule wp impI)+ | rule ensures_any | simp only: prod.case | rule stepped_refl | simp add: assms fst_tcp_view)+

lemma stepped_right: "stepped a s s1 \<Longrightarrow> tcp_view s2 = tcp_view s1 \<Longrightarrow> stepped a s s2"
  by (simp add: stepped_def)

lemma stepped_right_if: "b \<longrightarrow> stepped a s s1 \<Longrightarrow> b \<Longrightarrow> tcp_view s2 = tcp_view s1 \<Longrightarrow> stepped a s s2"
  by (simp add: stepped_def)

lemma stepped_set_from:
  "tcp_mem s a = Some c \<Longrightarrow> tcp_view s0 = tcp_view s \<Longrightarrow> tcp_step (pcb_state c) (fst (pcb_key c')) \<Longrightarrow>
   snd (pcb_key c') = snd (pcb_key c) \<Longrightarrow> fst (pcb_key c') \<noteq> TIME_WAIT \<Longrightarrow> stepped a s (set_pcb a c' s0)"
  by (rule stepped_upd [where st' = "fst (pcb_key c')" and i = "snd (pcb_key c')" and st = "pcb_state c"])
     (simp_all add: tcp_view_set fst_tcp_view prod_eq_iff pcb_key_def [of c])

lemma connected_step_wp:
  assumes "cb_steady cb" and "stepped a s s1" and "\<And>e' s'. (e' \<noteq> ERR_ABRT \<longrightarrow> stepped a s s') \<Longrightarrow> Q (e', s')"
  shows "ensures (TCP_EVENT_CONNECTED cb a e s1) Q"
  by (rule connected_wp [OF assms(1)]) (auto intro!: assms(3) stepped_right [OF assms(2)])

lemma process_syn_sent_step:
  assumes "tcp_mem s a = Some c" and "pcb_state c = SYN_SENT" and "cb_steady cb"
  shows "ensures (process_syn_sent cb a c s) (\<lambda>(e, s'). e \<noteq> ERR_ABRT \<longrightarrow> stepped a s s')"
  unfolding process_syn_sent_def
  by ((rule wp connected_step_wp [OF assms(3)] impI)+ | simp only: prod.case
    | erule stepped_right_if | rule stepped_set_from [OF assms(1)] | rule stepped_refl | rule ensures_any
    | simp add: assms fst_tcp_view tcp_step_iff)+

text \<open>The end of the handshake.\<close>

definition syn_step :: "tcp_state \<Rightarrow> tcp_state \<Rightarrow> bool" where
  "syn_step st st' \<longleftrightarrow> st = SYN_RCVD \<and> (st' = ESTABLISHED \<or> st' = CLOSE_WAIT)"

lemma stepped_syn: "moved syn_step a s s1 \<Longrightarrow> tcp_view s2 = tcp_view s1 \<Longrightarrow> stepped a s s2"
  by (auto simp: moved_def syn_step_def tcp_step_iff intro: stepped_upd)

lemma accept_syn_wp:
  assumes "cb_steady cb" and "moved syn_step a s s1" and "\<And>e' s'. (e' = ERR_OK \<longrightarrow> moved syn_step a s s') \<Longrightarrow> Q (e', s')"
  shows "ensures (TCP_EVENT_ACCEPT cb l p arg e s1) Q"
  by (rule accept_wp [OF assms(1)]) (auto intro!: assms(3) moved_right [OF assms(2)])

lemma receive_syn_wp:
  assumes "b \<longrightarrow> moved syn_step a s s1" and b and "\<And>s'. moved syn_step a s s' \<Longrightarrow> Q s'"
  shows "ensures (tcp_receive a s1) Q"
proof -
  have m: "moved syn_step a s s1"
    using assms by simp
  show ?thesis
    by (rule tcp_receive_wp [OF moved_present [OF m]])
       (rule assms(3), rule moved_trans [OF m], assumption, auto simp: syn_step_def fin_step_def)
qed

lemma close_wait_syn:
  assumes "moved syn_step a s s1" and "tcp_mem s2 a = Some c" and "tcp_view s2 = tcp_view s1" and "snd (pcb_key c') = snd (pcb_key c)"
  shows "stepped a s (set_pcb a (c'\<lparr>pcb_state := CLOSE_WAIT\<rparr>) s2)"
proof -
  obtain st i where "fst (tcp_view s) a = Some (st, i)" "syn_step st (pcb_state c)" "pcb_key c = (pcb_state c, i)"
    "tcp_view s2 = upd_view a (pcb_key c) (tcp_view s)"
    using moved_mem [OF moved_right [OF assms(1,3)] assms(2)] by blast
  then show ?thesis
    using assms(4) by (intro stepped_upd [where st' = CLOSE_WAIT]) (auto simp: tcp_view_set syn_step_def tcp_step_iff)
qed

lemma process_syn_rcvd_step:
  assumes "tcp_mem s a = Some c" and "pcb_state c = SYN_RCVD" and "cb_steady cb"
  shows "ensures (process_syn_rcvd cb a c s) (\<lambda>(e, s'). e \<noteq> ERR_ABRT \<longrightarrow> stepped a s s')"
proof -
  have m: "moved syn_step a s (set_pcb a (c\<lparr>pcb_state := ESTABLISHED\<rparr>) s)"
    by (rule moved_set [OF refl assms(1)]) (simp_all add: syn_step_def assms(2) flip: pcb_state_key)
  show ?thesis
    unfolding process_syn_rcvd_def Let_def
    by (simp only: prod.case | rule wp accept_syn_wp [OF assms(3) m] impI | erule receive_syn_wp | erule (1) close_wait_syn
      | erule stepped_syn | rule stepped_refl | rule ensures_any | clarsimp simp: assms fst_tcp_view)+
qed

lemma tcp_process_step:
  assumes "tcp_mem s a = Some c" and "cb_steady cb"
  shows "ensures (tcp_process cb a s) (\<lambda>(e, s'). e \<noteq> ERR_ABRT \<longrightarrow> stepped a s s')"
proof -
  have v: "stepped a s s2" if "stepped a s1 s2" and "tcp_view s1 = tcp_view s" for s1 s2
    using that(1) unfolding stepped_def that(2) .
  have r: "stepped a s s1" if "tcp_view s1 = tcp_view s" for s1
    by (rule stepped_refl) (simp_all add: that fst_tcp_view [OF assms(1)])
  have st: "ensures (case pcb_state c1 of
           SYN_SENT \<Rightarrow> process_syn_sent cb a c1 s1 | SYN_RCVD \<Rightarrow> process_syn_rcvd cb a c1 s1
         | CLOSED \<Rightarrow> Some (ERR_OK, s1) | LISTEN \<Rightarrow> Some (ERR_OK, s1) | TIME_WAIT \<Rightarrow> Some (ERR_OK, s1)
         | st \<Rightarrow> map_option (Pair ERR_OK) (process_data st a s1)) (\<lambda>(e, s'). e \<noteq> ERR_ABRT \<longrightarrow> stepped a s s')"
    if m: "tcp_mem s1 a = Some c1" and w: "tcp_view s1 = tcp_view s" for c1 s1
    using process_syn_sent_step [OF m _ assms(2)] process_syn_rcvd_step [OF m _ assms(2)] v [OF _ w]
      process_data_step [of s1 a "pcb_state c1" "snd (pcb_key c1)"] r [OF w] fst_tcp_view [OF m] w
    by (cases "pcb_state c1") (auto simp: ensures_def data_states_def pcb_state_key)
  show ?thesis
    unfolding tcp_process_def
    by ((rule wp st)+ | simp only: prod.case | rule process_rst_step | rule impI stepped_refl | rule ensures_any
      | simp add: assms fst_tcp_view)+
qed

lemma tcp_step_forward: "tcp_step st st' \<Longrightarrow> state_code st \<le> state_code st'"
  by (induction rule: tcp_step.induct) simp_all

text \<open>The lists hold what the loops over them assert: control blocks that exist, once each, those of the active list in an active
  state, those of the other in \<^verbatim>\<open>TIME_WAIT\<close>.\<close>

definition pcbs_ok :: "'a tcpnet_scheme \<Rightarrow> bool" where
  "pcbs_ok s \<longleftrightarrow> distinct (tcp_active_pcbs s @ tcp_tw_pcbs s) \<and>
     (\<forall>a \<in> set (tcp_active_pcbs s). \<exists>c. tcp_mem s a = Some c \<and> active_state (pcb_state c)) \<and>
     (\<forall>a \<in> set (tcp_tw_pcbs s). \<exists>c. tcp_mem s a = Some c \<and> pcb_state c = TIME_WAIT)"

lemma pcbs_ok_keys:
  "pcbs_ok s \<longleftrightarrow> distinct (tcp_active_pcbs s @ tcp_tw_pcbs s) \<and>
     (\<forall>a \<in> set (tcp_active_pcbs s). \<exists>st i. keys s a = Some (st, i) \<and> active_state st) \<and>
     (\<forall>a \<in> set (tcp_tw_pcbs s). \<exists>i. keys s a = Some (TIME_WAIT, i))"
proof -
  have "(\<exists>c. tcp_mem s a = Some c \<and> P (pcb_state c)) \<longleftrightarrow> (\<exists>st i. keys s a = Some (st, i) \<and> P st)" for a P
    by (auto simp: keys_def pcb_key_def)
  from this [of _ active_state] this [of _ "\<lambda>st. st = TIME_WAIT"] show ?thesis
    unfolding pcbs_ok_def by simp
qed

lemma stepped_lists:
  assumes "stepped a s s'" and "pcbs_ok s" and "a \<in> set (tcp_active_pcbs s)"
  shows "\<exists>st st' i. keys s a = Some (st, i) \<and> tcp_step st st' \<and> active_state st \<and> keys s' = (keys s)(a \<mapsto> (st', i)) \<and>
    (if st' = TIME_WAIT then tcp_active_pcbs s' = remove1 a (tcp_active_pcbs s) \<and> tcp_tw_pcbs s' = a # tcp_tw_pcbs s
     else tcp_active_pcbs s' = tcp_active_pcbs s \<and> tcp_tw_pcbs s' = tcp_tw_pcbs s)"
proof -
  obtain st st' i where *: "fst (tcp_view s) a = Some (st, i)" "tcp_step st st'"
    "tcp_view s' = (if st' = TIME_WAIT \<and> st \<noteq> TIME_WAIT then retire a (tcp_view s) else upd_view a (st', i) (tcp_view s))"
    using assms(1) unfolding stepped_def by blast
  then have k: "keys s a = Some (st, i)"
    by (simp add: tcp_view_def)
  then have "active_state st"
    using assms(2,3) by (auto simp: pcbs_ok_keys)
  then have "st \<noteq> TIME_WAIT"
    by (auto simp: active_state_def)
  then show ?thesis
    using * k \<open>active_state st\<close>
    by (intro exI [of _ st] exI [of _ st'] exI [of _ i])
       (auto simp: tcp_view_def retire_def upd_view_def tcp_lists_def split: if_split_asm)
qed

lemma active_step: "tcp_step st st' \<Longrightarrow> active_state st \<Longrightarrow> st' = TIME_WAIT \<or> active_state st'"
  by (auto simp: tcp_step_iff active_state_def)

lemma stepped_pcbs_ok:
  assumes "stepped a s s'" and "pcbs_ok s" and "a \<in> set (tcp_active_pcbs s)"
  shows "pcbs_ok s'"
proof -
  obtain st st' i where *: "tcp_step st st'" "active_state st" "keys s' = (keys s)(a \<mapsto> (st', i))"
    "if st' = TIME_WAIT then tcp_active_pcbs s' = remove1 a (tcp_active_pcbs s) \<and> tcp_tw_pcbs s' = a # tcp_tw_pcbs s
     else tcp_active_pcbs s' = tcp_active_pcbs s \<and> tcp_tw_pcbs s' = tcp_tw_pcbs s"
    using stepped_lists [OF assms] by blast
  moreover have "a \<notin> set (tcp_tw_pcbs s)"
    using assms(2,3) by (auto simp: pcbs_ok_keys)
  ultimately show ?thesis
    using assms(2,3) active_step [OF *(1,2)] unfolding pcbs_ok_keys
    by (cases i) (auto simp: distinct_remove1 dest: notin_set_remove1 split: if_split_asm)
qed

text \<open>C10: Processing a segment moves the connection along the state diagram only, never back, leaves the states and peers of all others
  as they are, and keeps the lists in order: a connection is moved to the list of waiting ones exactly when it enters \<^verbatim>\<open>TIME_WAIT\<close>.\<close>

theorem tcp_process_follows_diagram:
  assumes "tcp_process cb a s = Some (err, s')" and "err \<noteq> ERR_ABRT" and "cb_steady cb" and "pcbs_ok s" and "a \<in> set (tcp_active_pcbs s)"
  shows "(\<exists>c c'. tcp_mem s a = Some c \<and> tcp_mem s' a = Some c' \<and> tcp_step (pcb_state c) (pcb_state c') \<and>
            state_code (pcb_state c) \<le> state_code (pcb_state c') \<and> snd (pcb_key c') = snd (pcb_key c) \<and>
            (a \<in> set (tcp_tw_pcbs s') \<longleftrightarrow> pcb_state c' = TIME_WAIT)) \<and>
         (\<forall>b. b \<noteq> a \<longrightarrow> keys s' b = keys s b) \<and> pcbs_ok s'"
proof -
  obtain c where c: "tcp_mem s a = Some c"
    using assms(4,5) by (auto simp: pcbs_ok_def)
  have "stepped a s s'"
    using ensuresD [OF tcp_process_step [OF c assms(3)] assms(1)] assms(2) by simp
  then obtain st st' i where *: "keys s a = Some (st, i)" "tcp_step st st'" "keys s' = (keys s)(a \<mapsto> (st', i))"
    "if st' = TIME_WAIT then tcp_tw_pcbs s' = a # tcp_tw_pcbs s else tcp_tw_pcbs s' = tcp_tw_pcbs s"
    using stepped_lists [OF _ assms(4,5)] by meson
  then obtain c' where c': "tcp_mem s' a = Some c'" "pcb_key c' = (st', i)"
    by (auto simp: keys_def fun_eq_iff split: if_split_asm)
  have "a \<notin> set (tcp_tw_pcbs s)"
    using assms(4,5) by (auto simp: pcbs_ok_def)
  then have "a \<in> set (tcp_tw_pcbs s') \<longleftrightarrow> st' = TIME_WAIT"
    using *(4) by (auto split: if_split_asm)
  then show ?thesis
    using * c c' tcp_step_forward [OF *(2)] stepped_pcbs_ok [OF \<open>stepped a s s'\<close> assms(4,5)] by (simp add: pcb_state_key)
qed

text \<open>A SYN that arrives on an established connection.\<close>

definition sample_cb :: "tcpnet tcp_cb" where
  "sample_cb = \<lparr>cb_accept = (\<lambda>f arg p e s. Some (ERR_OK, s)), cb_recv = (\<lambda>f arg a p e s. Some (ERR_OK, s)),
     cb_sent = (\<lambda>f arg a n s. Some (ERR_OK, s)), cb_connected = (\<lambda>f arg a e s. Some (ERR_OK, s)), cb_poll = (\<lambda>f arg a s. Some (ERR_OK, s)),
     cb_err = (\<lambda>f arg e s. Some s)\<rparr>"

definition sample_conn :: tcpnet where
  "sample_conn = set_pcb 7 sample_pcb (sample_tcpnet\<lparr>tcp_active_pcbs := [7], tcp_in := sample_tcp_in\<lparr>in_flags := TCP_SYN\<rparr>\<rparr>)"

theorem tcp_process_follows_diagram_witness:
  "tcp_process sample_cb 7 sample_conn = Some (ERR_OK, set_pcb 7 (tcp_ack_now sample_pcb) sample_conn) \<and>
   pcbs_ok (set_pcb 7 (tcp_ack_now sample_pcb) sample_conn)"
proof -
  have p: "tcp_process sample_cb 7 sample_conn = Some (ERR_OK, set_pcb 7 (tcp_ack_now sample_pcb) sample_conn)"
    by (simp add: tcp_process_def sample_conn_def sample_pcb_sel TCP_SYN_def TCP_RST_def)
  moreover have "cb_steady sample_cb"
    by (simp add: cb_steady_def sample_cb_def)
  moreover have "pcbs_ok sample_conn" and "7 \<in> set (tcp_active_pcbs sample_conn)"
    by (simp_all add: pcbs_ok_def sample_conn_def set_pcb_def sample_tcpnet_def timenet.defs active_state_def sample_pcb_sel)
  ultimately show ?thesis
    using tcp_process_follows_diagram [OF p] by simp
qed

end
