(* ===== verification/Tcp_Demux.thy ===== *)
theory Tcp_Demux
  imports Tcp_States
begin

text \<open>
  Segments that do not belong where they arrive: a reset is obeyed only with the exact sequence number, and what a segment
  without a connection does to the list of listening control blocks.
\<close>

subsection \<open>Resets\<close>

lemma TF_RESET_bit: "TF_RESET \<noteq> 0" "(0 :: u8) OR TF_RESET = TF_RESET" "TF_RESET AND TF_RESET \<noteq> 0" "(0 :: u8) AND x = 0"
  by (simp_all add: TF_RESET_def)

lemma set_pcb_input_pcb: "(set_pcb a c s)\<lparr>tcp_input_pcb := p\<rparr> = set_pcb a c (s\<lparr>tcp_input_pcb := p\<rparr>)"
  by (cases s) (simp add: set_pcb_def)

lemma events_output: "map_option (\<lambda>(err, s). (False, s)) m \<bind> (\<lambda>r. Some (snd r)) = map_option snd m"
  by (cases m) auto



subsection \<open>The list of listening control blocks\<close>

lemma listen_search_cycle:
  assumes "tcp_listen_mem s lp = Some l" and "lpcb_next l = Some lp" and "\<not> P l"
  shows "listen_search fuel P (Some lp) s = None"
  using assms by (induction fuel) simp_all

lemma tcp_bind_cycle:
  assumes "tcp_listen_pcbs s = Some lp" and "tcp_listen_mem s lp = Some l" and "lpcb_next l = Some lp"
    and "state_of a s = Some CLOSED" and "port \<noteq> 0" and "port \<noteq> lpcb_local_port l"
  shows "tcp_bind (Some a) ip port s = None"
  using assms listen_search_cycle [OF assms(2,3)]
  by (simp add: tcp_bind_def bind_conflict_def addr_in_use_def)

text \<open>C35: A stray reset, which the listening control block ignores, is enough to link that control block to itself. From then on a search of
  the listening control blocks for another port never ends, so that a later \<^verbatim>\<open>tcp_bind\<close> does not return.\<close>

theorem stray_segment_loops_listeners:
  assumes "tcp_listen_pcbs s = Some lp" and "tcp_listen_mem s lp = Some l" and "in_flags (tcp_in s) AND TCP_RST \<noteq> 0"
    and "rd16 (net_heap s) (in_tcphdr (tcp_in s)) 0 = Some src" and "rd16 (net_heap s) (in_tcphdr (tcp_in s)) 2 = Some dest"
    and "pcb_lookup active_state (tcp_active_pcbs s) src dest s = Some None"
    and "pcb_lookup (\<lambda>st. st = TIME_WAIT) (tcp_tw_pcbs s) src dest s = Some None"
    and "pbuf_free (Some p) (net_heap s) = Some (n, h)"
    and "state_of a s = Some CLOSED" and "port \<noteq> 0" and "port \<noteq> lpcb_local_port l"
  shows "\<exists>s'. input_demux cb p s = Some s' \<and> tcp_listen_pcbs s' = Some lp \<and>
    tcp_listen_mem s' lp = Some (l\<lparr>lpcb_next := Some lp\<rparr>) \<and>
    (\<forall>fuel. listen_search fuel (\<lambda>l. lpcb_local_port l = port) (tcp_listen_pcbs s') s' = None) \<and>
    tcp_bind (Some a) ip port s' = None"
proof -
  let ?s = "(set_lpcb lp (l\<lparr>lpcb_next := Some lp\<rparr>) s)\<lparr>net_heap := h\<rparr>"
  have d: "input_demux cb p s = Some ?s"
    using assms by (simp add: input_demux_def listen_front_def tcp_listen_input_def tcp_input_free_def set_lpcb_def Let_def)
  have m: "tcp_listen_pcbs ?s = Some lp" "tcp_listen_mem ?s lp = Some (l\<lparr>lpcb_next := Some lp\<rparr>)"
    using assms(1) by (simp_all add: set_lpcb_def)
  moreover have "state_of a ?s = Some CLOSED"
    using assms(2,9) by (auto simp: state_of_def set_lpcb_def split: option.splits)
  ultimately show ?thesis
    using d tcp_bind_cycle [OF m, of a port ip] listen_search_cycle [OF m(2), of "\<lambda>l. lpcb_local_port l = port"] assms(10,11)
    by auto
qed

text \<open>A reset far outside the window of the sample connection, and the same segment at a stack with two listening control blocks.\<close>

definition sample_reset :: tcpnet where
  "sample_reset = set_pcb 7 sample_pcb (sample_tcpnet\<lparr>tcp_active_pcbs := [7], tcp_in := sample_tcp_in\<lparr>in_flags := TCP_RST, in_seqno := 0x10000000\<rparr>\<rparr>)"


definition sample_lpcb :: "u16 \<Rightarrow> addr option \<Rightarrow> tcp_pcb_listen" where
  "sample_lpcb port next = \<lparr>lpcb_local_ip = 0, lpcb_netif_idx = 0, lpcb_so_options = 0, lpcb_tos = 0, lpcb_ttl = 255, lpcb_next = next,
     lpcb_callback_arg = None, lpcb_state = LISTEN, lpcb_prio = 64, lpcb_local_port = port, lpcb_accept = Some (Accept_fn 0)\<rparr>"

definition sample_listen :: tcpnet where
  "sample_listen = sample_tcpnet
     \<lparr>net_heap := ram 3 (replicate 20 0) [] [] (empty_heap\<lparr>h_next := 9\<rparr>),
      tcp_in := sample_tcp_in\<lparr>in_tcphdr := Some (3, 0), in_flags := TCP_RST\<rparr>, tcp_listen_pcbs := Some 5,
      tcp_listen_mem := [5 \<mapsto> sample_lpcb 443 (Some 6), 6 \<mapsto> sample_lpcb 80 None],
      tcp_mem := [7 \<mapsto> new_tcp_pcb 64 sample_tcpnet]\<rparr>"

theorem stray_segment_loops_listeners_witness:
  "\<exists>s'. input_demux sample_cb 3 sample_listen = Some s' \<and> tcp_bind (Some 7) None 8080 s' = None"
proof -
  have "tcp_active_pcbs sample_listen = []" "tcp_tw_pcbs sample_listen = []"
    by (simp_all add: sample_listen_def sample_tcpnet_def timenet.defs)
  moreover have "rd16 (net_heap sample_listen) (in_tcphdr (tcp_in sample_listen)) 0 = Some 0"
    "rd16 (net_heap sample_listen) (in_tcphdr (tcp_in sample_listen)) 2 = Some 0"
    by (simp_all add: sample_listen_def rd16_def mem_read_def slice_def le16_def)
  moreover have "pbuf_free (Some 3) (net_heap sample_listen) = Some (1, mem_free 3 (empty_heap\<lparr>h_next := 9\<rparr>))"
    by (simp add: sample_listen_def ram_simps)
  moreover have "tcp_listen_pcbs sample_listen = Some 5" "tcp_listen_mem sample_listen 5 = Some (sample_lpcb 443 (Some 6))"
    "in_flags (tcp_in sample_listen) AND TCP_RST \<noteq> 0" "state_of 7 sample_listen = Some CLOSED"
    by (simp_all add: sample_listen_def TCP_RST_def state_of_def new_tcp_pcb_def)
  ultimately show ?thesis
    using stray_segment_loops_listeners [of sample_listen 5 "sample_lpcb 443 (Some 6)" 0 0 3 1 "mem_free 3 (empty_heap\<lparr>h_next := 9\<rparr>)" 7 8080 sample_cb None]
    by (auto simp: sample_lpcb_def)
qed

end
