(* ===== verification/Spec2Isabelle.thy ===== *)
theory Spec2Isabelle
  imports Prelude Lwip_Def Inet_Chksum Ip4_Addr Pbuf_Props Socks5 Session_Map Udp_Proxy Tcp_Handler Packet_Handler Tcp_Demux
begin

text \<open>
  \<^bold>\<open>libtunosocks: a TUN-to-SOCKS5 proxy over an embedded lwIP stack.\<close>
\<close>

end
